(* ===== verification/Prelude.thy ===== *)
theory Prelude
  imports Complex_Main "HOL-Library.AList" "HOL-Library.Sublist" "HOL-Library.Char_ord"
    "HOL-Library.List_Lexorder" "HOL-Library.Multiset"
begin

text \<open>
  Shared vocabulary of the development: the outcome type of Go code that may panic, its
  sequencing combinators, Go maps as association lists, and the generic lemmas on lists and
  outcomes that the component theories rely on.

  A Go function that can panic returns a value of \<open>'a go\<close>: \<open>Inl p\<close> is the panic
  \<open>p\<close>, \<open>Inr v\<close> the normal result. An ordinary Go \<open>error\<close> value is not a panic; it
  is part of the normal result (\<open>err + 'a\<close>).

  A Go map is an association list with distinct keys. The order of the list stands for the
  order in which one \<open>range\<close> statement visits the map, which Go leaves open: theorems
  quantify over the list and so over the order. Where code ranges over the same map several
  times the orders are an argument of their own.
\<close>

subsection \<open>Automation collections\<close>

named_theorems go_simps \<open>equations that run code in the outcome monad\<close>
named_theorems wf_intros \<open>introduction rules: generated metrics are well formed\<close>

subsection \<open>Panics and outcomes\<close>

datatype go_panic =
    Panic_msg string
  | Nil_dereference
  | Index_out_of_range
  | Type_assertion

type_synonym 'a go = "go_panic + 'a"

text \<open>A Go \<open>error\<close> with its message.\<close>

datatype err = Err string

fun go_bind :: "'a go \<Rightarrow> ('a \<Rightarrow> 'b go) \<Rightarrow> 'b go" where
  "go_bind (Inl p) f = Inl p"
| "go_bind (Inr x) f = f x"

text \<open>A loop that collects one result per element and stops at the first panic.\<close>

fun go_mapM :: "('a \<Rightarrow> 'b go) \<Rightarrow> 'a list \<Rightarrow> 'b list go" where
  "go_mapM f [] = Inr []"
| "go_mapM f (x # xs) = go_bind (f x) (\<lambda>y. go_bind (go_mapM f xs) (\<lambda>ys. Inr (y # ys)))"

text \<open>A loop that threads a state and stops at the first panic.\<close>

fun go_foldM :: "('s \<Rightarrow> 'a \<Rightarrow> 's go) \<Rightarrow> 's \<Rightarrow> 'a list \<Rightarrow> 's go" where
  "go_foldM f s [] = Inr s"
| "go_foldM f s (x # xs) = go_bind (f s x) (\<lambda>s'. go_foldM f s' xs)"

text \<open>Reading through a pointer that may be nil.\<close>

fun deref :: "'a option \<Rightarrow> 'a go" where
  "deref None = Inl Nil_dereference"
| "deref (Some x) = Inr x"

text \<open>Indexing a slice.\<close>

definition index_slice :: "'a list \<Rightarrow> nat \<Rightarrow> 'a go" where
  "index_slice xs i = (if i < length xs then Inr (xs ! i) else Inl Index_out_of_range)"

abbreviation returns :: "'a go \<Rightarrow> bool" where
  "returns r \<equiv> \<not> isl r"

lemma go_bind_Inr_iff: "go_bind m f = Inr y \<longleftrightarrow> (\<exists>x. m = Inr x \<and> f x = Inr y)"
  by (cases m) auto

lemma go_bind_Inl_iff: "go_bind m f = Inl p \<longleftrightarrow> m = Inl p \<or> (\<exists>x. m = Inr x \<and> f x = Inl p)"
  by (cases m) auto

lemma go_bind_assoc: "go_bind (go_bind m f) g = go_bind m (\<lambda>x. go_bind (f x) g)"
  by (cases m) auto

lemma returns_iff: "returns r \<longleftrightarrow> (\<exists>x. r = Inr x)"
  by (cases r) auto

lemma go_bind_isl: "isl (go_bind m f) \<longleftrightarrow> isl m \<or> (\<exists>x. m = Inr x \<and> isl (f x))"
  by (cases m) auto

lemma isl_deref [simp]: "isl (deref p) \<longleftrightarrow> p = None"
  by (cases p) auto

lemma deref_Inr_iff [simp]: "deref p = Inr x \<longleftrightarrow> p = Some x"
  by (cases p) auto

lemma deref_Inl_iff [simp]: "deref p = Inl e \<longleftrightarrow> p = None \<and> e = Nil_dereference"
  by (cases p) auto

lemma go_mapM_Inr_iff: "go_mapM f xs = Inr ys \<longleftrightarrow> list_all2 (\<lambda>x y. f x = Inr y) xs ys"
proof (induction xs arbitrary: ys)
  case Nil
  then show ?case by (cases ys) auto
next
  case (Cons x xs)
  show ?case
    by (cases ys) (auto simp: go_bind_Inr_iff Cons.IH)
qed

lemma go_mapM_length: "go_mapM f xs = Inr ys \<Longrightarrow> length ys = length xs"
  by (auto simp: go_mapM_Inr_iff dest: list_all2_lengthD)

lemma go_mapM_nth: "go_mapM f xs = Inr ys \<Longrightarrow> i < length xs \<Longrightarrow> f (xs ! i) = Inr (ys ! i)"
  by (auto simp: go_mapM_Inr_iff list_all2_conv_all_nth)

lemma go_mapM_total: "(\<And>x. x \<in> set xs \<Longrightarrow> f x = Inr (g x)) \<Longrightarrow> go_mapM f xs = Inr (map g xs)"
  by (induction xs) auto

lemma go_mapM_returns: "(\<And>x. x \<in> set xs \<Longrightarrow> \<exists>y. f x = Inr y) \<Longrightarrow> \<exists>ys. go_mapM f xs = Inr ys"
  by (induction xs) (auto simp: go_bind_Inr_iff)

lemma go_mapM_set:
  "go_mapM f xs = Inr ys \<Longrightarrow> y \<in> set ys \<Longrightarrow> \<exists>x\<in>set xs. f x = Inr y"
  by (metis go_mapM_length go_mapM_nth in_set_conv_nth nth_mem)

lemma go_mapM_isl: "isl (go_mapM f xs) \<longleftrightarrow> (\<exists>x \<in> set xs. isl (f x))"
proof (induction xs)
  case (Cons x xs)
  then show ?case by (cases "f x"; cases "go_mapM f xs") (auto simp: go_bind_isl)
qed simp

lemma go_mapM_append:
  "go_mapM f (xs @ ys) = go_bind (go_mapM f xs) (\<lambda>us. go_bind (go_mapM f ys) (\<lambda>vs. Inr (us @ vs)))"
proof (induction xs)
  case Nil
  show ?case by (cases "go_mapM f ys") auto
next
  case (Cons x xs)
  then show ?case
    by (cases "f x"; cases "go_mapM f xs"; cases "go_mapM f ys") auto
qed

lemma index_slice_Inr_iff [simp]: "index_slice xs i = Inr x \<longleftrightarrow> i < length xs \<and> x = xs ! i"
  by (auto simp: index_slice_def)

declare go_bind.simps [go_simps] go_mapM.simps [go_simps] go_foldM.simps [go_simps]
  deref.simps [go_simps]

subsection \<open>Go maps\<close>

type_synonym ('k, 'v) gomap = "('k \<times> 'v) list"

definition gomap_ok :: "('k, 'v) gomap \<Rightarrow> bool" where
  "gomap_ok m \<longleftrightarrow> distinct (map fst m)"

lemma gomap_ok_Nil [simp]: "gomap_ok []"
  by (simp add: gomap_ok_def)

lemma gomap_ok_update [simp]: "gomap_ok m \<Longrightarrow> gomap_ok (AList.update k v m)"
  by (simp add: gomap_ok_def distinct_update)

lemma gomap_ok_delete [simp]: "gomap_ok m \<Longrightarrow> gomap_ok (AList.delete k m)"
  by (simp add: gomap_ok_def distinct_delete)

lemma map_of_AList_update [simp]: "map_of (AList.update k v m) = (map_of m)(k \<mapsto> v)"
  by (rule update_conv')

lemma map_of_AList_delete [simp]: "map_of (AList.delete k m) = (map_of m)(k := None)"
  by (rule delete_conv')

lemma map_of_distinct_perm:
  assumes "gomap_ok m" "set ks = dom (map_of m)" "distinct ks"
  shows "mset (map (\<lambda>k. (k, the (map_of m k))) ks) = mset m"
proof -
  let ?g = "\<lambda>k. (k, the (map_of m k))"
  have dm: "distinct m" and mf: "\<And>k v. (k, v) \<in> set m \<Longrightarrow> map_of m k = Some v"
    using assms(1) by (auto simp: gomap_ok_def distinct_map)
  have "set (map ?g ks) = set m"
  proof (rule equalityI)
    show "set (map ?g ks) \<subseteq> set m"
      using assms(2) by (auto dest: map_of_SomeD)
    show "set m \<subseteq> set (map ?g ks)"
    proof (rule subsetI)
      fix p assume p: "p \<in> set m"
      obtain k v where kv: "p = (k, v)" by (cases p)
      with p mf have "map_of m k = Some v" by blast
      then show "p \<in> set (map ?g ks)" using assms(2) kv by force
    qed
  qed
  moreover have "distinct (map ?g ks)"
    using assms(3) by (simp add: distinct_map inj_on_def)
  ultimately show ?thesis
    using dm set_eq_iff_mset_eq_distinct by blast
qed

subsection \<open>Lists\<close>

lemma concat_map_Nil: "(\<And>x. x \<in> set xs \<Longrightarrow> f x = []) \<Longrightarrow> concat (map f xs) = []"
  by (induction xs) auto

lemma filter_eq_single:
  "distinct xs \<Longrightarrow> x \<in> set xs \<Longrightarrow> filter (\<lambda>y. y = x) xs = [x]"
  by (induction xs) (auto simp: filter_empty_conv)

lemma length_filter_eq_single:
  "distinct xs \<Longrightarrow> length (filter (\<lambda>y. y = x) xs) = (if x \<in> set xs then 1 else 0)"
  by (auto simp: filter_eq_single filter_empty_conv)

end
