(* ===== verification/Go_Strings.thy ===== *)
theory Go_Strings
  imports Prelude
begin

text \<open>
  The parts of Go's \<open>strings\<close>, \<open>strconv\<close>, \<open>sort\<close> and \<open>unicode/utf8\<close> packages
  that the program calls. A Go string is its sequence of bytes, a \<open>char list\<close>; functions
  that work on code points (\<open>TrimSpace\<close>, the rune width used by \<open>regexp\<close>) decode UTF-8.
\<close>

subsection \<open>Split, Join, prefixes\<close>

fun Split :: "char \<Rightarrow> string \<Rightarrow> string list" where
  "Split c [] = [[]]"
| "Split c (x # xs) =
     (if x = c then [] # Split c xs
      else case Split c xs of [] \<Rightarrow> [[x]] | y # ys \<Rightarrow> (x # y) # ys)"

fun Join :: "string list \<Rightarrow> string \<Rightarrow> string" where
  "Join [] sep = []"
| "Join [x] sep = x"
| "Join (x # y # ys) sep = x @ sep @ Join (y # ys) sep"

definition HasPrefix :: "string \<Rightarrow> string \<Rightarrow> bool" where
  "HasPrefix s p \<longleftrightarrow> prefix p s"

definition TrimPrefix :: "string \<Rightarrow> string \<Rightarrow> string" where
  "TrimPrefix s p = (if HasPrefix s p then drop (length p) s else s)"

fun Contains :: "string \<Rightarrow> string \<Rightarrow> bool" where
  "Contains [] sub \<longleftrightarrow> sub = []"
| "Contains (c # s) sub \<longleftrightarrow> prefix sub (c # s) \<or> Contains s sub"

text \<open>\<open>strings.Replace(s, "c", "", -1)\<close> for a one-byte pattern.\<close>

definition Remove_char :: "char \<Rightarrow> string \<Rightarrow> string" where
  "Remove_char c s = filter (\<lambda>x. x \<noteq> c) s"

lemma Split_not_Nil [simp]: "Split c s \<noteq> []"
  by (induction s) (auto split: list.splits)

lemma Split_no_sep: "x \<in> set (Split c s) \<Longrightarrow> c \<notin> set x"
proof (induction s arbitrary: x)
  case Nil
  then show ?case by simp
next
  case (Cons a s)
  then show ?case by (cases "Split c s") (auto split: if_splits)
qed

lemma Split_parts_subset: "x \<in> set (Split c s) \<Longrightarrow> set x \<subseteq> set s"
proof (induction s arbitrary: x)
  case Nil
  then show ?case by simp
next
  case (Cons a s)
  then show ?case by (cases "Split c s") (fastforce split: if_splits)+
qed

lemma Join_Split [simp]: "Join (Split c s) [c] = s"
proof (induction s)
  case (Cons a s)
  then show ?case
    by (cases "Split c s" rule: Join.cases[of "(_, [c])", simplified]) (auto split: list.splits)
qed simp

lemma Split_no_occurrence: "c \<notin> set x \<Longrightarrow> Split c x = [x]"
  by (induction x) auto

lemma Split_append: "c \<notin> set x \<Longrightarrow> Split c (x @ c # s) = x # Split c s"
  by (induction x) auto

lemma Split_Join: "xs \<noteq> [] \<Longrightarrow> (\<And>x. x \<in> set xs \<Longrightarrow> c \<notin> set x) \<Longrightarrow> Split c (Join xs [c]) = xs"
proof (induction xs "[c]" rule: Join.induct)
  case (2 x)
  then show ?case by (simp add: Split_no_occurrence)
next
  case (3 x y ys)
  then show ?case by (simp add: Split_append)
qed simp

lemma length_Split: "length (Split c s) = Suc (count_list s c)"
  by (induction s) (auto split: list.splits)

lemma TrimPrefix_append [simp]: "TrimPrefix (p @ s) p = s"
  by (simp add: TrimPrefix_def HasPrefix_def)

lemma HasPrefix_append [simp]: "HasPrefix (p @ s) p"
  by (simp add: HasPrefix_def)

lemma Contains_iff: "Contains s sub \<longleftrightarrow> (\<exists>a b. s = a @ sub @ b)"
proof (induction s)
  case Nil
  then show ?case by auto
next
  case (Cons c s)
  have "(\<exists>a b. c # s = a @ sub @ b) \<longleftrightarrow> prefix sub (c # s) \<or> (\<exists>a b. s = a @ sub @ b)"
  proof (intro iffI; (elim exE disjE)?)
    fix a b assume "c # s = a @ sub @ b"
    then show "prefix sub (c # s) \<or> (\<exists>a b. s = a @ sub @ b)"
      by (cases a) (auto simp: prefix_def)
  next
    assume "prefix sub (c # s)"
    then show "\<exists>a b. c # s = a @ sub @ b"
      by (metis append_Nil prefix_def)
  next
    fix a b assume "s = a @ sub @ b"
    then show "\<exists>a b. c # s = a @ sub @ b"
      by (metis append_Cons)
  qed
  with Cons show ?case by simp
qed

subsection \<open>TrimSpace\<close>

text \<open>The UTF-8 encodings of the code points with \<open>unicode.IsSpace\<close>.\<close>

definition space_runes :: "string list" where
  "space_runes =
    [[CHR 0x09], [CHR 0x0A], [CHR 0x0B], [CHR 0x0C], [CHR 0x0D], [CHR 0x20],
     [CHR 0xC2, CHR 0x85], [CHR 0xC2, CHR 0xA0], [CHR 0xE1, CHR 0x9A, CHR 0x80],
     [CHR 0xE2, CHR 0x80, CHR 0x80], [CHR 0xE2, CHR 0x80, CHR 0x81], [CHR 0xE2, CHR 0x80, CHR 0x82],
     [CHR 0xE2, CHR 0x80, CHR 0x83], [CHR 0xE2, CHR 0x80, CHR 0x84], [CHR 0xE2, CHR 0x80, CHR 0x85],
     [CHR 0xE2, CHR 0x80, CHR 0x86], [CHR 0xE2, CHR 0x80, CHR 0x87], [CHR 0xE2, CHR 0x80, CHR 0x88],
     [CHR 0xE2, CHR 0x80, CHR 0x89], [CHR 0xE2, CHR 0x80, CHR 0x8A], [CHR 0xE2, CHR 0x80, CHR 0xA8],
     [CHR 0xE2, CHR 0x80, CHR 0xA9], [CHR 0xE2, CHR 0x80, CHR 0xAF], [CHR 0xE2, CHR 0x81, CHR 0x9F],
     [CHR 0xE3, CHR 0x80, CHR 0x80]]"

function trim_left_by :: "string list \<Rightarrow> string \<Rightarrow> string" where
  "trim_left_by rs s =
     (case find (\<lambda>r. r \<noteq> [] \<and> prefix r s) rs of
        None \<Rightarrow> s
      | Some r \<Rightarrow> trim_left_by rs (drop (length r) s))"
  by pat_completeness auto
termination
  by (relation "measure (\<lambda>(rs, s). length s)")
    (auto simp: find_Some_iff prefix_def)

declare trim_left_by.simps [simp del]

definition TrimSpace :: "string \<Rightarrow> string" where
  "TrimSpace s = rev (trim_left_by (map rev space_runes) (rev (trim_left_by space_runes s)))"

lemma trim_left_by_suffix: "suffix (trim_left_by rs s) s"
proof (induction rs s rule: trim_left_by.induct)
  case (1 rs s)
  show ?case
  proof (cases "find (\<lambda>r. r \<noteq> [] \<and> prefix r s) rs")
    case None
    then show ?thesis by (simp add: trim_left_by.simps[of rs s])
  next
    case (Some r)
    with 1 have "suffix (trim_left_by rs (drop (length r) s)) (drop (length r) s)" by simp
    then have "suffix (trim_left_by rs (drop (length r) s)) s"
      using suffix_drop suffix_order.trans by blast
    with Some show ?thesis by (simp add: trim_left_by.simps[of rs s])
  qed
qed

lemma trim_left_by_done: "r \<in> set rs \<Longrightarrow> r \<noteq> [] \<Longrightarrow> \<not> prefix r (trim_left_by rs s)"
proof (induction rs s rule: trim_left_by.induct)
  case (1 rs s)
  show ?case
  proof (cases "find (\<lambda>r. r \<noteq> [] \<and> prefix r s) rs")
    case None
    then have "trim_left_by rs s = s" by (simp add: trim_left_by.simps[of rs s])
    with None 1(2,3) show ?thesis by (auto simp: find_None_iff)
  next
    case (Some q)
    then have "trim_left_by rs s = trim_left_by rs (drop (length q) s)"
      by (simp add: trim_left_by.simps[of rs s])
    with 1(1)[OF Some 1(2,3)] show ?thesis by simp
  qed
qed

lemma trim_left_by_id: "(\<And>r. r \<in> set rs \<Longrightarrow> r \<noteq> [] \<Longrightarrow> \<not> prefix r s) \<Longrightarrow> trim_left_by rs s = s"
proof -
  assume "\<And>r. r \<in> set rs \<Longrightarrow> r \<noteq> [] \<Longrightarrow> \<not> prefix r s"
  then have "find (\<lambda>r. r \<noteq> [] \<and> prefix r s) rs = None"
    by (auto simp: find_None_iff)
  then show ?thesis by (simp add: trim_left_by.simps[of rs s])
qed

lemma set_TrimSpace: "set (TrimSpace s) \<subseteq> set s"
proof -
  let ?t = "trim_left_by space_runes s"
  have "set (TrimSpace s) \<subseteq> set (rev ?t)"
    unfolding TrimSpace_def using trim_left_by_suffix set_mono_suffix by (metis set_rev)
  also have "\<dots> \<subseteq> set s"
    using trim_left_by_suffix set_mono_suffix by (metis set_rev)
  finally show ?thesis .
qed

text \<open>Trimming is idempotent: what the left trim removed cannot reappear on the right.\<close>

lemma TrimSpace_idem [simp]: "TrimSpace (TrimSpace s) = TrimSpace s"
proof -
  let ?l = "trim_left_by space_runes s"
  let ?r = "trim_left_by (map rev space_runes) (rev ?l)"
  have "prefix (rev ?r) ?l"
    using trim_left_by_suffix[of "map rev space_runes" "rev ?l"]
    by (metis rev_rev_ident suffix_to_prefix)
  then have "\<not> prefix r (rev ?r)" if "r \<in> set space_runes" "r \<noteq> []" for r
    using trim_left_by_done[OF that, of s] prefix_order.trans by blast
  then have left: "trim_left_by space_runes (rev ?r) = rev ?r"
    by (rule trim_left_by_id)
  have right: "trim_left_by (map rev space_runes) ?r = ?r"
    by (rule trim_left_by_id) (rule trim_left_by_done)
  show ?thesis
    unfolding TrimSpace_def by (simp add: left right)
qed

subsection \<open>Decimal integers: Itoa and Atoi\<close>

definition digit_char :: "int \<Rightarrow> char" where
  "digit_char d = char_of (48 + nat d)"

definition is_digit :: "char \<Rightarrow> bool" where
  "is_digit c \<longleftrightarrow> 48 \<le> (of_char c :: nat) \<and> (of_char c :: nat) \<le> 57"

definition digit_val :: "char \<Rightarrow> int" where
  "digit_val c = int (of_char c) - 48"

text \<open>The decimal digits of a number that is not negative.\<close>

function dec_digits :: "int \<Rightarrow> string" where
  "dec_digits n = (if n < 10 then [digit_char n] else dec_digits (n div 10) @ [digit_char (n mod 10)])"
  by pat_completeness auto
termination
  by (relation "measure nat") auto

declare dec_digits.simps [simp del]

definition Itoa :: "int \<Rightarrow> string" where
  "Itoa i = (if i < 0 then CHR ''-'' # dec_digits (- i) else dec_digits i)"

definition int_of_digits :: "string \<Rightarrow> int" where
  "int_of_digits s = foldl (\<lambda>acc c. 10 * acc + digit_val c) 0 s"

text \<open>\<open>strconv.Atoi\<close> on a 64-bit platform: \<open>None\<close> is \<open>ErrSyntax\<close> or \<open>ErrRange\<close>.\<close>

definition Atoi :: "string \<Rightarrow> int option" where
  "Atoi s =
     (let neg = (s \<noteq> [] \<and> hd s = CHR ''-'');
          ds = (if s \<noteq> [] \<and> (hd s = CHR ''-'' \<or> hd s = CHR ''+'') then tl s else s);
          v = (if neg then - int_of_digits ds else int_of_digits ds)
      in if ds = [] \<or> \<not> list_all is_digit ds then None
         else if - (2 ^ 63) \<le> v \<and> v < 2 ^ 63 then Some v else None)"

definition FormatBool :: "bool \<Rightarrow> string" where
  "FormatBool b = (if b then ''true'' else ''false'')"

lemma of_char_digit_char: "0 \<le> d \<Longrightarrow> d < 10 \<Longrightarrow> (of_char (digit_char d) :: nat) = 48 + nat d"
  by (simp add: digit_char_def)

lemma digit_char_props [simp]:
  "0 \<le> d \<Longrightarrow> d < 10 \<Longrightarrow> is_digit (digit_char d)"
  "0 \<le> d \<Longrightarrow> d < 10 \<Longrightarrow> digit_val (digit_char d) = d"
  by (auto simp: is_digit_def digit_val_def of_char_digit_char)

lemma dec_digits_not_Nil [simp]: "dec_digits n \<noteq> []"
  by (subst dec_digits.simps) simp

lemma dec_digits_are_digits: "0 \<le> n \<Longrightarrow> list_all is_digit (dec_digits n)"
proof (induction n rule: dec_digits.induct)
  case (1 n)
  then show ?case by (subst dec_digits.simps) auto
qed

lemma int_of_digits_dec_digits [simp]: "0 \<le> n \<Longrightarrow> int_of_digits (dec_digits n) = n"
proof (induction n rule: dec_digits.induct)
  case (1 n)
  then show ?case
    by (subst dec_digits.simps) (auto simp: int_of_digits_def)
qed

lemma not_digit_sign [simp]: "\<not> is_digit (CHR ''-'')" "\<not> is_digit (CHR ''+'')"
  by (simp_all add: is_digit_def)

lemma hd_dec_digits:
  assumes "0 \<le> n"
  shows "hd (dec_digits n) \<noteq> CHR ''-''" "hd (dec_digits n) \<noteq> CHR ''+''"
proof -
  have "is_digit (hd (dec_digits n))"
    using dec_digits_are_digits[OF assms] by (simp add: list_all_iff)
  then show "hd (dec_digits n) \<noteq> CHR ''-''" "hd (dec_digits n) \<noteq> CHR ''+''"
    using not_digit_sign by metis+
qed

lemma Atoi_Itoa: "- (2 ^ 63) \<le> i \<Longrightarrow> i < 2 ^ 63 \<Longrightarrow> Atoi (Itoa i) = Some i"
proof (cases "i < 0")
  case True
  assume "- (2 ^ 63) \<le> i"
  then show ?thesis
    using True dec_digits_are_digits[of "- i"] by (simp add: Atoi_def Itoa_def Let_def)
next
  case False
  assume "i < 2 ^ 63"
  then show ?thesis
    using False dec_digits_are_digits[of i] hd_dec_digits[of i] by (simp add: Atoi_def Itoa_def Let_def)
qed

lemma Atoi_range: "Atoi s = Some i \<Longrightarrow> - (2 ^ 63) \<le> i \<and> i < 2 ^ 63"
  by (auto simp: Atoi_def Let_def split: if_splits)

subsection \<open>Case folding of ASCII text\<close>

text \<open>
  \<open>strings.ToLower\<close> on a string of ASCII bytes, which is how the program calls it (on the
  three condition statuses).
\<close>

definition lower_char :: "char \<Rightarrow> char" where
  "lower_char c = (if 65 \<le> (of_char c :: nat) \<and> (of_char c :: nat) \<le> 90
                   then char_of ((of_char c :: nat) + 32) else c)"

definition ToLower :: "string \<Rightarrow> string" where
  "ToLower s = map lower_char s"

subsection \<open>UTF-8 rune widths\<close>

definition byte_in :: "char \<Rightarrow> nat \<Rightarrow> nat \<Rightarrow> bool" where
  "byte_in c lo hi \<longleftrightarrow> lo \<le> (of_char c :: nat) \<and> (of_char c :: nat) \<le> hi"

text \<open>
  The number of bytes \<open>utf8.DecodeRuneInString\<close> consumes: an invalid or truncated sequence
  consumes one byte.
\<close>

fun rune_width :: "string \<Rightarrow> nat" where
  "rune_width [] = 0"
| "rune_width (a # s) =
     (if byte_in a 0xC2 0xDF then
        (case s of b # _ \<Rightarrow> (if byte_in b 0x80 0xBF then 2 else 1) | [] \<Rightarrow> 1)
      else if byte_in a 0xE0 0xEF then
        (case s of b # c # _ \<Rightarrow>
           (if byte_in b (if of_char a = (0xE0 :: nat) then 0xA0 else 0x80)
                         (if of_char a = (0xED :: nat) then 0x9F else 0xBF)
               \<and> byte_in c 0x80 0xBF then 3 else 1) | _ \<Rightarrow> 1)
      else if byte_in a 0xF0 0xF4 then
        (case s of b # c # d # _ \<Rightarrow>
           (if byte_in b (if of_char a = (0xF0 :: nat) then 0x90 else 0x80)
                         (if of_char a = (0xF4 :: nat) then 0x8F else 0xBF)
               \<and> byte_in c 0x80 0xBF \<and> byte_in d 0x80 0xBF then 4 else 1) | _ \<Rightarrow> 1)
      else 1)"

lemma rune_width_pos [simp]: "0 < rune_width (a # s)"
  by (auto split: list.splits)

lemma rune_width_ascii [simp]: "(of_char a :: nat) < 128 \<Longrightarrow> rune_width (a # s) = 1"
  by (simp add: byte_in_def)

end
