(* ===== verification/Go_Float.thy ===== *)
theory Go_Float
  imports Go_Strings "HOL-Library.Log_Nat"
begin

text \<open>
  Go's \<open>float64\<close>: the IEEE-754 binary64 values with round-to-nearest-even, as the program
  uses them. A finite value is the rational number it denotes; \<open>round_f64\<close> maps an exact
  rational result to the nearest representable value, so \<open>a * b\<close> on floats is
  \<open>round_f64\<close> of the exact product. The two zeros are one value: no operation of the program
  tells them apart (\<open>==\<close> identifies them and \<open>writeFloat\<close> prints \<open>0\<close> for both).
\<close>

subsection \<open>Values and rounding\<close>

datatype float64 = NaN | Inf bool | Fin rat

text \<open>\<open>Inf False\<close> is positive infinity, \<open>Inf True\<close> negative infinity.\<close>

definition pow2 :: "int \<Rightarrow> rat" where
  "pow2 e = (if 0 \<le> e then of_int (2 ^ nat e) else 1 / of_int (2 ^ nat (- e)))"

text \<open>Round to the nearest integer, ties to even.\<close>

definition round_half_even :: "rat \<Rightarrow> int" where
  "round_half_even x =
     (let f = \<lfloor>x\<rfloor>; r = x - of_int f in
      if r < 1 / 2 then f else if 1 / 2 < r then f + 1 else if even f then f else f + 1)"

text \<open>The exponent of the leading binary digit of a positive rational.\<close>

definition exponent_of :: "rat \<Rightarrow> int" where
  "exponent_of x =
     (let (n, d) = quotient_of x; e = bitlen n - bitlen d in if pow2 e \<le> x then e else e - 1)"

text \<open>The weight of the last of 53 significant bits, or the smallest subnormal.\<close>

definition quantum_of :: "rat \<Rightarrow> rat" where
  "quantum_of x = pow2 (max (exponent_of \<bar>x\<bar> - 52) (- 1074))"

definition round_f64 :: "rat \<Rightarrow> float64" where
  "round_f64 x =
     (if x = 0 then Fin 0
      else let q = quantum_of x; v = of_int (round_half_even (x / q)) * q
           in if pow2 1024 \<le> \<bar>v\<bar> then Inf (x < 0) else Fin v)"

text \<open>Conversion \<open>float64(i)\<close> of an integer, and the operations of the code.\<close>

definition float64_of_int :: "int \<Rightarrow> float64" where
  "float64_of_int i = round_f64 (of_int i)"

fun f64_mult :: "float64 \<Rightarrow> float64 \<Rightarrow> float64" where
  "f64_mult (Fin a) (Fin b) = round_f64 (a * b)"
| "f64_mult NaN _ = NaN"
| "f64_mult _ NaN = NaN"
| "f64_mult (Inf s) (Inf t) = Inf (s \<noteq> t)"
| "f64_mult (Inf s) (Fin b) = (if b = 0 then NaN else Inf (s \<noteq> (b < 0)))"
| "f64_mult (Fin a) (Inf t) = (if a = 0 then NaN else Inf ((a < 0) \<noteq> t))"

text \<open>
  Division by a finite divisor that is not zero, which is all the program does (it divides by
  1000, by 100 and by an integer that is at least 1).
\<close>

fun f64_div_fin :: "float64 \<Rightarrow> rat \<Rightarrow> float64" where
  "f64_div_fin (Fin a) d = round_f64 (a / d)"
| "f64_div_fin NaN d = NaN"
| "f64_div_fin (Inf s) d = Inf (s \<noteq> (d < 0))"

text \<open>Comparison \<open><\<close> and \<open>==\<close>.\<close>

fun f64_less :: "float64 \<Rightarrow> float64 \<Rightarrow> bool" where
  "f64_less (Fin a) (Fin b) \<longleftrightarrow> a < b"
| "f64_less NaN _ \<longleftrightarrow> False"
| "f64_less _ NaN \<longleftrightarrow> False"
| "f64_less (Inf s) (Inf t) \<longleftrightarrow> s \<and> \<not> t"
| "f64_less (Inf s) (Fin b) \<longleftrightarrow> s"
| "f64_less (Fin a) (Inf t) \<longleftrightarrow> \<not> t"

fun f64_eq :: "float64 \<Rightarrow> float64 \<Rightarrow> bool" where
  "f64_eq NaN _ \<longleftrightarrow> False"
| "f64_eq x y \<longleftrightarrow> x = y"

text \<open>
  \<open>int64(f)\<close> and \<open>int(f)\<close>: truncation towards zero. Outside the range of int64 Go
  leaves the result to the implementation; amd64 returns the smallest int64.
\<close>

fun int64_of_f64 :: "float64 \<Rightarrow> int" where
  "int64_of_f64 (Fin a) =
     (let t = (if a < 0 then \<lceil>a\<rceil> else \<lfloor>a\<rfloor>)
      in if - (2 ^ 63) \<le> t \<and> t < 2 ^ 63 then t else - (2 ^ 63))"
| "int64_of_f64 _ = - (2 ^ 63)"

fun f64_ceil :: "float64 \<Rightarrow> float64" where
  "f64_ceil (Fin a) = Fin (of_int \<lceil>a\<rceil>)"
| "f64_ceil x = x"

subsection \<open>Powers of two\<close>

lemma pow2_pos [simp]: "0 < pow2 e"
  by (simp add: pow2_def)

lemma pow2_nonneg [simp]: "0 \<le> pow2 e"
  using pow2_pos[of e] by linarith

lemma pow2_neq_0 [simp]: "pow2 e \<noteq> 0"
  using pow2_pos[of e] by linarith

lemma pow2_powi: "pow2 e = 2 powi e"
  by (simp add: pow2_def power_int_def field_simps)

lemma pow2_add: "pow2 (a + b) = pow2 a * pow2 b"
  by (simp add: pow2_powi power_int_add)

lemma pow2_0 [simp]: "pow2 0 = 1"
  by (simp add: pow2_def)

lemma pow2_1 [simp]: "pow2 1 = 2"
  by (simp add: pow2_def)

lemma pow2_le_iff [simp]: "pow2 a \<le> pow2 b \<longleftrightarrow> a \<le> b"
  by (metis linorder_not_le pow2_powi power_int_increasing power_int_strict_increasing
      one_le_numeral one_less_numeral_iff semiring_norm(76))

lemma pow2_less_iff [simp]: "pow2 a < pow2 b \<longleftrightarrow> a < b"
  by (metis linorder_not_le pow2_le_iff)

lemma pow2_nat: "pow2 (int n) = 2 ^ n"
  by (simp add: pow2_def)

lemma pow2_diff: "pow2 a / pow2 b = pow2 (a - b)"
  using pow2_add[of "a - b" b] by (simp add: field_simps)

text \<open>A power of two is an integer multiple of every smaller one.\<close>

lemma pow2_multiple: "q \<le> e \<Longrightarrow> pow2 e / pow2 q = of_int (2 ^ nat (e - q))"
  using pow2_nat[of "nat (e - q)"] by (simp add: pow2_diff)

subsection \<open>Rounding to integers\<close>

lemma round_half_even_ge: "of_int n \<le> x \<Longrightarrow> n \<le> round_half_even x"
proof -
  assume "of_int n \<le> x"
  then have "n \<le> \<lfloor>x\<rfloor>" by (simp add: le_floor_iff)
  then show ?thesis by (auto simp: round_half_even_def Let_def)
qed

lemma round_half_even_le: "x \<le> of_int n \<Longrightarrow> round_half_even x \<le> n"
proof -
  assume le: "x \<le> of_int n"
  show ?thesis
  proof (cases "\<lfloor>x\<rfloor> < n")
    case True
    then show ?thesis by (auto simp: round_half_even_def Let_def)
  next
    case False
    with le have "x = of_int n" by (metis floor_less_iff order_le_less)
    then show ?thesis by (simp add: round_half_even_def)
  qed
qed

lemma round_half_even_int [simp]: "round_half_even (of_int n) = n"
  by (simp add: round_half_even_def)

subsection \<open>The exponent\<close>

lemma bitlen_pow2_bounds:
  assumes "0 < (n :: int)"
  shows "pow2 (bitlen n - 1) \<le> of_int n" "of_int n < pow2 (bitlen n)"
proof -
  have b: "2 ^ nat (bitlen n - 1) \<le> n" "n < 2 ^ nat (bitlen n)"
    using bitlen_bounds[OF assms] by auto
  have g: "0 < bitlen n"
    using assms bitlen_nonneg[of n] bitlen_eq_zero_iff[of n] by linarith
  have "(of_int (2 ^ nat (bitlen n - 1)) :: rat) \<le> of_int n"
    using b(1) by (simp only: of_int_le_iff)
  then show "pow2 (bitlen n - 1) \<le> of_int n"
    using g by (simp add: pow2_def)
  have "(of_int n :: rat) < of_int (2 ^ nat (bitlen n))"
    using b(2) by (simp only: of_int_less_iff)
  then show "of_int n < pow2 (bitlen n)"
    using g by (simp add: pow2_def)
qed

lemma exponent_of_bounds:
  assumes "0 < x"
  shows "pow2 (exponent_of x) \<le> x" "x < pow2 (exponent_of x + 1)"
proof -
  obtain n d where q: "quotient_of x = (n, d)" by (cases "quotient_of x")
  have x: "x = of_int n / of_int d" and d: "0 < d"
    using quotient_of_div[OF q] quotient_of_denom_pos[OF q] by auto
  have n: "0 < n" using assms x d by (simp add: zero_less_divide_iff)
  let ?e = "bitlen n - bitlen d"
  note bn = bitlen_pow2_bounds[OF n] and bd = bitlen_pow2_bounds[OF d]
  have up: "x < pow2 (?e + 1)"
  proof -
    have "of_int n < pow2 (?e + 1) * pow2 (bitlen d - 1)"
      using bn(2) by (simp add: pow2_add[symmetric])
    also have "\<dots> \<le> pow2 (?e + 1) * of_int d"
      using bd(1) by (intro mult_left_mono) auto
    finally show ?thesis using d by (simp add: x field_simps)
  qed
  have low: "pow2 (?e - 1) \<le> x"
  proof -
    have "pow2 (?e - 1) * of_int d \<le> pow2 (?e - 1) * pow2 (bitlen d)"
      using bd(2) by (intro mult_left_mono) auto
    also have "\<dots> \<le> of_int n"
      using bn(1) by (simp add: pow2_add[symmetric])
    finally show ?thesis using d by (simp add: x field_simps)
  qed
  have e: "exponent_of x = (if pow2 ?e \<le> x then ?e else ?e - 1)"
    by (simp add: exponent_of_def q)
  show "pow2 (exponent_of x) \<le> x" using low by (simp add: e)
  show "x < pow2 (exponent_of x + 1)" using up by (auto simp: e)
qed

subsection \<open>Representable values\<close>

definition rep_f64 :: "rat \<Rightarrow> bool" where
  "rep_f64 x \<longleftrightarrow> (\<exists>m k. x = of_int m * pow2 k \<and> \<bar>m\<bar> < 2 ^ 53 \<and> - 1074 \<le> k) \<and> \<bar>x\<bar> < pow2 1024"

lemma rep_exponent:
  assumes "x = of_int m * pow2 k" "\<bar>m\<bar> < 2 ^ 53" "pow2 e \<le> \<bar>x\<bar>"
  shows "e - 52 \<le> k"
proof -
  have "\<bar>of_int m :: rat\<bar> < 2 ^ 53"
    using assms(2) by (metis of_int_abs of_int_less_iff of_int_numeral of_int_power)
  then have "\<bar>x\<bar> < 2 ^ 53 * pow2 k"
    by (simp add: assms(1) abs_mult)
  also have "2 ^ 53 * pow2 k = pow2 (53 + k)"
    using pow2_nat[of 53] by (simp add: pow2_add)
  finally have "pow2 e < pow2 (53 + k)" using assms(3) by linarith
  then show ?thesis by simp
qed

text \<open>A representable number of the same binade is an integer multiple of the quantum.\<close>

lemma rep_multiple:
  assumes "rep_f64 y" "pow2 (exponent_of \<bar>x\<bar>) \<le> \<bar>y\<bar>"
  shows "\<exists>n. y / quantum_of x = of_int n"
proof -
  from assms(1) obtain m k where y: "y = of_int m * pow2 k" "\<bar>m\<bar> < 2 ^ 53" "- 1074 \<le> k"
    by (auto simp: rep_f64_def)
  let ?q = "max (exponent_of \<bar>x\<bar> - 52) (- 1074)"
  have "?q \<le> k" using rep_exponent[OF y(1,2) assms(2)] y(3) by simp
  then have "pow2 k / pow2 ?q = of_int (2 ^ nat (k - ?q))" by (rule pow2_multiple)
  then have "y / quantum_of x = of_int (m * 2 ^ nat (k - ?q))"
    by (simp add: y(1) quantum_of_def times_divide_eq_right[symmetric] del: times_divide_eq_right)
  then show ?thesis by blast
qed

lemma quantum_pos [simp]: "0 < quantum_of x"
  by (simp add: quantum_of_def)

text \<open>Representable values are fixed points of rounding.\<close>

lemma round_f64_exact: "rep_f64 x \<Longrightarrow> round_f64 x = Fin x"
proof (cases "x = 0")
  case False
  assume r: "rep_f64 x"
  have "pow2 (exponent_of \<bar>x\<bar>) \<le> \<bar>x\<bar>"
    using exponent_of_bounds(1)[of "\<bar>x\<bar>"] False by simp
  then obtain n where n: "x / quantum_of x = of_int n"
    using rep_multiple[OF r] by blast
  then have "of_int n * quantum_of x = x"
    using quantum_pos[of x] by (simp add: field_simps)
  then show ?thesis
    using False r by (auto simp: round_f64_def Let_def n rep_f64_def)
qed (simp add: round_f64_def)

lemma rep_f64_int: "\<bar>i\<bar> < 2 ^ 53 \<Longrightarrow> rep_f64 (of_int i)"
proof -
  assume i: "\<bar>i\<bar> < 2 ^ 53"
  have "\<bar>of_int i :: rat\<bar> < 2 ^ 53"
    using i by (metis of_int_abs of_int_less_iff of_int_numeral of_int_power)
  also have "(2 ^ 53 :: rat) = pow2 53"
    using pow2_nat[of 53] by simp
  also have "pow2 53 < pow2 1024" by simp
  finally have lt: "\<bar>of_int i :: rat\<bar> < pow2 1024" .
  have "of_int i = of_int i * pow2 0" by simp
  with i lt show ?thesis unfolding rep_f64_def by fastforce
qed

lemma float64_of_int_exact: "\<bar>i\<bar> < 2 ^ 53 \<Longrightarrow> float64_of_int i = Fin (of_int i)"
  by (simp add: float64_of_int_def round_f64_exact rep_f64_int)

lemma rep_f64_min:
  assumes "rep_f64 y" "0 < y"
  shows "pow2 (- 1074) \<le> y"
proof -
  from assms(1) obtain m k where y: "y = of_int m * pow2 k" "- 1074 \<le> k"
    by (auto simp: rep_f64_def)
  from assms(2) have "0 < m"
    using zero_less_mult_pos2[of "of_int m" "pow2 k"] by (simp add: y(1))
  have "pow2 (- 1074) \<le> 1 * pow2 k" using y(2) by simp
  also have "1 * pow2 k \<le> of_int m * pow2 k" using \<open>0 < m\<close> by (intro mult_right_mono) auto
  finally show ?thesis using y(1) by simp
qed

text \<open>Rounding never crosses a representable value from above \<dots>\<close>

lemma round_f64_ge:
  assumes "rep_f64 y" "0 < y" "y \<le> x"
  shows "round_f64 x = Inf False \<or> (\<exists>v. round_f64 x = Fin v \<and> y \<le> v)"
proof -
  have x: "0 < x" using assms by linarith
  define e where "e = exponent_of x"
  have eb: "pow2 e \<le> x" "x < pow2 (e + 1)"
    using exponent_of_bounds[OF x] by (auto simp: e_def)
  define q where "q = quantum_of x"
  have q: "0 < q" by (simp add: q_def)
  have "\<exists>n. y \<le> of_int n * q \<and> of_int n * q \<le> x"
  proof (cases "pow2 e \<le> y")
    case True
    then obtain n where "y / q = of_int n"
      using rep_multiple[OF assms(1), of x] assms(2) x by (auto simp: e_def q_def)
    then have "of_int n * q = y" using q by (simp add: field_simps)
    with assms(3) show ?thesis by (intro exI[of _ n]) simp
  next
    case False
    have "pow2 (- 1074) < pow2 (e + 1)" using rep_f64_min[OF assms(1,2)] assms(3) eb(2) by linarith
    then have qe: "q = pow2 (max (e - 52) (- 1074))" "max (e - 52) (- 1074) \<le> e"
      using x by (auto simp: q_def quantum_of_def e_def)
    then have "pow2 e / q = of_int (2 ^ nat (e - max (e - 52) (- 1074)))"
      by (simp add: pow2_multiple)
    then have "of_int (2 ^ nat (e - max (e - 52) (- 1074))) * q = pow2 e"
      using q by (simp add: field_simps)
    with False eb(1) show ?thesis by (metis less_eq_rat_def linorder_not_le)
  qed
  then obtain n where n: "y \<le> of_int n * q" "of_int n * q \<le> x" by blast
  have "of_int n \<le> x / q" using n(2) q by (simp add: field_simps)
  then have "n \<le> round_half_even (x / q)" by (rule round_half_even_ge)
  then have "of_int n * q \<le> of_int (round_half_even (x / q)) * q"
    using q by simp
  with n(1) have "y \<le> of_int (round_half_even (x / q)) * q" by linarith
  then show ?thesis
    using x by (auto simp: round_f64_def Let_def q_def)
qed

text \<open>Rounding never exceeds a representable value that is at least the argument.\<close>

lemma round_f64_le:
  assumes "rep_f64 y" "0 < x" "x \<le> y"
  shows "\<exists>v. round_f64 x = Fin v \<and> 0 \<le> v \<and> v \<le> y"
proof -
  define q where "q = quantum_of x"
  have q: "0 < q" by (simp add: q_def)
  have "pow2 (exponent_of \<bar>x\<bar>) \<le> \<bar>y\<bar>"
    using exponent_of_bounds(1)[of x] assms by simp
  then obtain n where n: "y / q = of_int n"
    using rep_multiple[OF assms(1)] by (auto simp: q_def)
  have "x / q \<le> of_int n" using n assms(3) q by (metis divide_right_mono less_imp_le)
  then have "round_half_even (x / q) \<le> n" by (rule round_half_even_le)
  then have "of_int (round_half_even (x / q)) * q \<le> of_int n * q" using q by simp
  also have "of_int n * q = y" using n q by (simp add: field_simps)
  finally have vy: "of_int (round_half_even (x / q)) * q \<le> y" .
  have "0 \<le> round_half_even (x / q)" using assms(2) q by (intro round_half_even_ge) simp
  then have v0: "0 \<le> of_int (round_half_even (x / q)) * q" using q by simp
  have "y < pow2 1024" using assms by (auto simp: rep_f64_def)
  then show ?thesis
    using assms(2) vy v0 by (auto simp: round_f64_def Let_def q_def)
qed

lemma round_f64_between:
  assumes "rep_f64 a" "rep_f64 b" "0 < a" "a \<le> x" "x \<le> b"
  shows "\<exists>v. round_f64 x = Fin v \<and> a \<le> v \<and> v \<le> b"
proof -
  obtain v where v: "round_f64 x = Fin v" "v \<le> b"
    using round_f64_le[OF assms(2) _ assms(5)] assms(3,4) by auto
  moreover have "a \<le> v"
    using round_f64_ge[OF assms(1,3,4)] v(1) by simp
  ultimately show ?thesis by blast
qed

lemma rep_f64_pow2: "0 \<le> e \<Longrightarrow> e < 1024 \<Longrightarrow> rep_f64 (pow2 e)"
  unfolding rep_f64_def by (intro conjI exI[of _ 1] exI[of _ e]) simp_all

subsection \<open>Rounding gives representable values\<close>

lemma quantum_minus [simp]: "quantum_of (- x) = quantum_of x"
  by (simp add: quantum_of_def)

lemma round_half_even_minus: "round_half_even (- x) = - round_half_even x"
proof (cases "x = of_int \<lfloor>x\<rfloor>")
  case True
  then show ?thesis using round_half_even_int[of "\<lfloor>x\<rfloor>"] round_half_even_int[of "- \<lfloor>x\<rfloor>"] by (metis of_int_minus)
next
  case False
  then have f: "\<lfloor>- x\<rfloor> = - \<lfloor>x\<rfloor> - 1" by (intro floor_unique) linarith+
  show ?thesis by (auto simp: round_half_even_def f Let_def)
qed

fun f64_neg :: "float64 \<Rightarrow> float64" where
  "f64_neg NaN = NaN"
| "f64_neg (Inf b) = Inf (\<not> b)"
| "f64_neg (Fin x) = Fin (- x)"

lemma round_f64_minus: "round_f64 (- x) = f64_neg (round_f64 x)"
  using round_half_even_minus[of "x / quantum_of x"] by (auto simp: round_f64_def Let_def)

text \<open>The values of Go's float64.\<close>

definition f64_ok :: "float64 \<Rightarrow> bool" where
  "f64_ok v \<longleftrightarrow> (case v of Fin x \<Rightarrow> rep_f64 x | _ \<Rightarrow> True)"

lemma scaled_bound:
  assumes "x \<noteq> 0"
  shows "\<bar>round_half_even (x / quantum_of x)\<bar> \<le> 2 ^ 53"
proof -
  define e where "e = exponent_of \<bar>x\<bar>"
  have "\<bar>x\<bar> < pow2 (e + 1)" using exponent_of_bounds(2)[of "\<bar>x\<bar>"] assms by (simp add: e_def)
  also have "pow2 (e + 1) \<le> pow2 (53 + max (e - 52) (- 1074))" by simp
  also have "\<dots> = 2 ^ 53 * quantum_of x" using pow2_nat[of 53] by (simp add: pow2_add quantum_of_def e_def)
  finally have "\<bar>x\<bar> \<le> 2 ^ 53 * quantum_of x" by simp
  then have "x / quantum_of x \<le> of_int (2 ^ 53)" "of_int (- (2 ^ 53)) \<le> x / quantum_of x"
    using quantum_pos[of x] by (simp_all add: abs_le_iff field_simps)
  then have "round_half_even (x / quantum_of x) \<le> 2 ^ 53" "- (2 ^ 53) \<le> round_half_even (x / quantum_of x)"
    using round_half_even_le round_half_even_ge by blast+
  then show ?thesis by linarith
qed

lemma rep_scaled:
  assumes "\<bar>r\<bar> \<le> 2 ^ 53" "- 1074 \<le> k" "\<bar>of_int r * pow2 k\<bar> < pow2 1024"
  shows "rep_f64 (of_int r * pow2 k)"
proof (cases "\<bar>r\<bar> < 2 ^ 53")
  case True
  then show ?thesis using assms unfolding rep_f64_def by blast
next
  case False
  then have r: "r = 2 ^ 53 * sgn r" using assms(1) by (auto simp: sgn_if abs_if split: if_splits)
  have "of_int r * pow2 k = of_int (sgn r) * pow2 (53 + k)"
    using pow2_nat[of 53] by (subst r) (simp add: pow2_add)
  moreover have "\<bar>sgn r\<bar> < 2 ^ 53" by (simp add: sgn_if)
  ultimately show ?thesis using assms(2,3) unfolding rep_f64_def by (metis add_increasing zero_le_numeral)
qed

lemma f64_ok_round [simp]: "f64_ok (round_f64 x)"
proof (cases "x = 0")
  case True
  then show ?thesis using rep_f64_int[of 0] by (simp add: round_f64_def f64_ok_def)
next
  case False
  from rep_scaled[OF scaled_bound[OF this], of "max (exponent_of \<bar>x\<bar> - 52) (- 1074)"] show ?thesis
    using False by (auto simp: round_f64_def f64_ok_def Let_def quantum_of_def not_le)
qed

lemma f64_ok_simps [simp]:
  "f64_ok NaN" "f64_ok (Inf b)" "f64_ok (Fin 0)" "f64_ok (Fin 1)" "f64_ok (Fin (- 1))"
  using rep_f64_int[of 0] rep_f64_int[of 1] rep_f64_int[of "- 1"] by (simp_all add: f64_ok_def)

lemma f64_ok_ops [simp]:
  "f64_ok (float64_of_int i)" "f64_ok (f64_div_fin v d)" "f64_ok (f64_mult v w)"
  by (simp_all add: float64_of_int_def) (cases v; cases w; simp)+

end
