(* ===== verification/Go_Strconv.thy ===== *)
theory Go_Strconv
  imports Go_Float
begin

text \<open>
  \<open>strconv.AppendFloat(_, f, 'g', -1, 64)\<close> and \<open>strconv.ParseFloat(s, 64)\<close> of Go 1.13.
  The shortest decimal is found by Go's digit loop: keep one more digit of the exact decimal
  expansion until the truncated or the incremented prefix reads back as the same float.
\<close>

subsection \<open>Shortest decimal digits\<close>

text \<open>
  The exact decimal expansion of a positive dyadic rational \<open>n / 2 ^ k\<close> is the integer
  \<open>n * 5 ^ k\<close> with \<open>k\<close> digits behind the point.
\<close>

definition frac_bits :: "rat \<Rightarrow> nat" where
  "frac_bits x = nat (bitlen (snd (quotient_of x)) - 1)"

definition exact_decimal :: "rat \<Rightarrow> int \<times> nat" where
  "exact_decimal x = (fst (quotient_of x) * 5 ^ frac_bits x, frac_bits x)"

definition reads_back :: "rat \<Rightarrow> int \<Rightarrow> nat \<Rightarrow> bool" where
  "reads_back x c k \<longleftrightarrow> round_f64 (of_int c / of_int (10 ^ k)) = Fin x"

text \<open>The last argument is the number of trailing digits of the exact decimal left out so far.\<close>

fun shortest_from :: "rat \<Rightarrow> int \<Rightarrow> nat \<Rightarrow> nat \<Rightarrow> int" where
  "shortest_from x n k 0 = n"
| "shortest_from x n k (Suc r) =
     (let p = 10 ^ Suc r; t = n div p; down = t * p; up = (t + 1) * p;
          okdown = reads_back x down k; okup = reads_back x up k
      in if okdown \<and> okup then
           (if 2 * (n - down) < p then down
            else if p < 2 * (n - down) then up
            else if even t then down else up)
         else if okdown then down
         else if okup then up
         else shortest_from x n k r)"

definition shortest_decimal :: "rat \<Rightarrow> int \<times> nat" where
  "shortest_decimal x =
     (let (n, k) = exact_decimal x
      in (shortest_from x n k (length (dec_digits n) - 1), k))"

definition trim_zeros :: "string \<Rightarrow> string" where
  "trim_zeros s = rev (dropWhile (\<lambda>c. c = CHR ''0'') (rev s))"

subsection \<open>Formatting with 'g'\<close>

definition fmtE :: "string \<Rightarrow> int \<Rightarrow> string" where
  "fmtE ds dp =
     [hd ds] @ (if length ds = 1 then [] else CHR ''.'' # tl ds) @
     (let e = dp - 1; m = dec_digits \<bar>e\<bar>
      in CHR ''e'' # (if e < 0 then CHR ''-'' else CHR ''+'') #
         (if length m < 2 then CHR ''0'' # m else m))"

definition fmtF :: "string \<Rightarrow> int \<Rightarrow> string" where
  "fmtF ds dp =
     (if 0 < dp
      then take (nat dp) ds @ replicate (nat dp - length ds) (CHR ''0'') @
           (if nat dp < length ds then CHR ''.'' # drop (nat dp) ds else [])
      else ''0.'' @ replicate (nat (- dp)) (CHR ''0'') @ ds)"

text \<open>\<open>%e\<close> is used when the exponent is less than -4 or at least 6 digits are before the
  point's position, the precision Go uses when it prints the shortest decimal.\<close>

definition format_g :: "rat \<Rightarrow> string" where
  "format_g x =
     (let (c, k) = shortest_decimal \<bar>x\<bar>; all = dec_digits c;
          ds = trim_zeros all; dp = int (length all) - int k
      in (if x < 0 then ''-'' else []) @
         (if dp - 1 < - 4 \<or> 6 \<le> dp - 1 then fmtE ds dp else fmtF ds dp))"

subsection \<open>ParseFloat\<close>

definition lower_is :: "char \<Rightarrow> char \<Rightarrow> bool" where
  "lower_is c l \<longleftrightarrow> lower_char c = l"

definition is_hex_letter :: "char \<Rightarrow> bool" where
  "is_hex_letter c \<longleftrightarrow> 97 \<le> (of_char (lower_char c) :: nat) \<and> (of_char (lower_char c) :: nat) \<le> 102"

definition hex_val :: "char \<Rightarrow> int" where
  "hex_val c = (if is_digit c then digit_val c else int (of_char (lower_char c)) - 87)"

text \<open>\<open>underscoreOK\<close>: the last character seen is a digit, an underscore or another one.\<close>

datatype saw = Saw_start | Saw_digit | Saw_underscore | Saw_other

fun underscore_scan :: "bool \<Rightarrow> saw \<Rightarrow> string \<Rightarrow> bool" where
  "underscore_scan hex saw [] \<longleftrightarrow> saw \<noteq> Saw_underscore"
| "underscore_scan hex saw (c # s) \<longleftrightarrow>
     (if is_digit c \<or> (hex \<and> is_hex_letter c) then underscore_scan hex Saw_digit s
      else if c = CHR ''_'' then saw = Saw_digit \<and> underscore_scan hex Saw_underscore s
      else saw \<noteq> Saw_underscore \<and> underscore_scan hex Saw_other s)"

definition strip_sign :: "string \<Rightarrow> string" where
  "strip_sign s = (if s \<noteq> [] \<and> (hd s = CHR ''-'' \<or> hd s = CHR ''+'') then tl s else s)"

fun underscoreOK :: "string \<Rightarrow> bool" where
  "underscoreOK s =
     (case strip_sign s of
        z # b # rest \<Rightarrow>
          (if z = CHR ''0'' \<and> (lower_is b (CHR ''b'') \<or> lower_is b (CHR ''o'') \<or> lower_is b (CHR ''x''))
           then underscore_scan (lower_is b (CHR ''x'')) Saw_digit rest
           else underscore_scan False Saw_start (z # b # rest))
      | t \<Rightarrow> underscore_scan False Saw_start t)"

text \<open>
  The mantissa loop of \<open>readFloat\<close>: the value of the digits read, the number of digits
  behind the point, whether a point and a digit were seen, whether an underscore was seen, and
  the rest of the input; a second point is a syntax error.
\<close>

record mantissa =
  mant :: int
  fracd :: nat
  sawdot :: bool
  sawdigits :: bool
  underscores :: bool

fun read_mantissa :: "bool \<Rightarrow> mantissa \<Rightarrow> string \<Rightarrow> (mantissa \<times> string) option" where
  "read_mantissa hex m [] = Some (m, [])"
| "read_mantissa hex m (c # s) =
     (if c = CHR ''_'' then read_mantissa hex (m\<lparr>underscores := True\<rparr>) s
      else if c = CHR ''.'' then
        (if sawdot m then None else read_mantissa hex (m\<lparr>sawdot := True\<rparr>) s)
      else if is_digit c \<or> (hex \<and> is_hex_letter c) then
        read_mantissa hex (m\<lparr>mant := (if hex then 16 else 10) * mant m + hex_val c,
                             fracd := (if sawdot m then Suc (fracd m) else fracd m),
                             sawdigits := True\<rparr>) s
      else Some (m, c # s))"

text \<open>The digits of the exponent, which stop counting once they pass 10000.\<close>

fun read_exp_digits :: "int \<Rightarrow> bool \<Rightarrow> string \<Rightarrow> int \<times> bool \<times> string" where
  "read_exp_digits e us [] = (e, us, [])"
| "read_exp_digits e us (c # s) =
     (if c = CHR ''_'' then read_exp_digits e True s
      else if is_digit c then
        read_exp_digits (if e < 10000 then 10 * e + digit_val c else e) us s
      else (e, us, c # s))"

text \<open>
  The optional exponent: the exponent, whether an underscore was seen, the rest. A
  hexadecimal number must have one.
\<close>

definition read_exponent :: "bool \<Rightarrow> string \<Rightarrow> (int \<times> bool \<times> string) option" where
  "read_exponent hex s =
     (if s \<noteq> [] \<and> lower_is (hd s) (if hex then CHR ''p'' else CHR ''e'') then
        (let neg = (tl s \<noteq> [] \<and> hd (tl s) = CHR ''-'');
             t = strip_sign (tl s)
         in if t = [] \<or> \<not> is_digit (hd t) then None
            else let (e, us, rest) = read_exp_digits 0 False t
                 in Some (if neg then - e else e, us, rest))
      else if hex then None
      else Some (0, False, s))"

definition pow10 :: "int \<Rightarrow> rat" where
  "pow10 e = (if 0 \<le> e then of_int (10 ^ nat e) else 1 / of_int (10 ^ nat (- e)))"

text \<open>The exact value of a well-formed number.\<close>

definition readFloat :: "string \<Rightarrow> rat option" where
  "readFloat s =
     (let neg = (s \<noteq> [] \<and> hd s = CHR ''-'');
          t = strip_sign s;
          hex = (2 < length t \<and> t ! 0 = CHR ''0'' \<and> lower_is (t ! 1) (CHR ''x''));
          body = (if hex then drop 2 t else t)
      in (case read_mantissa hex \<lparr>mant = 0, fracd = 0, sawdot = False, sawdigits = False,
                                  underscores = False\<rparr> body of
            None \<Rightarrow> None
          | Some (m, rest) \<Rightarrow>
              (if \<not> sawdigits m then None
               else (case read_exponent hex rest of
                       None \<Rightarrow> None
                     | Some (e, us, rest') \<Rightarrow>
                         (if rest' \<noteq> [] \<or> ((underscores m \<or> us) \<and> \<not> underscoreOK s) then None
                          else (let v = (if hex then of_int (mant m) * pow2 (e - 4 * int (fracd m))
                                         else of_int (mant m) * pow10 (e - int (fracd m)))
                                in Some (if neg then - v else v)))))))"

definition special_floats :: "(string \<times> float64) list" where
  "special_floats =
    [(''+inf'', Inf False), (''+infinity'', Inf False), (''-inf'', Inf True),
     (''-infinity'', Inf True), (''nan'', NaN), (''inf'', Inf False), (''infinity'', Inf False)]"

text \<open>\<open>None\<close> is a non-nil error: \<open>ErrSyntax\<close>, or \<open>ErrRange\<close> when the value overflows.\<close>

definition ParseFloat :: "string \<Rightarrow> float64 option" where
  "ParseFloat s =
     (case map_of special_floats (ToLower s) of
        Some f \<Rightarrow> Some f
      | None \<Rightarrow>
          (case readFloat s of
             None \<Rightarrow> None
           | Some x \<Rightarrow> (case round_f64 x of Fin v \<Rightarrow> Some (Fin v) | _ \<Rightarrow> None)))"

lemma ParseFloat_ok: "ParseFloat s = Some v \<Longrightarrow> f64_ok v"
proof -
  have "f64_ok v" if "map_of special_floats k = Some v" for k
    using map_of_SomeD[OF that] by (auto simp: special_floats_def)
  moreover have "f64_ok (Fin y)" if "round_f64 x = Fin y" for x y
    using f64_ok_round[of x] that by simp
  ultimately show "ParseFloat s = Some v \<Longrightarrow> f64_ok v"
    by (auto simp: ParseFloat_def split: option.splits float64.splits)
qed

end
