(* ===== verification/Metric.thy ===== *)
theory Metric
  imports Go_Strconv
begin

text \<open>
  \<open>pkg/metric\<close>: a metric (one time series), a family of metrics, and their text in the
  Prometheus exposition format. A \<open>strings.Builder\<close> is the string it has collected, so the
  functions that append to a builder return what they append.
\<close>

subsection \<open>Data (metric.go, family.go)\<close>

record Metric =
  LabelKeys :: "string list"
  LabelValues :: "string list"
  Value :: float64

type_synonym metric_type = string

definition Gauge :: metric_type where
  "Gauge = ''gauge''"

definition Counter :: metric_type where
  "Counter = ''counter''"

record Family =
  fam_Name :: string
  fam_Type :: metric_type
  Metrics :: "Metric list"

subsection \<open>Writing a metric\<close>

abbreviation newline :: char where
  "newline \<equiv> CHR 0x0A"

abbreviation backslash :: char where
  "backslash \<equiv> CHR 0x5C"

abbreviation quote :: char where
  "quote \<equiv> CHR 0x22"

fun escape_byte :: "char \<Rightarrow> string" where
  "escape_byte c =
     (if c = backslash then [backslash, backslash]
      else if c = newline then [backslash, CHR ''n'']
      else if c = quote then [backslash, quote]
      else [c])"

definition escapeString :: "string \<Rightarrow> string" where
  "escapeString v = concat (map escape_byte v)"

text \<open>The loop of \<open>labelsToString\<close>; \<open>values[i]\<close> is a slice access.\<close>

fun labels_loop :: "char \<Rightarrow> string list \<Rightarrow> string list \<Rightarrow> string go" where
  "labels_loop separator [] vs = Inr []"
| "labels_loop separator (k # ks) [] = Inl Index_out_of_range"
| "labels_loop separator (k # ks) (v # vs) =
     go_bind (labels_loop (CHR '','') ks vs)
       (\<lambda>rest. Inr (separator # k @ [CHR ''='', quote] @ escapeString v @ [quote] @ rest))"

definition labelsToString :: "string list \<Rightarrow> string list \<Rightarrow> string go" where
  "labelsToString keys values =
     (if 0 < length keys
      then go_bind (labels_loop (CHR ''{'') keys values) (\<lambda>s. Inr (s @ ''}''))
      else Inr [])"

definition writeFloat :: "float64 \<Rightarrow> string" where
  "writeFloat f =
     (if f64_eq f (Fin 1) then ''1''
      else if f64_eq f (Fin 0) then ''0''
      else if f64_eq f (Fin (- 1)) then ''-1''
      else case f of NaN \<Rightarrow> ''NaN'' | Inf False \<Rightarrow> ''+Inf'' | Inf True \<Rightarrow> ''-Inf''
                   | Fin x \<Rightarrow> format_g x)"

text \<open>\<open>Metric.Write\<close>; the text of the panic leaves out the two label lists it prints.\<close>

definition Write :: "Metric \<Rightarrow> string go" where
  "Write m =
     (if length (LabelKeys m) \<noteq> length (LabelValues m)
      then Inl (Panic_msg ''expected labelKeys to be of same length as labelValues'')
      else go_bind (labelsToString (LabelKeys m) (LabelValues m))
             (\<lambda>ls. Inr (ls @ '' '' @ writeFloat (Value m) @ [newline])))"

text \<open>\<open>Family.ByteSlice\<close>.\<close>

definition ByteSlice :: "Family \<Rightarrow> string go" where
  "ByteSlice f =
     go_bind (go_mapM (\<lambda>m. go_bind (Write m) (\<lambda>s. Inr (fam_Name f @ s))) (Metrics f))
       (\<lambda>lines. Inr (concat lines))"

definition Inspect :: "Family \<Rightarrow> (Family \<Rightarrow> 'a) \<Rightarrow> 'a" where
  "Inspect f inspect = inspect f"

subsection \<open>Well-formed metrics\<close>

text \<open>The contract between the generators and \<open>Write\<close>.\<close>

definition wf_metric :: "Metric \<Rightarrow> bool" where
  "wf_metric m \<longleftrightarrow> length (LabelKeys m) = length (LabelValues m)"

definition wf_metrics :: "Metric list \<Rightarrow> bool" where
  "wf_metrics ms \<longleftrightarrow> list_all wf_metric ms"

definition wf_family :: "Family \<Rightarrow> bool" where
  "wf_family f \<longleftrightarrow> wf_metrics (Metrics f)"

lemma wf_metrics_simps [simp]:
  "wf_metrics []" "wf_metrics (m # ms) \<longleftrightarrow> wf_metric m \<and> wf_metrics ms"
  "wf_metrics (ms @ ms') \<longleftrightarrow> wf_metrics ms \<and> wf_metrics ms'"
  by (auto simp: wf_metrics_def)

lemma wf_metrics_in: "wf_metrics ms \<Longrightarrow> m \<in> set ms \<Longrightarrow> wf_metric m"
  by (simp add: wf_metrics_def list_all_iff)

subsection \<open>Names of the data model\<close>

text \<open>
  The data model of the exposition format: a name of a metric or of a label consists of letters,
  digits and underscores and does not start with a digit (colons, which are reserved for recording
  rules, are left out). A family is valid when its metrics are well formed, all label names are names
  in this sense and all values are values of the type float64.
\<close>

definition name_char :: "char \<Rightarrow> bool" where
  "name_char c \<longleftrightarrow> byte_in c 97 122 \<or> byte_in c 65 90 \<or> byte_in c 48 57 \<or> c = CHR ''_''"

definition name_start :: "char \<Rightarrow> bool" where
  "name_start c \<longleftrightarrow> name_char c \<and> \<not> byte_in c 48 57"

fun valid_name :: "string \<Rightarrow> bool" where
  "valid_name [] = False"
| "valid_name (c # s) \<longleftrightarrow> name_start c \<and> list_all name_char s"

definition valid_metric :: "Metric \<Rightarrow> bool" where
  "valid_metric m \<longleftrightarrow> wf_metric m \<and> list_all valid_name (LabelKeys m) \<and> f64_ok (Value m)"

definition valid_metrics :: "Metric list \<Rightarrow> bool" where
  "valid_metrics ms \<longleftrightarrow> list_all valid_metric ms"

definition valid_family :: "Family \<Rightarrow> bool" where
  "valid_family f \<longleftrightarrow> valid_metrics (Metrics f)"

text \<open>The characters of the program's own label and metric names.\<close>

lemma name_char_lits [simp]:
  "name_char (CHR ''a'')" "name_char (CHR ''b'')" "name_char (CHR ''c'')" "name_char (CHR ''d'')"
  "name_char (CHR ''e'')" "name_char (CHR ''f'')" "name_char (CHR ''g'')" "name_char (CHR ''h'')"
  "name_char (CHR ''i'')" "name_char (CHR ''j'')" "name_char (CHR ''k'')" "name_char (CHR ''l'')"
  "name_char (CHR ''m'')" "name_char (CHR ''n'')" "name_char (CHR ''o'')" "name_char (CHR ''p'')"
  "name_char (CHR ''q'')" "name_char (CHR ''r'')" "name_char (CHR ''s'')" "name_char (CHR ''t'')"
  "name_char (CHR ''u'')" "name_char (CHR ''v'')" "name_char (CHR ''w'')" "name_char (CHR ''x'')"
  "name_char (CHR ''y'')" "name_char (CHR ''z'')" "name_char (CHR ''_'')" "name_char (CHR ''0'')"
  "name_char (CHR ''1'')" "name_char (CHR ''2'')" "name_char (CHR ''3'')" "name_char (CHR ''4'')"
  "name_char (CHR ''5'')" "name_char (CHR ''6'')" "name_char (CHR ''7'')" "name_char (CHR ''8'')"
  "name_char (CHR ''9'')"
  "name_char (CHR ''A'')" "name_char (CHR ''B'')" "name_char (CHR ''C'')" "name_char (CHR ''D'')"
  "name_char (CHR ''E'')" "name_char (CHR ''F'')" "name_char (CHR ''G'')" "name_char (CHR ''H'')"
  "name_char (CHR ''I'')" "name_char (CHR ''J'')" "name_char (CHR ''K'')" "name_char (CHR ''L'')"
  "name_char (CHR ''M'')" "name_char (CHR ''N'')" "name_char (CHR ''O'')" "name_char (CHR ''P'')"
  "name_char (CHR ''Q'')" "name_char (CHR ''R'')" "name_char (CHR ''S'')" "name_char (CHR ''T'')"
  "name_char (CHR ''U'')" "name_char (CHR ''V'')" "name_char (CHR ''W'')" "name_char (CHR ''X'')"
  "name_char (CHR ''Y'')" "name_char (CHR ''Z'')"
  by code_simp+

lemma name_start_lits [simp]:
  "name_start (CHR ''a'')" "name_start (CHR ''b'')" "name_start (CHR ''c'')" "name_start (CHR ''d'')"
  "name_start (CHR ''e'')" "name_start (CHR ''f'')" "name_start (CHR ''g'')" "name_start (CHR ''h'')"
  "name_start (CHR ''i'')" "name_start (CHR ''j'')" "name_start (CHR ''k'')" "name_start (CHR ''l'')"
  "name_start (CHR ''m'')" "name_start (CHR ''n'')" "name_start (CHR ''o'')" "name_start (CHR ''p'')"
  "name_start (CHR ''q'')" "name_start (CHR ''r'')" "name_start (CHR ''s'')" "name_start (CHR ''t'')"
  "name_start (CHR ''u'')" "name_start (CHR ''v'')" "name_start (CHR ''w'')" "name_start (CHR ''x'')"
  "name_start (CHR ''y'')" "name_start (CHR ''z'')" "name_start (CHR ''_'')"
  "name_start (CHR ''A'')" "name_start (CHR ''B'')" "name_start (CHR ''C'')" "name_start (CHR ''D'')"
  "name_start (CHR ''E'')" "name_start (CHR ''F'')" "name_start (CHR ''G'')" "name_start (CHR ''H'')"
  "name_start (CHR ''I'')" "name_start (CHR ''J'')" "name_start (CHR ''K'')" "name_start (CHR ''L'')"
  "name_start (CHR ''M'')" "name_start (CHR ''N'')" "name_start (CHR ''O'')" "name_start (CHR ''P'')"
  "name_start (CHR ''Q'')" "name_start (CHR ''R'')" "name_start (CHR ''S'')" "name_start (CHR ''T'')"
  "name_start (CHR ''U'')" "name_start (CHR ''V'')" "name_start (CHR ''W'')" "name_start (CHR ''X'')"
  "name_start (CHR ''Y'')" "name_start (CHR ''Z'')"
  by code_simp+

lemma valid_name_chars: "valid_name n \<Longrightarrow> list_all name_char n"
  by (cases n) (auto simp: name_start_def)

lemma valid_family_wf: "valid_family f \<Longrightarrow> wf_family f"
  by (auto simp: valid_family_def valid_metrics_def valid_metric_def wf_family_def wf_metrics_def list_all_iff)

lemma valid_metrics_simps [simp]:
  "valid_metrics []" "valid_metrics (m # ms) \<longleftrightarrow> valid_metric m \<and> valid_metrics ms"
  "valid_metrics (ms @ ms') \<longleftrightarrow> valid_metrics ms \<and> valid_metrics ms'"
  by (auto simp: valid_metrics_def)

lemma valid_metrics_in: "valid_metrics ms \<Longrightarrow> m \<in> set ms \<Longrightarrow> valid_metric m"
  by (simp add: valid_metrics_def list_all_iff)

subsection \<open>The text of well-formed metrics\<close>

text \<open>The text of the labels once the lengths agree.\<close>

definition label_text :: "char \<Rightarrow> string \<times> string \<Rightarrow> string" where
  "label_text separator = (\<lambda>(k, v). separator # k @ [CHR ''='', quote] @ escapeString v @ [quote])"

fun labels_text :: "(string \<times> string) list \<Rightarrow> string" where
  "labels_text [] = []"
| "labels_text (kv # kvs) =
     label_text (CHR ''{'') kv @ concat (map (label_text (CHR '','')) kvs) @ ''}''"

lemma labels_loop_text:
  "length ks = length vs \<Longrightarrow>
   labels_loop (CHR '','') ks vs = Inr (concat (map (label_text (CHR '','')) (zip ks vs)))"
  by (induction ks vs rule: list_induct2) (auto simp: label_text_def)

lemma labelsToString_text:
  "length ks = length vs \<Longrightarrow> labelsToString ks vs = Inr (labels_text (zip ks vs))"
  by (cases ks; cases vs) (auto simp: labelsToString_def labels_loop_text label_text_def)

definition sample_text :: "Metric \<Rightarrow> string" where
  "sample_text m = labels_text (zip (LabelKeys m) (LabelValues m)) @ '' '' @ writeFloat (Value m) @ [newline]"

lemma Write_wf: "wf_metric m \<Longrightarrow> Write m = Inr (sample_text m)"
  by (simp add: Write_def wf_metric_def labelsToString_text sample_text_def)

lemma Write_returns_iff: "returns (Write m) \<longleftrightarrow> wf_metric m"
proof (cases "wf_metric m")
  case False
  then show ?thesis by (simp add: Write_def wf_metric_def)
qed (simp add: Write_wf)

lemma ByteSlice_wf:
  assumes "wf_family f"
  shows "ByteSlice f = Inr (concat (map (\<lambda>m. fam_Name f @ sample_text m) (Metrics f)))"
proof -
  have "go_mapM (\<lambda>m. go_bind (Write m) (\<lambda>s. Inr (fam_Name f @ s))) (Metrics f) =
        Inr (map (\<lambda>m. fam_Name f @ sample_text m) (Metrics f))"
    using assms by (intro go_mapM_total) (auto simp: wf_family_def Write_wf dest: wf_metrics_in)
  then show ?thesis by (simp add: ByteSlice_def)
qed

lemma ByteSlice_returns_iff: "returns (ByteSlice f) \<longleftrightarrow> wf_family f"
proof
  assume "returns (ByteSlice f)"
  then obtain ls where "go_mapM (\<lambda>m. go_bind (Write m) (\<lambda>s. Inr (fam_Name f @ s))) (Metrics f) = Inr ls"
    by (auto simp: ByteSlice_def returns_iff go_bind_Inr_iff)
  then have "wf_metric m" if "m \<in> set (Metrics f)" for m
    using that Write_returns_iff[of m]
    by (fastforce simp: go_mapM_Inr_iff list_all2_conv_all_nth in_set_conv_nth go_bind_Inr_iff)
  then show "wf_family f" by (simp add: wf_family_def wf_metrics_def list_all_iff)
qed (simp add: ByteSlice_wf)

subsection \<open>Properties\<close>

text \<open>
  \<open>Family.ByteSlice\<close> panics exactly when one of the family's metrics has a different number of
  label keys and label values.
\<close>

lemma ByteSlice_panics_iff:
  "isl (ByteSlice f) \<longleftrightarrow> (\<exists>m \<in> set (Metrics f). length (LabelKeys m) \<noteq> length (LabelValues m))"
  using ByteSlice_returns_iff[of f] by (auto simp: wf_family_def wf_metrics_def list_all_iff wf_metric_def)

end
