(* ===== verification/Generator.thy ===== *)
theory Generator
  imports Metric
begin

text \<open>
  \<open>pkg/metric_generator\<close>: a family generator pairs the name, help text and type of a metric
  family with the function that computes the family's metrics from an object. Objects are of a
  type \<open>'o\<close> here; the stores instantiate it with the Kubernetes objects.
\<close>

record 'o FamilyGenerator =
  gen_Name :: string
  gen_Help :: string
  gen_Type :: metric_type
  GenerateFunc :: "'o \<Rightarrow> Family go"

definition Generate :: "'o FamilyGenerator \<Rightarrow> 'o \<Rightarrow> Family go" where
  "Generate g obj =
     go_bind (GenerateFunc g obj)
       (\<lambda>family. Inr (family\<lparr>fam_Name := gen_Name g, fam_Type := gen_Type g\<rparr>))"

definition generateHeader :: "'o FamilyGenerator \<Rightarrow> string" where
  "generateHeader g =
     ''# HELP '' @ gen_Name g @ '' '' @ gen_Help g @ [newline] @
     ''# TYPE '' @ gen_Name g @ '' '' @ gen_Type g"

definition ExtractMetricFamilyHeaders :: "'o FamilyGenerator list \<Rightarrow> string list" where
  "ExtractMetricFamilyHeaders families = map generateHeader families"

definition ComposeMetricGenFuncs :: "'o FamilyGenerator list \<Rightarrow> 'o \<Rightarrow> Family list go" where
  "ComposeMetricGenFuncs familyGens obj = go_mapM (\<lambda>gen. Generate gen obj) familyGens"

text \<open>The filter asks the allow- and denylist only whether a name is included.\<close>

fun FilterMetricFamilies ::
  "(string \<Rightarrow> bool) \<Rightarrow> 'o FamilyGenerator list \<Rightarrow> 'o FamilyGenerator list" where
  "FilterMetricFamilies isIncluded [] = []"
| "FilterMetricFamilies isIncluded (f # fs) =
     (if isIncluded (gen_Name f) then f # FilterMetricFamilies isIncluded fs
      else FilterMetricFamilies isIncluded fs)"

subsection \<open>Lemmas\<close>

lemma FilterMetricFamilies_filter:
  "FilterMetricFamilies p fs = filter (\<lambda>f. p (gen_Name f)) fs"
  by (induction fs) auto

lemma length_headers [simp]: "length (ExtractMetricFamilyHeaders fs) = length fs"
  by (simp add: ExtractMetricFamilyHeaders_def)

lemma Compose_length: "ComposeMetricGenFuncs fs obj = Inr fams \<Longrightarrow> length fams = length fs"
  by (auto simp: ComposeMetricGenFuncs_def dest: go_mapM_length)

text \<open>The family at position \<open>i\<close> carries the name and type of generator \<open>i\<close>.\<close>

lemma Compose_nth_name:
  assumes "ComposeMetricGenFuncs fs obj = Inr fams" "i < length fs"
  shows "fam_Name (fams ! i) = gen_Name (fs ! i) \<and> fam_Type (fams ! i) = gen_Type (fs ! i)"
proof -
  have "Generate (fs ! i) obj = Inr (fams ! i)"
    using go_mapM_nth[OF assms(1)[unfolded ComposeMetricGenFuncs_def] assms(2)] .
  then obtain f where f: "f\<lparr>fam_Name := gen_Name (fs ! i), fam_Type := gen_Type (fs ! i)\<rparr> = fams ! i"
    by (auto simp: Generate_def go_bind_Inr_iff)
  show ?thesis by (simp add: f[symmetric])
qed

text \<open>
  What the exposition format asks of a header: the name of the metric is a name, the help text has
  no line break and no backslash, which would start an escape sequence, and the type is known.
\<close>

definition header_ok :: "string \<Rightarrow> string \<Rightarrow> metric_type \<Rightarrow> bool" where
  "header_ok n h t \<longleftrightarrow> valid_name n \<and> newline \<notin> set h \<and> backslash \<notin> set h \<and> (t = Gauge \<or> t = Counter)"

text \<open>
  A generator is sound for an object when it returns a valid family: then neither
  generation nor printing panics.
\<close>

definition gen_sound :: "'o FamilyGenerator \<Rightarrow> 'o \<Rightarrow> bool" where
  "gen_sound g obj \<longleftrightarrow> (\<exists>f. GenerateFunc g obj = Inr f \<and> valid_family f)"

lemma gen_soundI: "GenerateFunc g obj = Inr f \<Longrightarrow> valid_family f \<Longrightarrow> gen_sound g obj"
  by (auto simp: gen_sound_def)

lemma gen_sound_Generate:
  assumes "gen_sound g obj"
  shows "\<exists>f. Generate g obj = Inr f \<and> valid_family f \<and> fam_Name f = gen_Name g"
proof -
  from assms obtain f where f: "GenerateFunc g obj = Inr f" "valid_family f"
    by (auto simp: gen_sound_def)
  let ?f = "f\<lparr>fam_Name := gen_Name g, fam_Type := gen_Type g\<rparr>"
  have "Generate g obj = Inr ?f" "valid_family ?f" "fam_Name ?f = gen_Name g"
    using f by (simp_all add: Generate_def valid_family_def)
  then show ?thesis by blast
qed

lemma Compose_sound:
  assumes "list_all (\<lambda>g. gen_sound g obj) fs"
  shows "\<exists>fams. ComposeMetricGenFuncs fs obj = Inr fams \<and> list_all valid_family fams"
proof -
  have sound: "gen_sound g obj" if "g \<in> set fs" for g
    using assms that by (simp add: list_all_iff)
  have "\<exists>fams. go_mapM (\<lambda>g. Generate g obj) fs = Inr fams"
  proof (rule go_mapM_returns)
    fix g assume "g \<in> set fs"
    from gen_sound_Generate[OF sound[OF this]] show "\<exists>f. Generate g obj = Inr f" by blast
  qed
  then obtain fams where fams: "go_mapM (\<lambda>g. Generate g obj) fs = Inr fams" by blast
  have "valid_family f" if f: "f \<in> set fams" for f
  proof -
    obtain g where "g \<in> set fs" "Generate g obj = Inr f"
      using go_mapM_set[OF fams f] by blast
    with gen_sound_Generate[OF sound] show ?thesis by fastforce
  qed
  with fams show ?thesis by (simp add: ComposeMetricGenFuncs_def list_all_iff)
qed

lemma Compose_returns_iff:
  "returns (ComposeMetricGenFuncs fs obj) \<longleftrightarrow> list_all (\<lambda>g. returns (GenerateFunc g obj)) fs"
  by (auto simp: ComposeMetricGenFuncs_def go_mapM_isl Generate_def go_bind_isl list_all_iff)

subsection \<open>Properties\<close>

text \<open>
  C22. Headers and families stay aligned: the composed generator yields one family per header, in the
  same order, the \<open>i\<close>-th family carries the name and type that the \<open>i\<close>-th header announces, and
  filtering removes the header and the family of an excluded name together.
\<close>

theorem Compose_aligned_with_headers:
  assumes "ComposeMetricGenFuncs (FilterMetricFamilies p gens) obj = Inr fams"
  shows "length fams = length (ExtractMetricFamilyHeaders (FilterMetricFamilies p gens)) \<and>
    (\<forall>i < length fams.
       let g = FilterMetricFamilies p gens ! i in
       p (gen_Name g) \<and> g \<in> set gens \<and> fam_Name (fams ! i) = gen_Name g \<and> fam_Type (fams ! i) = gen_Type g \<and>
       ExtractMetricFamilyHeaders (FilterMetricFamilies p gens) ! i =
         ''# HELP '' @ fam_Name (fams ! i) @ '' '' @ gen_Help g @ [newline] @
         ''# TYPE '' @ fam_Name (fams ! i) @ '' '' @ fam_Type (fams ! i))"
proof -
  have len: "length fams = length (FilterMetricFamilies p gens)" using Compose_length[OF assms] .
  have mem: "FilterMetricFamilies p gens ! i \<in> set gens \<and> p (gen_Name (FilterMetricFamilies p gens ! i))"
    if "i < length fams" for i
    using nth_mem[of i "FilterMetricFamilies p gens"] that len by (simp add: FilterMetricFamilies_filter)
  show ?thesis
    using len mem Compose_nth_name[OF assms]
    by (simp add: Let_def ExtractMetricFamilyHeaders_def generateHeader_def)
qed

definition demo_gens :: "nat FamilyGenerator list" where
  "demo_gens = map (\<lambda>n. \<lparr>gen_Name = n, gen_Help = ''h'', gen_Type = Gauge,
     GenerateFunc = (\<lambda>x. Inr \<lparr>fam_Name = [], fam_Type = [], Metrics = []\<rparr>)\<rparr>) [''a'', ''b'']"

theorem Compose_aligned_with_headers_witness:
  "ExtractMetricFamilyHeaders (FilterMetricFamilies (\<lambda>n. n = ''b'') demo_gens) ! 0 =
   ''# HELP b h'' @ [newline] @ ''# TYPE b gauge''"
  using Compose_aligned_with_headers[of "\<lambda>n. n = ''b''" demo_gens 0
      "[\<lparr>fam_Name = ''b'', fam_Type = Gauge, Metrics = []\<rparr>]"]
  by (simp add: demo_gens_def ComposeMetricGenFuncs_def Generate_def Gauge_def)

end
