(* ===== verification/K8s_Meta.thy ===== *)
theory K8s_Meta
  imports Go_Float
begin

text \<open>
  The vendored Kubernetes API machinery the stores compute with: timestamps, object metadata and
  owner references, quantities (\<open>api/resource\<close>) and int-or-percent values
  (\<open>util/intstr\<close>). Signed 64-bit arithmetic is written out with \<open>wrap64\<close>.
\<close>

subsection \<open>64-bit arithmetic\<close>

definition wrap64 :: "int \<Rightarrow> int" where
  "wrap64 x = (x + 2 ^ 63) mod 2 ^ 64 - 2 ^ 63"

definition wrap32 :: "int \<Rightarrow> int" where
  "wrap32 x = (x + 2 ^ 31) mod 2 ^ 32 - 2 ^ 31"

definition int64_ok :: "int \<Rightarrow> bool" where
  "int64_ok x \<longleftrightarrow> - (2 ^ 63) \<le> x \<and> x < 2 ^ 63"

text \<open>Go's integer division and remainder truncate towards zero.\<close>

definition go_div :: "int \<Rightarrow> int \<Rightarrow> int" where
  "go_div a b = (if (0 \<le> a) = (0 \<le> b) then \<bar>a\<bar> div \<bar>b\<bar> else - (\<bar>a\<bar> div \<bar>b\<bar>))"

definition go_mod :: "int \<Rightarrow> int \<Rightarrow> int" where
  "go_mod a b = a - b * go_div a b"

lemma wrap64_range [simp]: "int64_ok (wrap64 x)"
  by (simp add: wrap64_def int64_ok_def)

lemma wrap64_id [simp]: "int64_ok x \<Longrightarrow> wrap64 x = x"
  by (simp add: wrap64_def int64_ok_def)

lemma wrap64_eq_iff: "wrap64 x = x \<longleftrightarrow> int64_ok x"
  by (metis wrap64_id wrap64_range)

lemma wrap32_id: "- (2 ^ 31) \<le> x \<Longrightarrow> x < 2 ^ 31 \<Longrightarrow> wrap32 x = x"
  by (simp add: wrap32_def)

lemma wrap32_range: "- (2 ^ 31) \<le> wrap32 x \<and> wrap32 x < 2 ^ 31"
  by (simp add: wrap32_def)

subsection \<open>Timestamps (metav1.Time, metav1.MicroTime)\<close>

text \<open>A \<open>time.Time\<close> is its Unix second and the nanosecond within it.\<close>

record Time =
  unix_sec :: int
  nsec :: int

definition Unix :: "Time \<Rightarrow> int" where
  "Unix t = unix_sec t"

text \<open>The zero time is January 1, year 1, 00:00:00 UTC.\<close>

definition IsZero :: "Time \<Rightarrow> bool" where
  "IsZero t \<longleftrightarrow> unix_sec t = - 62135596800 \<and> nsec t = 0"

definition zero_time :: Time where
  "zero_time = \<lparr>unix_sec = - 62135596800, nsec = 0\<rparr>"

fun IsZero_ptr :: "Time option \<Rightarrow> bool" where
  "IsZero_ptr None \<longleftrightarrow> True"
| "IsZero_ptr (Some t) \<longleftrightarrow> IsZero t"

lemma IsZero_zero_time [simp]: "IsZero zero_time"
  by (simp add: IsZero_def zero_time_def)

subsection \<open>Object metadata\<close>

record OwnerReference =
  or_APIVersion :: string
  or_Kind :: string
  or_Name :: string
  or_Controller :: "bool option"

record ObjectMeta =
  Name :: string
  Namespace :: string
  UID :: string
  ResourceVersion :: string
  Generation :: int
  CreationTimestamp :: Time
  DeletionTimestamp :: "Time option"
  Labels :: "(string, string) gomap"
  Annotations :: "(string, string) gomap"
  OwnerReferences :: "OwnerReference list"

definition empty_meta :: ObjectMeta where
  "empty_meta = \<lparr>Name = [], Namespace = [], UID = [], ResourceVersion = [], Generation = 0,
     CreationTimestamp = zero_time, DeletionTimestamp = None, Labels = [], Annotations = [],
     OwnerReferences = []\<rparr>"

definition GetControllerOf :: "ObjectMeta \<Rightarrow> OwnerReference option" where
  "GetControllerOf m = find (\<lambda>r. or_Controller r = Some True) (OwnerReferences m)"

definition NamespaceAll :: string where
  "NamespaceAll = []"

subsection \<open>Quantities (api/resource)\<close>

text \<open>
  \<open>Int64Amount value scale\<close> is \<open>value * 10 ^ scale\<close>, the form of a quantity whose
  \<open>d.Dec\<close> is nil; \<open>InfDec unscaled scale\<close> is \<open>unscaled * 10 ^ (- scale)\<close>.
\<close>

datatype Quantity = Int64Amount int int | InfDec int int

type_synonym ResourceList = "(string, Quantity) gomap"

definition int64MultiplyScale :: "int \<Rightarrow> int \<Rightarrow> int \<times> bool" where
  "int64MultiplyScale a b =
     (if a = 0 \<or> a = 1 then (wrap64 (a * b), True)
      else if a = - (2 ^ 63) \<and> b \<noteq> 1 then (0, False)
      else let c = wrap64 (a * b) in (c, go_div c b = a))"

definition int64MultiplyScale10 :: "int \<Rightarrow> int \<times> bool" where
  "int64MultiplyScale10 a =
     (if a = 0 \<or> a = 1 then (wrap64 (a * 10), True)
      else if a = - (2 ^ 63) then (0, False)
      else let c = wrap64 (a * 10) in (c, go_div c 10 = a))"

definition int64MultiplyScale100 :: "int \<Rightarrow> int \<times> bool" where
  "int64MultiplyScale100 a =
     (if a = 0 \<or> a = 1 then (wrap64 (a * 100), True)
      else if a = - (2 ^ 63) then (0, False)
      else let c = wrap64 (a * 100) in (c, go_div c 100 = a))"

definition int64MultiplyScale1000 :: "int \<Rightarrow> int \<times> bool" where
  "int64MultiplyScale1000 a =
     (if a = 0 \<or> a = 1 then (wrap64 (a * 1000), True)
      else if a = - (2 ^ 63) then (0, False)
      else let c = wrap64 (a * 1000) in (c, go_div c 1000 = a))"

fun scale10_loop :: "nat \<Rightarrow> int \<Rightarrow> int \<times> bool" where
  "scale10_loop 0 v = (v, True)"
| "scale10_loop (Suc n) v =
     (case int64MultiplyScale v 10 of (v', ok) \<Rightarrow> if ok then scale10_loop n v' else (0, False))"

definition positiveScaleInt64 :: "int \<Rightarrow> int \<Rightarrow> int \<times> bool" where
  "positiveScaleInt64 base scale =
     (if scale = 0 then (base, True)
      else if scale = 1 then int64MultiplyScale10 base
      else if scale = 2 then int64MultiplyScale100 base
      else if scale = 3 then int64MultiplyScale1000 base
      else if scale = 6 then int64MultiplyScale base 1000000
      else if scale = 9 then int64MultiplyScale base 1000000000
      else scale10_loop (nat scale) base)"

text \<open>The loop of \<open>negativeScaleInt64\<close>: the remaining rounds, the value and the fraction flag.\<close>

fun negative_loop :: "int \<Rightarrow> nat \<Rightarrow> int \<Rightarrow> bool \<Rightarrow> int" where
  "negative_loop base 0 v fraction =
     (if fraction then (if 0 < base then v + 1 else v - 1) else v)"
| "negative_loop base (Suc n) v fraction =
     (let fraction' = (fraction \<or> go_mod v 10 \<noteq> 0); v' = go_div v 10
      in if v' = 0 then (if fraction' then (if 0 < base then 1 else - 1) else 0)
         else negative_loop base n v' fraction')"

definition negativeScaleInt64 :: "int \<Rightarrow> int \<Rightarrow> int" where
  "negativeScaleInt64 base scale = (if scale = 0 then base else negative_loop base (nat scale) base False)"

definition AsScaledInt64 :: "int \<Rightarrow> int \<Rightarrow> int \<Rightarrow> int" where
  "AsScaledInt64 v s scale =
     (if s < scale then negativeScaleInt64 v (scale - s) else fst (positiveScaleInt64 v (s - scale)))"

text \<open>\<open>scaledValue\<close> for big decimals; \<open>big.Int.Int64\<close> keeps the low 64 bits.\<close>

definition pow10_int64 :: "nat \<Rightarrow> int" where
  "pow10_int64 n = int64_of_f64 (round_f64 (10 ^ n))"

definition scaledValue :: "int \<Rightarrow> int \<Rightarrow> int \<Rightarrow> int" where
  "scaledValue unscaled scale newScale =
     (let dif = scale - newScale in
      if dif = 0 then wrap64 unscaled
      else if dif < 0 then wrap64 (wrap64 unscaled * pow10_int64 (nat (- dif)))
      else if unscaled < 2 ^ 63 - 1 \<and> dif < 19 then
        (let divide = pow10_int64 (nat dif); u = wrap64 unscaled; result = go_div u divide
         in if go_mod u divide \<noteq> 0 then wrap64 (result + 1) else result)
      else
        (let divisor = 10 ^ nat dif; result = unscaled div divisor
         in if unscaled mod divisor \<noteq> 0 then wrap64 (wrap64 result + 1) else wrap64 result))"

fun ScaledValue :: "Quantity \<Rightarrow> int \<Rightarrow> int" where
  "ScaledValue (Int64Amount v s) scale = AsScaledInt64 v s scale"
| "ScaledValue (InfDec u s) scale = scaledValue u s (- scale)"

definition Quantity_Value :: "Quantity \<Rightarrow> int" where
  "Quantity_Value q = ScaledValue q 0"

definition MilliValue :: "Quantity \<Rightarrow> int" where
  "MilliValue q = ScaledValue q (- 3)"

fun AsInt64 :: "Quantity \<Rightarrow> int \<times> bool" where
  "AsInt64 (InfDec u s) = (0, False)"
| "AsInt64 (Int64Amount v s) =
     (if s = 0 then (v, True) else if s < 0 then (0, False) else positiveScaleInt64 v s)"

definition zero_quantity :: Quantity where
  "zero_quantity = Int64Amount 0 0"

subsection \<open>Int-or-percent values (util/intstr)\<close>

record IntOrString =
  ios_Type :: int
  IntVal :: int
  StrVal :: string

definition IntValue :: "IntOrString \<Rightarrow> int" where
  "IntValue x = (if ios_Type x = 1 then (case Atoi (StrVal x) of Some i \<Rightarrow> i | None \<Rightarrow> 0) else IntVal x)"

definition IntOrString_String :: "IntOrString \<Rightarrow> string" where
  "IntOrString_String x = (if ios_Type x = 1 then StrVal x else Itoa (IntValue x))"

text \<open>\<open>Inl msg\<close> is an error; the flag says whether the value is a percentage.\<close>

definition getIntOrPercentValue :: "IntOrString \<Rightarrow> string + (int \<times> bool)" where
  "getIntOrPercentValue x =
     (if ios_Type x = 0 then Inr (IntValue x, False)
      else if ios_Type x = 1 then
        (case Atoi (Remove_char (CHR ''%'') (StrVal x)) of
           None \<Rightarrow> Inl ''invalid value''
         | Some v \<Rightarrow> Inr (v, True))
      else Inl ''invalid type: neither int nor percentage'')"

text \<open>The call with \<open>roundUp\<close> set, which is the only one the program makes.\<close>

definition GetValueFromIntOrPercent :: "IntOrString option \<Rightarrow> int \<Rightarrow> string + int" where
  "GetValueFromIntOrPercent p tot =
     (case p of
        None \<Rightarrow> Inl ''nil value for IntOrString''
      | Some x \<Rightarrow>
          (case getIntOrPercentValue x of
             Inl e \<Rightarrow> Inl (''invalid value for IntOrString: '' @ e)
           | Inr (v, isPercent) \<Rightarrow>
               Inr (if isPercent
                    then int64_of_f64 (f64_ceil (f64_div_fin
                           (f64_mult (float64_of_int v) (float64_of_int tot)) 100))
                    else v)))"

subsection \<open>Scaling rounds away from zero\<close>

text \<open>Division of an integer, rounded away from zero.\<close>

definition div_away :: "int \<Rightarrow> int \<Rightarrow> int" where
  "div_away a b = sgn a * ((\<bar>a\<bar> + b - 1) div b)"

lemma go_div_minus: "0 < b \<Longrightarrow> go_div (- a) b = - go_div a b"
  by (auto simp: go_div_def)

lemma go_mod_minus: "0 < b \<Longrightarrow> go_mod (- a) b = - go_mod a b"
  by (auto simp: go_mod_def go_div_def)

lemma negative_loop_minus: "0 < b \<Longrightarrow> negative_loop (- b) n (- v) fr = - negative_loop b n v fr"
  by (induction n arbitrary: v fr) (auto simp: go_div_minus go_mod_minus Let_def)

lemma div_away_nonneg: "0 \<le> a \<Longrightarrow> 0 < b \<Longrightarrow> div_away a b = a div b + (if a mod b = 0 then 0 else 1)"
proof -
  assume a: "0 \<le> a" and b: "0 < b"
  have "(a + b - 1) div b = a div b + (if a mod b = 0 then 0 else 1)"
  proof (cases "a mod b = 0")
    case True
    then obtain q where "a = b * q" by auto
    moreover have "(b * q + b - 1) div b = q" using b by (intro div_pos_neg_trivial int_div_pos_eq[of _ _ q "b - 1"]) auto
    ultimately show ?thesis using b by auto
  next
    case False
    have "a + b - 1 = b * (a div b + 1) + (a mod b - 1)" by (simp add: algebra_simps)
    moreover have "0 \<le> a mod b - 1" "a mod b - 1 < b" using False b pos_mod_sign[of b a] pos_mod_bound[of b a] by linarith+
    ultimately show ?thesis using False by (metis int_div_pos_eq)
  qed
  then show ?thesis using a by (cases "a = 0") (auto simp: div_away_def sgn_if)
qed

lemma negative_loop_nonneg:
  assumes "0 < b"
  shows "negative_loop b n (b div 10 ^ i) (b mod 10 ^ i \<noteq> 0) = div_away b (10 ^ (i + n))"
proof (induction n arbitrary: i)
  case 0
  then show ?case using assms by (simp add: div_away_nonneg)
next
  case (Suc n)
  let ?v = "b div 10 ^ i"
  have "0 \<le> ?v" using assms by (simp add: pos_imp_zdiv_nonneg_iff)
  then have d: "go_div ?v 10 = b div 10 ^ Suc i" "go_mod ?v 10 = ?v mod 10"
    by (simp_all add: go_div_def go_mod_def zdiv_zmult2_eq mult.commute[of 10] minus_mult_div_eq_mod minus_div_mult_eq_mod)
  have split: "b mod 10 ^ Suc i = 10 ^ i * (?v mod 10) + b mod 10 ^ i"
    by (simp add: zmod_zmult2_eq mult.commute[of 10])
  have "0 \<le> b mod 10 ^ i" "0 \<le> ?v mod 10" by simp_all
  then have fr: "(b mod 10 ^ i \<noteq> 0 \<or> ?v mod 10 \<noteq> 0) = (b mod 10 ^ Suc i \<noteq> 0)"
    unfolding split by (auto simp: add_nonneg_eq_0_iff)
  show ?case
  proof (cases "b div 10 ^ Suc i = 0")
    case True
    then have "b < 10 ^ Suc i" using assms by (simp add: zdiv_eq_0_iff split: if_splits)
    moreover have "(10 :: int) ^ Suc i \<le> 10 ^ (i + Suc n)" by (intro power_increasing) simp_all
    ultimately have "b < 10 ^ (i + Suc n)" by (rule less_le_trans)
    moreover have "b mod 10 ^ Suc i = b" using \<open>b < 10 ^ Suc i\<close> assms by (intro mod_pos_pos_trivial) simp_all
    moreover note True
    ultimately show ?thesis
      using d fr assms by (simp add: Let_def div_away_nonneg del: power_Suc)
  next
    case False
    then show ?thesis using Suc[of "Suc i"] d fr by (simp add: Let_def del: power_Suc)
  qed
qed

lemma negativeScaleInt64_rounds: "0 \<le> k \<Longrightarrow> negativeScaleInt64 b k = div_away b (10 ^ nat k)"
proof -
  assume k: "0 \<le> k"
  consider "b = 0" | "0 < b" | "b < 0" by linarith
  then show ?thesis
  proof cases
    case 1
    have "negative_loop 0 n 0 False = 0" for n by (cases n) (simp_all add: Let_def go_div_def go_mod_def)
    then show ?thesis using 1 by (simp add: negativeScaleInt64_def div_away_def)
  next
    case 2
    then show ?thesis
      using negative_loop_nonneg[of b "nat k" 0] k by (cases "k = 0") (auto simp: negativeScaleInt64_def div_away_def)
  next
    case 3
    then show ?thesis
      using negative_loop_nonneg[of "- b" "nat k" 0] negative_loop_minus[of "- b" "nat k" "- b" False] k
      by (cases "k = 0") (auto simp: negativeScaleInt64_def div_away_def sgn_if)
  qed
qed

lemma go_div_mult: "b \<noteq> 0 \<Longrightarrow> go_div (a * b) b = a"
  by (cases "a = 0") (auto simp: go_div_def abs_mult zero_le_mult_iff)

lemma int64MultiplyScale_fits:
  assumes "int64_ok (a * b)" "1 < b"
  shows "int64MultiplyScale a b = (a * b, True)"
proof -
  have "a \<noteq> - (2 ^ 63)" using assms by (auto simp: int64_ok_def)
  then show ?thesis using assms go_div_mult[of b a] by (auto simp: int64MultiplyScale_def Let_def)
qed

lemma int64MultiplyScale_small:
  "int64MultiplyScale10 a = int64MultiplyScale a 10" "int64MultiplyScale100 a = int64MultiplyScale a 100"
  "int64MultiplyScale1000 a = int64MultiplyScale a 1000"
  by (simp_all add: int64MultiplyScale_def int64MultiplyScale10_def int64MultiplyScale100_def int64MultiplyScale1000_def)

lemma int64_ok_prefix:
  assumes "int64_ok (a * 10 ^ n)" "m \<le> n"
  shows "int64_ok (a * 10 ^ m)"
proof -
  have "(10 :: int) ^ m \<le> 10 ^ n" using assms(2) by (intro power_increasing) simp_all
  then have "\<bar>a\<bar> * 10 ^ m \<le> \<bar>a\<bar> * 10 ^ n" by (intro mult_left_mono) simp_all
  moreover have "0 \<le> \<bar>a\<bar> * (10 :: int) ^ m" by simp
  ultimately show ?thesis
    using assms(1) unfolding int64_ok_def by (cases "0 \<le> a") (simp_all only: abs_of_nonneg abs_of_neg not_le mult_minus_left, linarith+)
qed

lemma scale10_loop_fits: "int64_ok (a * 10 ^ n) \<Longrightarrow> scale10_loop n a = (a * 10 ^ n, True)"
proof (induction n arbitrary: a)
  case (Suc n)
  have "int64MultiplyScale a 10 = (a * 10, True)"
    using int64_ok_prefix[OF Suc.prems, of 1] by (intro int64MultiplyScale_fits) simp_all
  moreover have "scale10_loop n (a * 10) = (a * 10 * 10 ^ n, True)"
    using Suc.prems by (intro Suc.IH) (simp add: mult.assoc)
  ultimately show ?case by (simp add: mult.assoc)
qed simp

lemma positiveScaleInt64_fits:
  assumes "0 \<le> k" "int64_ok (a * 10 ^ nat k)"
  shows "positiveScaleInt64 a k = (a * 10 ^ nat k, True)"
proof -
  have "int64MultiplyScale a (10 ^ n) = (a * 10 ^ n, True)" if "n = nat k" "0 < n" for n
    using assms(2) that by (intro int64MultiplyScale_fits one_less_power) simp_all
  from this[of 1] this[of 2] this[of 3] this[of 6] this[of 9] show ?thesis
    using assms scale10_loop_fits[of a "nat k"] by (auto simp: positiveScaleInt64_def int64MultiplyScale_small)
qed



end
