(* ===== verification/K8s_Core.thy ===== *)
theory K8s_Core
  imports K8s_Meta
begin

text \<open>
  The Kubernetes API types the stores read (vendored \<open>k8s.io/api\<close>), one record per Go
  struct with the fields the program reads. A pointer field is an \<open>option\<close>; a map field is an
  association list. The condition structs of the different resources have the same three fields
  here and share one record. \<open>kobject\<close> is the \<open>interface{}\<close> value that reaches a store:
  a pointer to one of these structs, to some other API struct with metadata, or to a struct
  without metadata such as \<open>metav1.Status\<close>.
\<close>

record Condition =
  cond_Type :: string
  cond_Status :: string
  LastTransitionTime :: Time

subsection \<open>core/v1\<close>

record ContainerStateWaiting =
  waiting_Reason :: string

record ContainerStateRunning =
  StartedAt :: Time

record ContainerStateTerminated =
  terminated_Reason :: string
  FinishedAt :: Time

record ContainerState =
  Waiting :: "ContainerStateWaiting option"
  Running :: "ContainerStateRunning option"
  Terminated :: "ContainerStateTerminated option"

record ContainerStatus =
  cs_Name :: string
  State :: ContainerState
  LastTerminationState :: ContainerState
  Ready :: bool
  RestartCount :: int
  cs_Image :: string
  ImageID :: string
  ContainerID :: string

record ResourceRequirements =
  rr_Limits :: ResourceList
  Requests :: ResourceList

record Container =
  c_Name :: string
  c_Resources :: ResourceRequirements

record PersistentVolumeClaimVolumeSource =
  ClaimName :: string
  ReadOnly :: bool

record Volume =
  vol_Name :: string
  vol_PersistentVolumeClaim :: "PersistentVolumeClaimVolumeSource option"

record PodSpec =
  Volumes :: "Volume list"
  InitContainers :: "Container list"
  Containers :: "Container list"
  RestartPolicy :: string
  ps_NodeName :: string
  PriorityClassName :: string
  Overhead :: ResourceList

record PodStatus =
  pod_Phase :: string
  pod_Conditions :: "Condition list"
  pod_Reason :: string
  HostIP :: string
  PodIP :: string
  pod_StartTime :: "Time option"
  InitContainerStatuses :: "ContainerStatus list"
  ContainerStatuses :: "ContainerStatus list"

record Pod =
  pod_ObjectMeta :: ObjectMeta
  pod_Spec :: PodSpec
  pod_Status :: PodStatus

record Taint =
  taint_Key :: string
  taint_Value :: string
  Effect :: string

record NodeSystemInfo =
  KernelVersion :: string
  OSImage :: string
  ContainerRuntimeVersion :: string
  KubeletVersion :: string
  KubeProxyVersion :: string

record NodeSpec =
  PodCIDR :: string
  ProviderID :: string
  Unschedulable :: bool
  Taints :: "Taint list"

record NodeStatus =
  node_Capacity :: ResourceList
  Allocatable :: ResourceList
  node_Conditions :: "Condition list"
  NodeInfo :: NodeSystemInfo

record Node =
  node_ObjectMeta :: ObjectMeta
  node_Spec :: NodeSpec
  node_Status :: NodeStatus

record ConfigMap =
  cm_ObjectMeta :: ObjectMeta

record Secret =
  secret_ObjectMeta :: ObjectMeta
  secret_Type :: string

record LoadBalancerIngress =
  lbi_IP :: string
  Hostname :: string

record ServiceSpec =
  ClusterIP :: string
  svc_Type :: string
  ExternalIPs :: "string list"
  LoadBalancerIP :: string
  ExternalName :: string

record Service =
  svc_ObjectMeta :: ObjectMeta
  svc_Spec :: ServiceSpec
  LoadBalancer_Ingress :: "LoadBalancerIngress list"

record EndpointSubset =
  Addresses :: "string list"
  NotReadyAddresses :: "string list"
  Ports :: "int list"

record Endpoints =
  ep_ObjectMeta :: ObjectMeta
  Subsets :: "EndpointSubset list"

record Namespace_t =
  ns_ObjectMeta :: ObjectMeta
  ns_Phase :: string
  ns_Conditions :: "Condition list"

record LimitRangeItem =
  lri_Type :: string
  lri_Max :: ResourceList
  lri_Min :: ResourceList
  lri_Default :: ResourceList
  DefaultRequest :: ResourceList
  MaxLimitRequestRatio :: ResourceList

record LimitRange =
  lr_ObjectMeta :: ObjectMeta
  lr_Limits :: "LimitRangeItem list"

record ResourceQuota =
  rq_ObjectMeta :: ObjectMeta
  Hard :: ResourceList
  Used :: ResourceList

record PersistentVolume =
  pv_ObjectMeta :: ObjectMeta
  pv_Capacity :: ResourceList
  pv_StorageClassName :: string
  pv_Phase :: string

record PersistentVolumeClaim =
  pvc_ObjectMeta :: ObjectMeta
  AccessModes :: "string list"
  pvc_Resources :: ResourceRequirements
  VolumeName :: string
  pvc_StorageClassName :: "string option"
  pvc_Phase :: string
  pvc_Conditions :: "Condition list"

record ReplicationController =
  rc_ObjectMeta :: ObjectMeta
  rc_Spec_Replicas :: "int option"
  rc_Replicas :: int
  rc_FullyLabeledReplicas :: int
  rc_ReadyReplicas :: int
  rc_AvailableReplicas :: int
  rc_ObservedGeneration :: int

subsection \<open>apps/v1\<close>

record RollingUpdateDeployment =
  MaxUnavailable :: "IntOrString option"
  MaxSurge :: "IntOrString option"

record DeploymentSpec =
  dep_Spec_Replicas :: "int option"
  RollingUpdate :: "RollingUpdateDeployment option"
  Paused :: bool

record DeploymentStatus =
  dep_ObservedGeneration :: int
  dep_Replicas :: int
  dep_UpdatedReplicas :: int
  dep_AvailableReplicas :: int
  UnavailableReplicas :: int
  dep_Conditions :: "Condition list"

record Deployment =
  dep_ObjectMeta :: ObjectMeta
  dep_Spec :: DeploymentSpec
  dep_Status :: DeploymentStatus

record DaemonSetStatus =
  CurrentNumberScheduled :: int
  NumberMisscheduled :: int
  DesiredNumberScheduled :: int
  NumberReady :: int
  UpdatedNumberScheduled :: int
  NumberAvailable :: int
  NumberUnavailable :: int

record DaemonSet =
  ds_ObjectMeta :: ObjectMeta
  ds_Status :: DaemonSetStatus

record ReplicaSet =
  rs_ObjectMeta :: ObjectMeta
  rs_Spec_Replicas :: "int option"
  rs_Replicas :: int
  rs_FullyLabeledReplicas :: int
  rs_ReadyReplicas :: int
  rs_ObservedGeneration :: int

record StatefulSetStatus =
  sts_ObservedGeneration :: int
  sts_Replicas :: int
  sts_ReadyReplicas :: int
  CurrentReplicas :: int
  sts_UpdatedReplicas :: int
  CurrentRevision :: string
  UpdateRevision :: string

record StatefulSet =
  sts_ObjectMeta :: ObjectMeta
  sts_Spec_Replicas :: "int option"
  sts_Status :: StatefulSetStatus

subsection \<open>batch\<close>

record JobSpec =
  Parallelism :: "int option"
  Completions :: "int option"
  ActiveDeadlineSeconds :: "int option"

record JobStatus =
  job_Conditions :: "Condition list"
  job_StartTime :: "Time option"
  CompletionTime :: "Time option"
  Active :: int
  Succeeded :: int
  Failed :: int

record Job =
  job_ObjectMeta :: ObjectMeta
  job_Spec :: JobSpec
  job_Status :: JobStatus

record CronJobSpec =
  Schedule :: string
  StartingDeadlineSeconds :: "int option"
  ConcurrencyPolicy :: string
  Suspend :: "bool option"

record CronJobStatus =
  cj_Active :: "string list"
  LastScheduleTime :: "Time option"

record CronJob =
  cj_ObjectMeta :: ObjectMeta
  cj_Spec :: CronJobSpec
  cj_Status :: CronJobStatus

end
