(* ===== verification/K8s_Objects.thy ===== *)
theory K8s_Objects
  imports K8s_Core
begin

text \<open>
  The API types of the remaining groups, and the values of type \<open>interface{}\<close> that the
  clients deliver.
\<close>

subsection \<open>autoscaling\<close>

record ObjectMetricSource =
  oms_MetricName :: string
  oms_TargetValue :: Quantity
  oms_AverageValue :: "Quantity option"

record PodsMetricSource =
  pms_MetricName :: string
  pms_TargetAverageValue :: Quantity

record ResourceMetricSource =
  rms_Name :: string
  TargetAverageUtilization :: "int option"
  rms_TargetAverageValue :: "Quantity option"

record ExternalMetricSource =
  ems_MetricName :: string
  ems_TargetValue :: "Quantity option"
  ems_TargetAverageValue :: "Quantity option"

record MetricSpec =
  ms_Type :: string
  ms_Object :: "ObjectMetricSource option"
  ms_Pods :: "PodsMetricSource option"
  ms_Resource :: "ResourceMetricSource option"
  ms_External :: "ExternalMetricSource option"

record HorizontalPodAutoscaler =
  hpa_ObjectMeta :: ObjectMeta
  MinReplicas :: "int option"
  MaxReplicas :: int
  hpa_Metrics :: "MetricSpec list"
  hpa_CurrentReplicas :: int
  DesiredReplicas :: int
  hpa_Conditions :: "Condition list"

record CrossVersionObjectReference =
  tr_Kind :: string
  tr_Name :: string
  tr_APIVersion :: string

record PodUpdatePolicy =
  UpdateMode :: "string option"

record ContainerResourcePolicy =
  crp_ContainerName :: string
  MinAllowed :: ResourceList
  MaxAllowed :: ResourceList

record RecommendedContainerResources =
  rcr_ContainerName :: string
  Target :: ResourceList
  LowerBound :: ResourceList
  UpperBound :: ResourceList
  UncappedTarget :: ResourceList

text \<open>
  A nil \<open>ResourcePolicy\<close> or \<open>Recommendation\<close> is \<open>None\<close>; its list of containers is a
  slice, whose nil value is the empty list.
\<close>

record VerticalPodAutoscaler =
  vpa_ObjectMeta :: ObjectMeta
  TargetRef :: "CrossVersionObjectReference option"
  UpdatePolicy :: "PodUpdatePolicy option"
  ResourcePolicy :: "ContainerResourcePolicy list option"
  Recommendation :: "RecommendedContainerResources list option"

subsection \<open>The other groups\<close>

record CertificateSigningRequest =
  csr_ObjectMeta :: ObjectMeta
  csr_Conditions :: "string list"
  Certificate :: string

record HTTPIngressPath =
  ip_Path :: string
  ServiceName :: string
  ServicePort :: IntOrString

record IngressRule =
  Host :: string
  HTTP :: "HTTPIngressPath list option"

record IngressTLS =
  Hosts :: "string list"
  SecretName :: string

record Ingress =
  ing_ObjectMeta :: ObjectMeta
  ing_TLS :: "IngressTLS list"
  Rules :: "IngressRule list"

record Lease =
  lease_ObjectMeta :: ObjectMeta
  RenewTime :: "Time option"

record MutatingWebhookConfiguration =
  mwc_ObjectMeta :: ObjectMeta

record ValidatingWebhookConfiguration =
  vwc_ObjectMeta :: ObjectMeta

text \<open>The rules of a network policy are only counted; a rule is a placeholder.\<close>

record NetworkPolicy =
  np_ObjectMeta :: ObjectMeta
  np_Ingress :: "unit list"
  np_Egress :: "unit list"

record PodDisruptionBudget =
  pdb_ObjectMeta :: ObjectMeta
  pdb_ObservedGeneration :: int
  PodDisruptionsAllowed :: int
  CurrentHealthy :: int
  DesiredHealthy :: int
  ExpectedPods :: int

record StorageClass =
  sc_ObjectMeta :: ObjectMeta
  Provisioner :: string
  ReclaimPolicy :: "string option"
  VolumeBindingMode :: "string option"

record VolumeAttachment =
  va_ObjectMeta :: ObjectMeta
  Attacher :: string
  PersistentVolumeName :: "string option"
  va_NodeName :: string
  Attached :: bool
  AttachmentMetadata :: "(string, string) gomap"

subsection \<open>Go types\<close>

text \<open>A pointer type is named by the import path of its package and the name of the struct.\<close>

datatype gotype = Ptr_to string string

fun type_String :: "gotype \<Rightarrow> string" where
  "type_String (Ptr_to path name) = ''*'' @ last (Split (CHR ''/'') path) @ ''.'' @ name"

subsection \<open>Objects\<close>

datatype kobject =
    Pod_obj Pod
  | Node_obj Node
  | ConfigMap_obj ConfigMap
  | Secret_obj Secret
  | Service_obj Service
  | Endpoints_obj Endpoints
  | Namespace_obj Namespace_t
  | LimitRange_obj LimitRange
  | ResourceQuota_obj ResourceQuota
  | PersistentVolume_obj PersistentVolume
  | PersistentVolumeClaim_obj PersistentVolumeClaim
  | ReplicationController_obj ReplicationController
  | Deployment_obj Deployment
  | DaemonSet_obj DaemonSet
  | ReplicaSet_obj ReplicaSet
  | StatefulSet_obj StatefulSet
  | Job_obj Job
  | CronJob_obj CronJob
  | HorizontalPodAutoscaler_obj HorizontalPodAutoscaler
  | VerticalPodAutoscaler_obj VerticalPodAutoscaler
  | CertificateSigningRequest_obj CertificateSigningRequest
  | Ingress_obj Ingress
  | Lease_obj Lease
  | MutatingWebhookConfiguration_v1beta1_obj MutatingWebhookConfiguration
  | ValidatingWebhookConfiguration_obj ValidatingWebhookConfiguration
  | NetworkPolicy_obj NetworkPolicy
  | PodDisruptionBudget_obj PodDisruptionBudget
  | StorageClass_obj StorageClass
  | VolumeAttachment_v1beta1_obj VolumeAttachment
  | Other_obj gotype ObjectMeta
  | Status_obj string

text \<open>\<open>meta.Accessor\<close>: the metadata of an object, or an error for an object that has none.\<close>

fun Accessor :: "kobject \<Rightarrow> ObjectMeta option" where
  "Accessor (Pod_obj x) = Some (pod_ObjectMeta x)"
| "Accessor (Node_obj x) = Some (node_ObjectMeta x)"
| "Accessor (ConfigMap_obj x) = Some (cm_ObjectMeta x)"
| "Accessor (Secret_obj x) = Some (secret_ObjectMeta x)"
| "Accessor (Service_obj x) = Some (svc_ObjectMeta x)"
| "Accessor (Endpoints_obj x) = Some (ep_ObjectMeta x)"
| "Accessor (Namespace_obj x) = Some (ns_ObjectMeta x)"
| "Accessor (LimitRange_obj x) = Some (lr_ObjectMeta x)"
| "Accessor (ResourceQuota_obj x) = Some (rq_ObjectMeta x)"
| "Accessor (PersistentVolume_obj x) = Some (pv_ObjectMeta x)"
| "Accessor (PersistentVolumeClaim_obj x) = Some (pvc_ObjectMeta x)"
| "Accessor (ReplicationController_obj x) = Some (rc_ObjectMeta x)"
| "Accessor (Deployment_obj x) = Some (dep_ObjectMeta x)"
| "Accessor (DaemonSet_obj x) = Some (ds_ObjectMeta x)"
| "Accessor (ReplicaSet_obj x) = Some (rs_ObjectMeta x)"
| "Accessor (StatefulSet_obj x) = Some (sts_ObjectMeta x)"
| "Accessor (Job_obj x) = Some (job_ObjectMeta x)"
| "Accessor (CronJob_obj x) = Some (cj_ObjectMeta x)"
| "Accessor (HorizontalPodAutoscaler_obj x) = Some (hpa_ObjectMeta x)"
| "Accessor (VerticalPodAutoscaler_obj x) = Some (vpa_ObjectMeta x)"
| "Accessor (CertificateSigningRequest_obj x) = Some (csr_ObjectMeta x)"
| "Accessor (Ingress_obj x) = Some (ing_ObjectMeta x)"
| "Accessor (Lease_obj x) = Some (lease_ObjectMeta x)"
| "Accessor (MutatingWebhookConfiguration_v1beta1_obj x) = Some (mwc_ObjectMeta x)"
| "Accessor (ValidatingWebhookConfiguration_obj x) = Some (vwc_ObjectMeta x)"
| "Accessor (NetworkPolicy_obj x) = Some (np_ObjectMeta x)"
| "Accessor (PodDisruptionBudget_obj x) = Some (pdb_ObjectMeta x)"
| "Accessor (StorageClass_obj x) = Some (sc_ObjectMeta x)"
| "Accessor (VolumeAttachment_v1beta1_obj x) = Some (va_ObjectMeta x)"
| "Accessor (Other_obj t m) = Some m"
| "Accessor (Status_obj s) = None"

end
