(* ===== verification/Store_Utils.thy ===== *)
theory Store_Utils
  imports Generator K8s_Objects
begin

text \<open>
  \<open>internal/store/utils.go\<close> and \<open>pkg/constant\<close>, the vendored name validation they call,
  and what every resource store shares: how a wrapper puts the default labels in front of a
  metric's own labels, and the interface \<open>resource_families\<close> that each resource's list of
  family generators satisfies.
\<close>

subsection \<open>Units (pkg/constant)\<close>

definition UnitByte :: string where
  "UnitByte = ''byte''"

definition UnitCore :: string where
  "UnitCore = ''core''"

definition UnitInteger :: string where
  "UnitInteger = ''integer''"

subsection \<open>Literals of Go's metric.Metric and metric.Family\<close>

abbreviation metric :: "string list \<Rightarrow> string list \<Rightarrow> float64 \<Rightarrow> Metric" where
  "metric ks vs v \<equiv> \<lparr>LabelKeys = ks, LabelValues = vs, Value = v\<rparr>"

abbreviation family :: "Metric list \<Rightarrow> Family" where
  "family ms \<equiv> \<lparr>fam_Name = [], fam_Type = [], Metrics = ms\<rparr>"

subsection \<open>utils.go\<close>

definition conditionStatuses :: "string list" where
  "conditionStatuses = [''True'', ''False'', ''Unknown'']"

definition resourceVersionMetric :: "string \<Rightarrow> Metric list" where
  "resourceVersionMetric rv = (case ParseFloat rv of None \<Rightarrow> [] | Some v \<Rightarrow> [metric [] [] v])"

definition boolFloat64 :: "bool \<Rightarrow> float64" where
  "boolFloat64 b = (if b then Fin 1 else Fin 0)"

definition addConditionMetrics :: "string \<Rightarrow> Metric list" where
  "addConditionMetrics cs =
     map (\<lambda>status. metric [] [ToLower status] (boolFloat64 (cs = status))) conditionStatuses"

definition label_char :: "char \<Rightarrow> bool" where
  "label_char c \<longleftrightarrow> byte_in c 97 122 \<or> byte_in c 65 90 \<or> byte_in c 48 57 \<or> c = CHR ''_''"

text \<open>
  \<open>ReplaceAllString\<close> works rune by rune: a multi-byte character gives one underscore, and so
  does every byte that is not valid UTF-8.
\<close>

function sanitizeLabelName :: "string \<Rightarrow> string" where
  "sanitizeLabelName [] = []"
| "sanitizeLabelName (c # s) =
     (if label_char c then c # sanitizeLabelName s
      else CHR ''_'' # sanitizeLabelName (drop (rune_width (c # s)) (c # s)))"
  by pat_completeness auto
termination
  by (relation "measure length") (simp_all del: diff_Suc_Suc rune_width.simps)

definition mapToPrometheusLabels :: "(string, string) gomap \<Rightarrow> string \<Rightarrow> string list \<times> string list" where
  "mapToPrometheusLabels labels pre =
     (let labelKeys = sort (map fst labels)
      in (map (\<lambda>k. pre @ ''_'' @ sanitizeLabelName k) labelKeys,
          map (\<lambda>k. the (map_of labels k)) labelKeys))"

definition kubeLabelsToPrometheusLabels :: "(string, string) gomap \<Rightarrow> string list \<times> string list" where
  "kubeLabelsToPrometheusLabels labels = mapToPrometheusLabels labels ''label''"

definition isHugePageResourceName :: "string \<Rightarrow> bool" where
  "isHugePageResourceName name \<longleftrightarrow> HasPrefix name ''hugepages-''"

definition isAttachableVolumeResourceName :: "string \<Rightarrow> bool" where
  "isAttachableVolumeResourceName name \<longleftrightarrow> HasPrefix name ''attachable-volumes-''"

definition isPrefixedNativeResource :: "string \<Rightarrow> bool" where
  "isPrefixedNativeResource name \<longleftrightarrow> Contains name ''kubernetes.io/''"

definition isNativeResource :: "string \<Rightarrow> bool" where
  "isNativeResource name \<longleftrightarrow> \<not> Contains name ''/'' \<or> isPrefixedNativeResource name"

subsection \<open>Name validation (apimachinery util/validation)\<close>

definition alnum_lower :: "char \<Rightarrow> bool" where
  "alnum_lower c \<longleftrightarrow> byte_in c 97 122 \<or> byte_in c 48 57"

definition alnum :: "char \<Rightarrow> bool" where
  "alnum c \<longleftrightarrow> alnum_lower c \<or> byte_in c 65 90"

text \<open>\<open>[a-z0-9]([-a-z0-9]*[a-z0-9])?\<close>\<close>

definition dns1123Label :: "string \<Rightarrow> bool" where
  "dns1123Label s \<longleftrightarrow> s \<noteq> [] \<and> alnum_lower (hd s) \<and> alnum_lower (last s) \<and>
     list_all (\<lambda>c. alnum_lower c \<or> c = CHR ''-'') s"

definition IsDNS1123Subdomain_ok :: "string \<Rightarrow> bool" where
  "IsDNS1123Subdomain_ok s \<longleftrightarrow> length s \<le> 253 \<and> list_all dns1123Label (Split (CHR ''.'') s)"

text \<open>\<open>([A-Za-z0-9][-A-Za-z0-9_.]*)?[A-Za-z0-9]\<close>\<close>

definition qualifiedName_match :: "string \<Rightarrow> bool" where
  "qualifiedName_match s \<longleftrightarrow> s \<noteq> [] \<and> alnum (hd s) \<and> alnum (last s) \<and>
     list_all (\<lambda>c. alnum c \<or> c \<in> {CHR ''-'', CHR ''_'', CHR ''.''}) s"

text \<open>Whether \<open>IsQualifiedName\<close> returns no error.\<close>

definition IsQualifiedName_ok :: "string \<Rightarrow> bool" where
  "IsQualifiedName_ok v =
     (case Split (CHR ''/'') v of
        [name] \<Rightarrow> length name \<le> 63 \<and> qualifiedName_match name
      | [pre, name] \<Rightarrow> pre \<noteq> [] \<and> IsDNS1123Subdomain_ok pre \<and> length name \<le> 63 \<and> qualifiedName_match name
      | _ \<Rightarrow> False)"

definition isExtendedResourceName :: "string \<Rightarrow> bool" where
  "isExtendedResourceName name =
     (if isNativeResource name \<or> HasPrefix name ''requests.'' then False
      else IsQualifiedName_ok (''requests.'' @ name))"

subsection \<open>Code that the stores repeat\<close>

text \<open>
  The loop at the end of every \<open>wrap...Func\<close>, which puts the default labels of the resource in
  front of each metric's own labels.
\<close>

definition add_default_labels :: "string list \<Rightarrow> string list \<Rightarrow> Family \<Rightarrow> Family" where
  "add_default_labels ks vs f =
     f\<lparr>Metrics := map (\<lambda>m. m\<lparr>LabelKeys := ks @ LabelKeys m, LabelValues := vs @ LabelValues m\<rparr>) (Metrics f)\<rparr>"

text \<open>The loop \<open>for _, m := range ms { m.LabelKeys = ks }\<close>.\<close>

definition set_keys :: "string list \<Rightarrow> Metric list \<Rightarrow> Metric list" where
  "set_keys ks ms = map (\<lambda>m. m\<lparr>LabelKeys := ks\<rparr>) ms"

definition timestamp_metric :: "Time \<Rightarrow> Metric" where
  "timestamp_metric t = metric [] [] (float64_of_int (Unix t))"

definition created_metrics :: "ObjectMeta \<Rightarrow> Metric list" where
  "created_metrics m = (if \<not> IsZero (CreationTimestamp m) then [timestamp_metric (CreationTimestamp m)] else [])"

definition labels_metrics :: "ObjectMeta \<Rightarrow> Metric list" where
  "labels_metrics m = (case kubeLabelsToPrometheusLabels (Labels m) of (ks, vs) \<Rightarrow> [metric ks vs (Fin 1)])"

definition owner_keys :: "string list" where
  "owner_keys = [''owner_kind'', ''owner_name'', ''owner_is_controller'']"

definition owner_metrics :: "OwnerReference list \<Rightarrow> Metric list" where
  "owner_metrics owners =
     (if length owners = 0 then [metric owner_keys [''<none>'', ''<none>'', ''<none>''] (Fin 1)]
      else map (\<lambda>owner. case or_Controller owner of
                  Some b \<Rightarrow> metric owner_keys [or_Kind owner, or_Name owner, FormatBool b] (Fin 1)
                | None \<Rightarrow> metric owner_keys [or_Kind owner, or_Name owner, ''false''] (Fin 1)) owners)"

text \<open>One metric per condition and status, labelled with both.\<close>

definition condition_metrics :: "Condition list \<Rightarrow> Metric list" where
  "condition_metrics cs =
     concat (map (\<lambda>c. map (\<lambda>m. m\<lparr>LabelKeys := [''condition'', ''status''],
                                  LabelValues := [cond_Type c] @ LabelValues m\<rparr>)
                       (addConditionMetrics (cond_Status c))) cs)"

text \<open>The conditions of one type, labelled with the status only.\<close>

definition typed_condition_metrics :: "string \<Rightarrow> Condition list \<Rightarrow> Metric list" where
  "typed_condition_metrics t cs =
     concat (map (\<lambda>c. if cond_Type c = t
                      then map (\<lambda>m. m\<lparr>LabelKeys := [''condition'']\<rparr>) (addConditionMetrics (cond_Status c))
                      else []) cs)"

text \<open>A metric without labels, and the optional one of a pointer field.\<close>

definition int_metric :: "int \<Rightarrow> Metric" where
  "int_metric i = metric [] [] (float64_of_int i)"

definition opt_int_metrics :: "int option \<Rightarrow> Metric list" where
  "opt_int_metrics p = (case p of Some i \<Rightarrow> [int_metric i] | None \<Rightarrow> [])"

definition opt_time_metrics :: "Time option \<Rightarrow> Metric list" where
  "opt_time_metrics p = (case p of Some t \<Rightarrow> [timestamp_metric t] | None \<Rightarrow> [])"

text \<open>\<open>float64(val.MilliValue()) / 1000\<close> and \<open>float64(val.Value())\<close>.\<close>

definition milli_float :: "Quantity \<Rightarrow> float64" where
  "milli_float q = f64_div_fin (float64_of_int (MilliValue q)) 1000"

definition value_float :: "Quantity \<Rightarrow> float64" where
  "value_float q = float64_of_int (Quantity_Value q)"

subsection \<open>Label names\<close>

lemma label_char_underscore [simp]: "label_char (CHR ''_'')"
  by (simp add: label_char_def)

lemma sanitizeLabelName_chars: "c \<in> set (sanitizeLabelName s) \<Longrightarrow> label_char c"
  by (induction s rule: sanitizeLabelName.induct) (auto split: if_splits simp del: rune_width.simps)

lemma sanitizeLabelName_id: "list_all label_char s \<Longrightarrow> sanitizeLabelName s = s"
  by (induction s) auto

lemma sanitizeLabelName_idem [simp]: "sanitizeLabelName (sanitizeLabelName s) = sanitizeLabelName s"
  by (rule sanitizeLabelName_id) (auto simp: list_all_iff dest: sanitizeLabelName_chars)

lemma mapToPrometheusLabels_lengths:
  "mapToPrometheusLabels labels p = (ks, vs) \<Longrightarrow> length ks = length labels \<and> length vs = length labels"
  by (auto simp: mapToPrometheusLabels_def Let_def)

subsection \<open>Well-formedness of the repeated code\<close>

lemma wf_add_default_labels [simp]:
  "length ks = length vs \<Longrightarrow> list_all valid_name ks \<Longrightarrow>
   valid_family (add_default_labels ks vs f) \<longleftrightarrow> valid_family f"
  by (auto simp: valid_family_def add_default_labels_def valid_metrics_def valid_metric_def wf_metric_def list_all_iff)

lemma wf_set_keys [simp]:
  "valid_metrics (set_keys ks ms) \<longleftrightarrow>
   (\<forall>m \<in> set ms. length (LabelValues m) = length ks \<and> list_all valid_name ks \<and> f64_ok (Value m))"
  by (auto simp: set_keys_def valid_metrics_def valid_metric_def wf_metric_def list_all_iff)

lemma valid_metric_lit [simp]:
  "valid_metric (metric ks vs v) \<longleftrightarrow> length ks = length vs \<and> list_all valid_name ks \<and> f64_ok v"
  by (simp add: valid_metric_def wf_metric_def)

lemma valid_family_lit [simp]: "valid_family (family ms) \<longleftrightarrow> valid_metrics ms"
  by (simp add: valid_family_def)

lemma valid_metrics_map_iff [simp]: "valid_metrics (map f xs) \<longleftrightarrow> (\<forall>x \<in> set xs. valid_metric (f x))"
  by (auto simp: valid_metrics_def list_all_iff)

lemma valid_metrics_concat_iff [simp]: "valid_metrics (concat (map f xs)) \<longleftrightarrow> (\<forall>x \<in> set xs. valid_metrics (f x))"
  by (auto simp: valid_metrics_def list_all_iff)

lemma wf_timestamp_metric [simp]: "valid_metric (timestamp_metric t)"
  by (simp add: timestamp_metric_def)

lemma wf_int_metric [simp]: "valid_metric (int_metric i)"
  by (simp add: int_metric_def)

lemma wf_created_metrics [simp]: "valid_metrics (created_metrics m)"
  by (simp add: created_metrics_def)

lemma label_char_name: "label_char = name_char"
  by (simp add: fun_eq_iff label_char_def name_char_def)

lemma mapToPrometheusLabels_names:
  assumes "valid_name p" "mapToPrometheusLabels ls p = (ks, vs)"
  shows "list_all valid_name ks"
proof -
  have "valid_name (p @ CHR ''_'' # sanitizeLabelName k)" for k
    using assms(1) sanitizeLabelName_chars[of _ k] by (cases p) (auto simp: list_all_iff label_char_name)
  then show ?thesis using assms(2) by (auto simp: mapToPrometheusLabels_def Let_def list_all_iff)
qed

lemma wf_labels_metrics [simp]: "valid_metrics (labels_metrics m)"
  by (auto simp: labels_metrics_def kubeLabelsToPrometheusLabels_def split: prod.split
      dest: mapToPrometheusLabels_lengths mapToPrometheusLabels_names[rotated])

lemma wf_owner_metrics [simp]: "valid_metrics (owner_metrics owners)"
  by (auto simp: owner_metrics_def owner_keys_def split: option.split)

lemma f64_ok_quantity [simp]: "f64_ok (milli_float q)" "f64_ok (value_float q)"
  by (simp_all add: milli_float_def value_float_def)

lemma f64_ok_boolFloat64 [simp]: "f64_ok (boolFloat64 b)"
  by (simp add: boolFloat64_def)

lemma addConditionMetrics_values: "m \<in> set (addConditionMetrics cs) \<Longrightarrow> length (LabelValues m) = 1 \<and> f64_ok (Value m)"
  by (auto simp: addConditionMetrics_def)

lemma wf_condition_metrics [simp]: "valid_metrics (condition_metrics cs)"
  by (auto simp: condition_metrics_def valid_metric_def wf_metric_def addConditionMetrics_values)

lemma wf_typed_condition_metrics [simp]: "valid_metrics (typed_condition_metrics t cs)"
  by (auto simp: typed_condition_metrics_def valid_metric_def wf_metric_def addConditionMetrics_values)

lemma wf_opt_metrics [simp]: "valid_metrics (opt_int_metrics p)" "valid_metrics (opt_time_metrics q)"
  by (simp_all add: opt_int_metrics_def opt_time_metrics_def split: option.split)

lemma wf_resourceVersionMetric [simp]: "valid_metrics (resourceVersionMetric rv)"
  by (auto simp: resourceVersionMetric_def split: option.split dest: ParseFloat_ok)

subsection \<open>The interface of a resource's families\<close>

text \<open>
  What \<open>Builder.buildStore\<close> relies on: the families of a resource have different names, their
  headers keep the exposition format, and on an object that satisfies the precondition every
  generator returns a family whose metrics have as many label keys as label values, all keys being
  valid names. \<open>inject\<close> turns a struct of the resource into the
  \<open>interface{}\<close> value the store hands to the generators.
\<close>

locale resource_families =
  fixes families :: "kobject FamilyGenerator list"
    and inject :: "'r \<Rightarrow> kobject"
    and pre :: "'r \<Rightarrow> bool"
  assumes names_distinct: "distinct (map gen_Name families)"
    and headers_fine: "list_all (\<lambda>g. header_ok (gen_Name g) (gen_Help g) (gen_Type g)) families"
    and sound: "pre r \<Longrightarrow> list_all (\<lambda>g. gen_sound g (inject r)) families"
begin

lemma filtered_sound: "pre r \<Longrightarrow> list_all (\<lambda>g. gen_sound g (inject r)) (FilterMetricFamilies p families)"
  using sound by (auto simp: FilterMetricFamilies_filter list_all_iff)

lemma generate_returns:
  assumes "pre r"
  obtains fams where
    "ComposeMetricGenFuncs (FilterMetricFamilies p families) (inject r) = Inr fams"
    "list_all valid_family fams" "length fams = length (FilterMetricFamilies p families)"
proof -
  obtain fams where fams: "ComposeMetricGenFuncs (FilterMetricFamilies p families) (inject r) = Inr fams"
    "list_all valid_family fams"
    using Compose_sound[OF filtered_sound[OF assms]] by blast
  show ?thesis by (rule that[OF fams Compose_length[OF fams(1)]])
qed

lemma filtered_names_distinct: "distinct (map gen_Name (FilterMetricFamilies p families))"
  using names_distinct by (simp add: FilterMetricFamilies_filter distinct_map_filter)

end

text \<open>The outcome of a family body: it returns, and its metrics are well formed.\<close>

definition body_sound :: "Family go \<Rightarrow> bool" where
  "body_sound r \<longleftrightarrow> (\<exists>f. r = Inr f \<and> valid_family f)"

lemma body_sound_simps [simp]: "body_sound (Inr f) \<longleftrightarrow> valid_family f" "\<not> body_sound (Inl p)"
  by (simp_all add: body_sound_def)

subsection \<open>Properties\<close>

text \<open>
  A condition becomes one metric per status, labelled with the status in lower case, and the
  metrics are a one-hot encoding: exactly one of them is 1 when the status is one of the three that
  Kubernetes defines, none otherwise, and the others are 0.
\<close>

lemma addConditionMetrics_one_hot:
  "map LabelValues (addConditionMetrics cs) = [[''true''], [''false''], [''unknown'']] \<and>
   length (filter (\<lambda>m. Value m = Fin 1) (addConditionMetrics cs)) = (if cs \<in> set conditionStatuses then 1 else 0) \<and>
   set (map Value (addConditionMetrics cs)) \<subseteq> {Fin 0, Fin 1}"
proof -
  have "ToLower ''True'' = ''true''" "ToLower ''False'' = ''false''" "ToLower ''Unknown'' = ''unknown''" by code_simp+
  then show ?thesis by (auto simp: addConditionMetrics_def conditionStatuses_def boolFloat64_def)
qed

text \<open>
  C37. The Prometheus labels of an object do not depend on the order in which Go visits the label map,
  there is one per label, each named \<open>label_\<close> followed by letters, digits and underscores only, so
  that it is a valid Prometheus label name.
\<close>

theorem kubeLabels_deterministic_valid:
  assumes "distinct (map fst ls)" "mset ls = mset ls'"
  shows "kubeLabelsToPrometheusLabels ls = kubeLabelsToPrometheusLabels ls' \<and>
    length (fst (kubeLabelsToPrometheusLabels ls)) = length ls \<and>
    length (snd (kubeLabelsToPrometheusLabels ls)) = length ls \<and>
    (\<forall>k \<in> set (fst (kubeLabelsToPrometheusLabels ls)). HasPrefix k ''label_'' \<and> list_all label_char k)"
proof -
  have dist': "distinct (map fst ls')" using assms by (metis mset_map mset_eq_imp_distinct_iff)
  have "map_of ls = map_of ls'"
    using map_of_inject_set[OF assms(1) dist'] assms(2) by (metis set_mset_mset)
  moreover have "sort (map fst ls) = sort (map fst ls')"
    using assms(2) by (metis mset_map properties_for_sort sorted_sort mset_sort)
  ultimately have "kubeLabelsToPrometheusLabels ls = kubeLabelsToPrometheusLabels ls'"
    by (simp add: kubeLabelsToPrometheusLabels_def mapToPrometheusLabels_def)
  moreover have "length ls' = length ls" using assms(2) by (metis size_mset)
  moreover have "list_all label_char (''label_'' @ sanitizeLabelName k)" for k
    using sanitizeLabelName_chars[of _ k] by (auto simp: list_all_iff label_char_def byte_in_def)
  ultimately show ?thesis
    by (auto simp: kubeLabelsToPrometheusLabels_def mapToPrometheusLabels_def Let_def HasPrefix_def)
qed

theorem kubeLabels_deterministic_valid_witness:
  "kubeLabelsToPrometheusLabels [(''b.c'', ''1''), (''a'', ''2'')] = kubeLabelsToPrometheusLabels [(''a'', ''2''), (''b.c'', ''1'')]"
  using kubeLabels_deterministic_valid[of "[(''b.c'', ''1''), (''a'', ''2'')]" "[(''a'', ''2''), (''b.c'', ''1'')]"]
  by simp

text \<open>
  The conversion of label names is the identity on names that are valid already and is idempotent,
  but it is not injective: two labels of one object that differ only in replaced characters give the
  same label name twice in one metric, with different values.
\<close>

lemma sanitizeLabelName_collides:
  "sanitizeLabelName (sanitizeLabelName s) = sanitizeLabelName s \<and>
   (sanitizeLabelName s = s \<longleftrightarrow> list_all label_char s) \<and>
   kubeLabelsToPrometheusLabels [(''app.kind'', v), (''app-kind'', w)] =
     ([''label_app_kind'', ''label_app_kind''], [w, v])"
proof -
  have "sanitizeLabelName s = s \<Longrightarrow> list_all label_char s"
    using sanitizeLabelName_chars[of _ s] by (auto simp: list_all_iff)
  moreover have "sanitizeLabelName ''app.kind'' = ''app_kind''" "sanitizeLabelName ''app-kind'' = ''app_kind''"
    by code_simp+
  moreover have "sort [''app.kind'', ''app-kind''] = [''app-kind'', ''app.kind'']"
    by code_simp
  ultimately show ?thesis
    by (auto simp: sanitizeLabelName_id kubeLabelsToPrometheusLabels_def mapToPrometheusLabels_def Let_def
        simp del: sanitizeLabelName.simps)
qed

end
