(* ===== verification/Store_Pod.thy ===== *)
theory Store_Pod
  imports Store_Utils
begin

text \<open>
  \<open>internal/store/pod.go\<close>: one definition per metric family of a pod, the wrapper that adds the
  labels \<open>namespace\<close> and \<open>pod\<close>, and the list of families.
\<close>

definition descPodLabelsDefaultLabels :: "string list" where
  "descPodLabelsDefaultLabels = [''namespace'', ''pod'']"

definition containerWaitingReasons :: "string list" where
  "containerWaitingReasons = [''ContainerCreating'', ''CrashLoopBackOff'', ''CreateContainerConfigError'',
     ''ErrImagePull'', ''ImagePullBackOff'', ''CreateContainerError'', ''InvalidImageName'']"

definition containerTerminatedReasons :: "string list" where
  "containerTerminatedReasons = [''OOMKilled'', ''Completed'', ''Error'', ''ContainerCannotRun'',
     ''DeadlineExceeded'', ''Evicted'']"

definition podStatusReasons :: "string list" where
  "podStatusReasons = [''NodeLost'', ''Evicted'']"

subsection \<open>Helpers\<close>

definition waitingReason :: "ContainerStatus \<Rightarrow> string \<Rightarrow> bool" where
  "waitingReason cs reason = (case Waiting (State cs) of None \<Rightarrow> False | Some w \<Rightarrow> waiting_Reason w = reason)"

definition terminationReason :: "ContainerStatus \<Rightarrow> string \<Rightarrow> bool" where
  "terminationReason cs reason =
     (case Terminated (State cs) of None \<Rightarrow> False | Some t \<Rightarrow> terminated_Reason t = reason)"

definition lastTerminationReason :: "ContainerStatus \<Rightarrow> string \<Rightarrow> bool" where
  "lastTerminationReason cs reason =
     (case Terminated (LastTerminationState cs) of None \<Rightarrow> False | Some t \<Rightarrow> terminated_Reason t = reason)"

text \<open>One metric per container with the container's name as label.\<close>

definition container_metrics :: "(ContainerStatus \<Rightarrow> float64) \<Rightarrow> ContainerStatus list \<Rightarrow> Metric list" where
  "container_metrics v css = map (\<lambda>cs. metric [''container''] [cs_Name cs] (v cs)) css"

text \<open>One metric per container and reason.\<close>

definition reason_metrics ::
  "(ContainerStatus \<Rightarrow> string \<Rightarrow> bool) \<Rightarrow> string list \<Rightarrow> ContainerStatus list \<Rightarrow> Metric list" where
  "reason_metrics holds reasons css =
     concat (map (\<lambda>cs. map (\<lambda>reason. metric [''container'', ''reason''] [cs_Name cs, reason]
                                      (boolFloat64 (holds cs reason))) reasons) css)"

text \<open>The switch on the resource name in the request and limit families.\<close>

definition container_resource :: "string \<Rightarrow> string \<times> Quantity \<Rightarrow> Metric list" where
  "container_resource cname = (\<lambda>(resourceName, val).
     let m = (\<lambda>unit v. metric [] [cname, sanitizeLabelName resourceName, unit] v) in
     if resourceName = ''cpu'' then [m UnitCore (milli_float val)]
     else if resourceName \<in> {''storage'', ''ephemeral-storage'', ''memory''} then [m UnitByte (value_float val)]
     else (if isHugePageResourceName resourceName then [m UnitByte (value_float val)] else []) @
          (if isAttachableVolumeResourceName resourceName then [m UnitByte (value_float val)] else []) @
          (if isExtendedResourceName resourceName then [m UnitInteger (value_float val)] else []))"

definition containers_resources :: "(Container \<Rightarrow> ResourceList) \<Rightarrow> Container list \<Rightarrow> Metric list" where
  "containers_resources rl cs =
     set_keys [''container'', ''resource'', ''unit'']
       (concat (map (\<lambda>c. concat (map (container_resource (c_Name c)) (rl c))) cs))"

subsection \<open>Families\<close>

definition kube_pod_info :: "Pod \<Rightarrow> Family" where
  "kube_pod_info p =
     (let createdBy = GetControllerOf (pod_ObjectMeta p);
          createdByKind = (case createdBy of Some r \<Rightarrow> if or_Kind r \<noteq> [] then or_Kind r else ''<none>'' | None \<Rightarrow> ''<none>'');
          createdByName = (case createdBy of Some r \<Rightarrow> if or_Name r \<noteq> [] then or_Name r else ''<none>'' | None \<Rightarrow> ''<none>'')
      in family [metric
           [''host_ip'', ''pod_ip'', ''uid'', ''node'', ''created_by_kind'', ''created_by_name'', ''priority_class'']
           [HostIP (pod_Status p), PodIP (pod_Status p), UID (pod_ObjectMeta p), ps_NodeName (pod_Spec p),
            createdByKind, createdByName, PriorityClassName (pod_Spec p)]
           (Fin 1)])"

definition kube_pod_start_time :: "Pod \<Rightarrow> Family" where
  "kube_pod_start_time p = family (opt_time_metrics (pod_StartTime (pod_Status p)))"

definition lastFinishTime :: "ContainerStatus list \<Rightarrow> float64" where
  "lastFinishTime css =
     foldl (\<lambda>l cs. case Terminated (State cs) of
              None \<Rightarrow> l
            | Some t \<Rightarrow>
                if f64_eq l (Fin 0) \<or> f64_less l (float64_of_int (Unix (FinishedAt t)))
                then float64_of_int (Unix (FinishedAt t)) else l) (Fin 0) css"

definition kube_pod_completion_time :: "Pod \<Rightarrow> Family" where
  "kube_pod_completion_time p =
     (let l = lastFinishTime (ContainerStatuses (pod_Status p))
      in family (if f64_less (Fin 0) l then [metric [] [] l] else []))"

definition kube_pod_owner :: "Pod \<Rightarrow> Family" where
  "kube_pod_owner p = family (owner_metrics (OwnerReferences (pod_ObjectMeta p)))"

definition kube_pod_labels :: "Pod \<Rightarrow> Family" where
  "kube_pod_labels p = family (labels_metrics (pod_ObjectMeta p))"

definition kube_pod_created :: "Pod \<Rightarrow> Family" where
  "kube_pod_created p = family (created_metrics (pod_ObjectMeta p))"

definition kube_pod_deleted :: "Pod \<Rightarrow> Family" where
  "kube_pod_deleted p =
     family (case DeletionTimestamp (pod_ObjectMeta p) of
               Some t \<Rightarrow> if \<not> IsZero t then [timestamp_metric t] else []
             | None \<Rightarrow> [])"

definition kube_pod_restart_policy :: "Pod \<Rightarrow> Family" where
  "kube_pod_restart_policy p = family [metric [''type''] [RestartPolicy (pod_Spec p)] (Fin 1)]"

definition kube_pod_status_scheduled_time :: "Pod \<Rightarrow> Family" where
  "kube_pod_status_scheduled_time p =
     family (concat (map (\<lambda>c. if cond_Type c = ''PodScheduled'' \<and> cond_Status c = ''True''
                              then [timestamp_metric (LastTransitionTime c)] else [])
                     (pod_Conditions (pod_Status p))))"

definition kube_pod_status_unschedulable :: "Pod \<Rightarrow> Family" where
  "kube_pod_status_unschedulable p =
     family (concat (map (\<lambda>c. if cond_Type c = ''PodScheduled'' \<and> cond_Status c = ''False''
                              then [metric [] [] (Fin 1)] else [])
                     (pod_Conditions (pod_Status p))))"

definition kube_pod_status_phase :: "Pod \<Rightarrow> Family" where
  "kube_pod_status_phase p =
     (let phase = pod_Phase (pod_Status p) in
      if phase = [] then family []
      else family (map (\<lambda>n. metric [''phase''] [n] (boolFloat64 (phase = n)))
                    [''Pending'', ''Succeeded'', ''Failed'', ''Unknown'', ''Running'']))"

definition kube_pod_status_ready :: "Pod \<Rightarrow> Family" where
  "kube_pod_status_ready p = family (typed_condition_metrics ''Ready'' (pod_Conditions (pod_Status p)))"

definition kube_pod_status_scheduled :: "Pod \<Rightarrow> Family" where
  "kube_pod_status_scheduled p =
     family (typed_condition_metrics ''PodScheduled'' (pod_Conditions (pod_Status p)))"

definition kube_pod_status_reason :: "Pod \<Rightarrow> Family" where
  "kube_pod_status_reason p =
     family (map (\<lambda>reason. metric [''reason''] [reason]
                     (if pod_Reason (pod_Status p) = reason then boolFloat64 True else boolFloat64 False))
             podStatusReasons)"

definition container_info_metrics :: "ContainerStatus list \<Rightarrow> Metric list" where
  "container_info_metrics css =
     map (\<lambda>cs. metric [''container'', ''image'', ''image_id'', ''container_id'']
                 [cs_Name cs, cs_Image cs, ImageID cs, ContainerID cs] (Fin 1)) css"

definition kube_pod_container_info :: "Pod \<Rightarrow> Family" where
  "kube_pod_container_info p =
     family (container_info_metrics (ContainerStatuses (pod_Status p)))"

definition kube_pod_init_container_info :: "Pod \<Rightarrow> Family" where
  "kube_pod_init_container_info p =
     family (container_info_metrics (InitContainerStatuses (pod_Status p)))"

definition kube_pod_container_status_waiting :: "Pod \<Rightarrow> Family" where
  "kube_pod_container_status_waiting p =
     family (container_metrics (\<lambda>cs. boolFloat64 (Waiting (State cs) \<noteq> None)) (ContainerStatuses (pod_Status p)))"

definition kube_pod_init_container_status_waiting :: "Pod \<Rightarrow> Family" where
  "kube_pod_init_container_status_waiting p =
     family (container_metrics (\<lambda>cs. boolFloat64 (Waiting (State cs) \<noteq> None)) (InitContainerStatuses (pod_Status p)))"

definition kube_pod_container_status_waiting_reason :: "Pod \<Rightarrow> Family" where
  "kube_pod_container_status_waiting_reason p =
     family (reason_metrics waitingReason containerWaitingReasons (ContainerStatuses (pod_Status p)))"

definition kube_pod_init_container_status_waiting_reason :: "Pod \<Rightarrow> Family" where
  "kube_pod_init_container_status_waiting_reason p =
     family (reason_metrics waitingReason containerWaitingReasons (InitContainerStatuses (pod_Status p)))"

definition kube_pod_container_status_running :: "Pod \<Rightarrow> Family" where
  "kube_pod_container_status_running p =
     family (container_metrics (\<lambda>cs. boolFloat64 (Running (State cs) \<noteq> None)) (ContainerStatuses (pod_Status p)))"

definition kube_pod_init_container_status_running :: "Pod \<Rightarrow> Family" where
  "kube_pod_init_container_status_running p =
     family (container_metrics (\<lambda>cs. boolFloat64 (Running (State cs) \<noteq> None)) (InitContainerStatuses (pod_Status p)))"

definition kube_pod_container_status_terminated :: "Pod \<Rightarrow> Family" where
  "kube_pod_container_status_terminated p =
     family (container_metrics (\<lambda>cs. boolFloat64 (Terminated (State cs) \<noteq> None)) (ContainerStatuses (pod_Status p)))"

definition kube_pod_init_container_status_terminated :: "Pod \<Rightarrow> Family" where
  "kube_pod_init_container_status_terminated p =
     family (container_metrics (\<lambda>cs. boolFloat64 (Terminated (State cs) \<noteq> None)) (InitContainerStatuses (pod_Status p)))"

definition kube_pod_container_status_terminated_reason :: "Pod \<Rightarrow> Family" where
  "kube_pod_container_status_terminated_reason p =
     family (reason_metrics terminationReason containerTerminatedReasons (ContainerStatuses (pod_Status p)))"

definition kube_pod_init_container_status_terminated_reason :: "Pod \<Rightarrow> Family" where
  "kube_pod_init_container_status_terminated_reason p =
     family (reason_metrics terminationReason containerTerminatedReasons (InitContainerStatuses (pod_Status p)))"

definition kube_pod_container_status_last_terminated_reason :: "Pod \<Rightarrow> Family" where
  "kube_pod_container_status_last_terminated_reason p =
     family (reason_metrics lastTerminationReason containerTerminatedReasons (ContainerStatuses (pod_Status p)))"

definition kube_pod_init_container_status_last_terminated_reason :: "Pod \<Rightarrow> Family" where
  "kube_pod_init_container_status_last_terminated_reason p =
     family (reason_metrics lastTerminationReason containerTerminatedReasons (InitContainerStatuses (pod_Status p)))"

definition kube_pod_container_status_ready :: "Pod \<Rightarrow> Family" where
  "kube_pod_container_status_ready p =
     family (container_metrics (\<lambda>cs. boolFloat64 (Ready cs)) (ContainerStatuses (pod_Status p)))"

definition kube_pod_init_container_status_ready :: "Pod \<Rightarrow> Family" where
  "kube_pod_init_container_status_ready p =
     family (container_metrics (\<lambda>cs. boolFloat64 (Ready cs)) (InitContainerStatuses (pod_Status p)))"

definition kube_pod_container_status_restarts_total :: "Pod \<Rightarrow> Family" where
  "kube_pod_container_status_restarts_total p =
     family (container_metrics (\<lambda>cs. float64_of_int (RestartCount cs)) (ContainerStatuses (pod_Status p)))"

definition kube_pod_init_container_status_restarts_total :: "Pod \<Rightarrow> Family" where
  "kube_pod_init_container_status_restarts_total p =
     family (container_metrics (\<lambda>cs. float64_of_int (RestartCount cs)) (InitContainerStatuses (pod_Status p)))"

definition kube_pod_container_resource_requests :: "Pod \<Rightarrow> Family" where
  "kube_pod_container_resource_requests p =
     family (containers_resources (\<lambda>c. Requests (c_Resources c)) (Containers (pod_Spec p)))"

definition kube_pod_container_resource_limits :: "Pod \<Rightarrow> Family" where
  "kube_pod_container_resource_limits p =
     family (containers_resources (\<lambda>c. rr_Limits (c_Resources c)) (Containers (pod_Spec p)))"

definition kube_pod_init_container_resource_limits :: "Pod \<Rightarrow> Family" where
  "kube_pod_init_container_resource_limits p =
     family (containers_resources (\<lambda>c. rr_Limits (c_Resources c)) (InitContainers (pod_Spec p)))"

definition pvc_volume_metrics :: "(PersistentVolumeClaimVolumeSource \<Rightarrow> float64) \<Rightarrow> Volume list \<Rightarrow> Metric list" where
  "pvc_volume_metrics v vols =
     concat (map (\<lambda>vol. case vol_PersistentVolumeClaim vol of
                    Some c \<Rightarrow> [metric [''volume'', ''persistentvolumeclaim''] [vol_Name vol, ClaimName c] (v c)]
                  | None \<Rightarrow> []) vols)"

definition kube_pod_spec_volumes_persistentvolumeclaims_info :: "Pod \<Rightarrow> Family" where
  "kube_pod_spec_volumes_persistentvolumeclaims_info p =
     family (pvc_volume_metrics (\<lambda>c. Fin 1) (Volumes (pod_Spec p)))"

definition kube_pod_spec_volumes_persistentvolumeclaims_readonly :: "Pod \<Rightarrow> Family" where
  "kube_pod_spec_volumes_persistentvolumeclaims_readonly p =
     family (pvc_volume_metrics (\<lambda>c. boolFloat64 (ReadOnly c)) (Volumes (pod_Spec p)))"

definition overhead_resource :: "string \<times> Quantity \<Rightarrow> Metric list" where
  "overhead_resource = (\<lambda>(resourceName, val).
     if resourceName = ''cpu'' then [metric [] [sanitizeLabelName resourceName, UnitCore] (milli_float val)]
     else if resourceName = ''memory'' then [metric [] [sanitizeLabelName resourceName, UnitByte] (value_float val)]
     else [])"

definition kube_pod_overhead :: "Pod \<Rightarrow> Family" where
  "kube_pod_overhead p =
     family (set_keys [''resource'', ''unit''] (concat (map overhead_resource (Overhead (pod_Spec p)))))"

subsection \<open>The wrapper and the list of families\<close>

definition wrapPodFunc :: "(Pod \<Rightarrow> Family) \<Rightarrow> kobject \<Rightarrow> Family go" where
  "wrapPodFunc f obj =
     (case obj of
        Pod_obj pod \<Rightarrow>
          Inr (add_default_labels descPodLabelsDefaultLabels
                 [Namespace (pod_ObjectMeta pod), Name (pod_ObjectMeta pod)] (f pod))
      | _ \<Rightarrow> Inl Type_assertion)"

definition podMetricFamilies :: "kobject FamilyGenerator list" where
  "podMetricFamilies =
    [\<lparr>gen_Name = ''kube_pod_info'',
       gen_Help = ''Information about pod.'',
       gen_Type = Gauge, GenerateFunc = wrapPodFunc kube_pod_info\<rparr>,
     \<lparr>gen_Name = ''kube_pod_start_time'',
       gen_Help = ''Start time in unix timestamp for a pod.'',
       gen_Type = Gauge, GenerateFunc = wrapPodFunc kube_pod_start_time\<rparr>,
     \<lparr>gen_Name = ''kube_pod_completion_time'',
       gen_Help = ''Completion time in unix timestamp for a pod.'',
       gen_Type = Gauge, GenerateFunc = wrapPodFunc kube_pod_completion_time\<rparr>,
     \<lparr>gen_Name = ''kube_pod_owner'',
       gen_Help = ''Information about the Pod's owner.'',
       gen_Type = Gauge, GenerateFunc = wrapPodFunc kube_pod_owner\<rparr>,
     \<lparr>gen_Name = ''kube_pod_labels'',
       gen_Help = ''Kubernetes labels converted to Prometheus labels.'',
       gen_Type = Gauge, GenerateFunc = wrapPodFunc kube_pod_labels\<rparr>,
     \<lparr>gen_Name = ''kube_pod_created'',
       gen_Help = ''Unix creation timestamp'',
       gen_Type = Gauge, GenerateFunc = wrapPodFunc kube_pod_created\<rparr>,
     \<lparr>gen_Name = ''kube_pod_deleted'',
       gen_Help = ''Unix deletion timestamp'',
       gen_Type = Gauge, GenerateFunc = wrapPodFunc kube_pod_deleted\<rparr>,
     \<lparr>gen_Name = ''kube_pod_restart_policy'',
       gen_Help = ''Describes the restart policy in use by this pod.'',
       gen_Type = Gauge, GenerateFunc = wrapPodFunc kube_pod_restart_policy\<rparr>,
     \<lparr>gen_Name = ''kube_pod_status_scheduled_time'',
       gen_Help = ''Unix timestamp when pod moved into scheduled status'',
       gen_Type = Gauge, GenerateFunc = wrapPodFunc kube_pod_status_scheduled_time\<rparr>,
     \<lparr>gen_Name = ''kube_pod_status_unschedulable'',
       gen_Help = ''Describes the unschedulable status for the pod.'',
       gen_Type = Gauge, GenerateFunc = wrapPodFunc kube_pod_status_unschedulable\<rparr>,
     \<lparr>gen_Name = ''kube_pod_status_phase'',
       gen_Help = ''The pods current phase.'',
       gen_Type = Gauge, GenerateFunc = wrapPodFunc kube_pod_status_phase\<rparr>,
     \<lparr>gen_Name = ''kube_pod_status_ready'',
       gen_Help = ''Describes whether the pod is ready to serve requests.'',
       gen_Type = Gauge, GenerateFunc = wrapPodFunc kube_pod_status_ready\<rparr>,
     \<lparr>gen_Name = ''kube_pod_status_scheduled'',
       gen_Help = ''Describes the status of the scheduling process for the pod.'',
       gen_Type = Gauge, GenerateFunc = wrapPodFunc kube_pod_status_scheduled\<rparr>,
     \<lparr>gen_Name = ''kube_pod_status_reason'',
       gen_Help = ''The pod status reasons'',
       gen_Type = Gauge, GenerateFunc = wrapPodFunc kube_pod_status_reason\<rparr>,
     \<lparr>gen_Name = ''kube_pod_container_info'',
       gen_Help = ''Information about a container in a pod.'',
       gen_Type = Gauge, GenerateFunc = wrapPodFunc kube_pod_container_info\<rparr>,
     \<lparr>gen_Name = ''kube_pod_init_container_info'',
       gen_Help = ''Information about an init container in a pod.'',
       gen_Type = Gauge, GenerateFunc = wrapPodFunc kube_pod_init_container_info\<rparr>,
     \<lparr>gen_Name = ''kube_pod_container_status_waiting'',
       gen_Help = ''Describes whether the container is currently in waiting state.'',
       gen_Type = Gauge, GenerateFunc = wrapPodFunc kube_pod_container_status_waiting\<rparr>,
     \<lparr>gen_Name = ''kube_pod_init_container_status_waiting'',
       gen_Help = ''Describes whether the init container is currently in waiting state.'',
       gen_Type = Gauge, GenerateFunc = wrapPodFunc kube_pod_init_container_status_waiting\<rparr>,
     \<lparr>gen_Name = ''kube_pod_container_status_waiting_reason'',
       gen_Help = ''Describes the reason the container is currently in waiting state.'',
       gen_Type = Gauge, GenerateFunc = wrapPodFunc kube_pod_container_status_waiting_reason\<rparr>,
     \<lparr>gen_Name = ''kube_pod_init_container_status_waiting_reason'',
       gen_Help = ''Describes the reason the init container is currently in waiting state.'',
       gen_Type = Gauge, GenerateFunc = wrapPodFunc kube_pod_init_container_status_waiting_reason\<rparr>,
     \<lparr>gen_Name = ''kube_pod_container_status_running'',
       gen_Help = ''Describes whether the container is currently in running state.'',
       gen_Type = Gauge, GenerateFunc = wrapPodFunc kube_pod_container_status_running\<rparr>,
     \<lparr>gen_Name = ''kube_pod_init_container_status_running'',
       gen_Help = ''Describes whether the init container is currently in running state.'',
       gen_Type = Gauge, GenerateFunc = wrapPodFunc kube_pod_init_container_status_running\<rparr>,
     \<lparr>gen_Name = ''kube_pod_container_status_terminated'',
       gen_Help = ''Describes whether the container is currently in terminated state.'',
       gen_Type = Gauge, GenerateFunc = wrapPodFunc kube_pod_container_status_terminated\<rparr>,
     \<lparr>gen_Name = ''kube_pod_init_container_status_terminated'',
       gen_Help = ''Describes whether the init container is currently in terminated state.'',
       gen_Type = Gauge, GenerateFunc = wrapPodFunc kube_pod_init_container_status_terminated\<rparr>,
     \<lparr>gen_Name = ''kube_pod_container_status_terminated_reason'',
       gen_Help = ''Describes the reason the container is currently in terminated state.'',
       gen_Type = Gauge, GenerateFunc = wrapPodFunc kube_pod_container_status_terminated_reason\<rparr>,
     \<lparr>gen_Name = ''kube_pod_init_container_status_terminated_reason'',
       gen_Help = ''Describes the reason the init container is currently in terminated state.'',
       gen_Type = Gauge, GenerateFunc = wrapPodFunc kube_pod_init_container_status_terminated_reason\<rparr>,
     \<lparr>gen_Name = ''kube_pod_container_status_last_terminated_reason'',
       gen_Help = ''Describes the last reason the container was in terminated state.'',
       gen_Type = Gauge, GenerateFunc = wrapPodFunc kube_pod_container_status_last_terminated_reason\<rparr>,
     \<lparr>gen_Name = ''kube_pod_init_container_status_last_terminated_reason'',
       gen_Help = ''Describes the last reason the init container was in terminated state.'',
       gen_Type = Gauge, GenerateFunc = wrapPodFunc kube_pod_init_container_status_last_terminated_reason\<rparr>,
     \<lparr>gen_Name = ''kube_pod_container_status_ready'',
       gen_Help = ''Describes whether the containers readiness check succeeded.'',
       gen_Type = Gauge, GenerateFunc = wrapPodFunc kube_pod_container_status_ready\<rparr>,
     \<lparr>gen_Name = ''kube_pod_init_container_status_ready'',
       gen_Help = ''Describes whether the init containers readiness check succeeded.'',
       gen_Type = Gauge, GenerateFunc = wrapPodFunc kube_pod_init_container_status_ready\<rparr>,
     \<lparr>gen_Name = ''kube_pod_container_status_restarts_total'',
       gen_Help = ''The number of container restarts per container.'',
       gen_Type = Counter, GenerateFunc = wrapPodFunc kube_pod_container_status_restarts_total\<rparr>,
     \<lparr>gen_Name = ''kube_pod_init_container_status_restarts_total'',
       gen_Help = ''The number of restarts for the init container.'',
       gen_Type = Counter, GenerateFunc = wrapPodFunc kube_pod_init_container_status_restarts_total\<rparr>,
     \<lparr>gen_Name = ''kube_pod_container_resource_requests'',
       gen_Help = ''The number of requested request resource by a container.'',
       gen_Type = Gauge, GenerateFunc = wrapPodFunc kube_pod_container_resource_requests\<rparr>,
     \<lparr>gen_Name = ''kube_pod_container_resource_limits'',
       gen_Help = ''The number of requested limit resource by a container.'',
       gen_Type = Gauge, GenerateFunc = wrapPodFunc kube_pod_container_resource_limits\<rparr>,
     \<lparr>gen_Name = ''kube_pod_init_container_resource_limits'',
       gen_Help = ''The number of requested limit resource by the init container.'',
       gen_Type = Gauge, GenerateFunc = wrapPodFunc kube_pod_init_container_resource_limits\<rparr>,
     \<lparr>gen_Name = ''kube_pod_spec_volumes_persistentvolumeclaims_info'',
       gen_Help = ''Information about persistentvolumeclaim volumes in a pod.'',
       gen_Type = Gauge, GenerateFunc = wrapPodFunc kube_pod_spec_volumes_persistentvolumeclaims_info\<rparr>,
     \<lparr>gen_Name = ''kube_pod_spec_volumes_persistentvolumeclaims_readonly'',
       gen_Help = ''Describes whether a persistentvolumeclaim is mounted read only.'',
       gen_Type = Gauge, GenerateFunc = wrapPodFunc kube_pod_spec_volumes_persistentvolumeclaims_readonly\<rparr>,
     \<lparr>gen_Name = ''kube_pod_overhead'',
       gen_Help = ''The pod overhead associated with running a pod.'',
       gen_Type = Gauge, GenerateFunc = wrapPodFunc kube_pod_overhead\<rparr>]"

subsection \<open>Properties\<close>

lemma wf_container_metrics [simp]:
  "(\<And>cs. f64_ok (v cs)) \<Longrightarrow> valid_metrics (container_metrics v css)" "valid_metrics (reason_metrics h rs css)"
  "valid_metrics (container_info_metrics css)" "(\<And>c. f64_ok (w c)) \<Longrightarrow> valid_metrics (pvc_volume_metrics w vols)"
  by (auto simp: container_metrics_def reason_metrics_def container_info_metrics_def pvc_volume_metrics_def
      split: option.split)

lemma f64_ok_lastFinishTime [simp]: "f64_ok (lastFinishTime css)"
proof -
  have "f64_ok l \<Longrightarrow> f64_ok (foldl (\<lambda>l cs. case Terminated (State cs) of
              None \<Rightarrow> l
            | Some t \<Rightarrow>
                if f64_eq l (Fin 0) \<or> f64_less l (float64_of_int (Unix (FinishedAt t)))
                then float64_of_int (Unix (FinishedAt t)) else l) l css)" for l
    by (induction css arbitrary: l) (auto split: option.split)
  then show ?thesis by (simp add: lastFinishTime_def)
qed

lemma container_resource_values: "\<forall>m \<in> set (container_resource n rq). length (LabelValues m) = 3 \<and> f64_ok (Value m)"
  by (cases rq) (simp add: container_resource_def Let_def, auto)

lemma wf_containers_resources [simp]: "valid_metrics (containers_resources rl cs)"
  using container_resource_values by (fastforce simp: containers_resources_def)

lemmas pod_family_defs =
  kube_pod_info_def kube_pod_start_time_def kube_pod_completion_time_def kube_pod_owner_def
  kube_pod_labels_def kube_pod_created_def kube_pod_deleted_def kube_pod_restart_policy_def
  kube_pod_status_scheduled_time_def kube_pod_status_unschedulable_def
  kube_pod_status_phase_def kube_pod_status_ready_def kube_pod_status_scheduled_def
  kube_pod_status_reason_def kube_pod_container_info_def kube_pod_init_container_info_def
  kube_pod_container_status_waiting_def kube_pod_init_container_status_waiting_def
  kube_pod_container_status_waiting_reason_def
  kube_pod_init_container_status_waiting_reason_def kube_pod_container_status_running_def
  kube_pod_init_container_status_running_def kube_pod_container_status_terminated_def
  kube_pod_init_container_status_terminated_def kube_pod_container_status_terminated_reason_def
  kube_pod_init_container_status_terminated_reason_def
  kube_pod_container_status_last_terminated_reason_def
  kube_pod_init_container_status_last_terminated_reason_def kube_pod_container_status_ready_def
  kube_pod_init_container_status_ready_def kube_pod_container_status_restarts_total_def
  kube_pod_init_container_status_restarts_total_def kube_pod_container_resource_requests_def
  kube_pod_container_resource_limits_def kube_pod_init_container_resource_limits_def
  kube_pod_spec_volumes_persistentvolumeclaims_info_def
  kube_pod_spec_volumes_persistentvolumeclaims_readonly_def

lemma overhead_resource_values: "\<forall>m \<in> set (overhead_resource rq). length (LabelValues m) = 2 \<and> f64_ok (Value m)"
  by (cases rq) (simp add: overhead_resource_def)

lemma wf_kube_pod_overhead: "valid_family (kube_pod_overhead x)"
  using overhead_resource_values by (fastforce simp: kube_pod_overhead_def)

lemma wf_pod_families:
  "valid_family (kube_pod_info x)" "valid_family (kube_pod_start_time x)"
  "valid_family (kube_pod_completion_time x)" "valid_family (kube_pod_owner x)"
  "valid_family (kube_pod_labels x)" "valid_family (kube_pod_created x)"
  "valid_family (kube_pod_deleted x)" "valid_family (kube_pod_restart_policy x)"
  "valid_family (kube_pod_status_scheduled_time x)" "valid_family (kube_pod_status_unschedulable x)"
  "valid_family (kube_pod_status_phase x)" "valid_family (kube_pod_status_ready x)"
  "valid_family (kube_pod_status_scheduled x)" "valid_family (kube_pod_status_reason x)"
  "valid_family (kube_pod_container_info x)" "valid_family (kube_pod_init_container_info x)"
  "valid_family (kube_pod_container_status_waiting x)"
  "valid_family (kube_pod_init_container_status_waiting x)"
  "valid_family (kube_pod_container_status_waiting_reason x)"
  "valid_family (kube_pod_init_container_status_waiting_reason x)"
  "valid_family (kube_pod_container_status_running x)"
  "valid_family (kube_pod_init_container_status_running x)"
  "valid_family (kube_pod_container_status_terminated x)"
  "valid_family (kube_pod_init_container_status_terminated x)"
  "valid_family (kube_pod_container_status_terminated_reason x)"
  "valid_family (kube_pod_init_container_status_terminated_reason x)"
  "valid_family (kube_pod_container_status_last_terminated_reason x)"
  "valid_family (kube_pod_init_container_status_last_terminated_reason x)"
  "valid_family (kube_pod_container_status_ready x)"
  "valid_family (kube_pod_init_container_status_ready x)"
  "valid_family (kube_pod_container_status_restarts_total x)"
  "valid_family (kube_pod_init_container_status_restarts_total x)"
  "valid_family (kube_pod_container_resource_requests x)"
  "valid_family (kube_pod_container_resource_limits x)"
  "valid_family (kube_pod_init_container_resource_limits x)"
  "valid_family (kube_pod_spec_volumes_persistentvolumeclaims_info x)"
  "valid_family (kube_pod_spec_volumes_persistentvolumeclaims_readonly x)"
  "valid_family (kube_pod_overhead x)"
  by (simp_all add: pod_family_defs Let_def wf_kube_pod_overhead split: option.split)

lemma wrapPodFunc_sound [wf_intros]:
  "valid_family (f p) \<Longrightarrow>
   gen_sound \<lparr>gen_Name = n, gen_Help = h, gen_Type = t, GenerateFunc = wrapPodFunc f\<rparr> (Pod_obj p)"
  by (simp add: gen_sound_def wrapPodFunc_def descPodLabelsDefaultLabels_def)

interpretation pod: resource_families podMetricFamilies Pod_obj "\<lambda>_. True"
proof
  show "distinct (map gen_Name podMetricFamilies)"
    unfolding podMetricFamilies_def list.map FamilyGenerator.simps by code_simp
  show "list_all (\<lambda>g. header_ok (gen_Name g) (gen_Help g) (gen_Type g)) podMetricFamilies"
    unfolding podMetricFamilies_def list.pred_inject FamilyGenerator.simps by code_simp
  show "list_all (\<lambda>g. gen_sound g (Pod_obj r)) podMetricFamilies" for r
    by (simp add: podMetricFamilies_def wrapPodFunc_sound wf_pod_families)
qed

subsection \<open>Properties\<close>

text \<open>
  The phase family is a one-hot encoding of the pod's phase: no metric when the phase is not set;
  otherwise five metrics, of which exactly the one labelled with the pod's phase is 1 and the others
  are 0, so that a phase outside the five known ones gives only zeros.
\<close>

lemma kube_pod_status_phase_one_hot:
  "Metrics (kube_pod_status_phase p) =
     (if pod_Phase (pod_Status p) = [] then []
      else map (\<lambda>n. metric [''phase''] [n] (Fin (if n = pod_Phase (pod_Status p) then 1 else 0)))
             [''Pending'', ''Succeeded'', ''Failed'', ''Unknown'', ''Running'']) \<and>
   length (filter (\<lambda>m. Value m = Fin 1) (Metrics (kube_pod_status_phase p))) =
     (if pod_Phase (pod_Status p) \<in> {''Pending'', ''Succeeded'', ''Failed'', ''Unknown'', ''Running''} then 1 else 0)"
  by (auto simp: kube_pod_status_phase_def Let_def boolFloat64_def)

text \<open>The finish times, in seconds, of the containers that have terminated.\<close>

definition finish_times :: "ContainerStatus list \<Rightarrow> int list" where
  "finish_times css =
     concat (map (\<lambda>cs. case Terminated (State cs) of None \<Rightarrow> [] | Some t \<Rightarrow> [Unix (FinishedAt t)]) css)"

lemma lastFinishTime_fold:
  assumes "\<forall>t \<in> set (finish_times css). 0 < t \<and> t < 2 ^ 53" "0 \<le> a" "a < 2 ^ 53"
  shows "foldl (\<lambda>l cs. case Terminated (State cs) of None \<Rightarrow> l
            | Some t \<Rightarrow> if f64_eq l (Fin 0) \<or> f64_less l (float64_of_int (Unix (FinishedAt t)))
                then float64_of_int (Unix (FinishedAt t)) else l) (Fin (of_int a)) css =
    Fin (of_int (Max (insert a (set (finish_times css)))))"
  using assms
proof (induction css arbitrary: a)
  case (Cons cs css)
  show ?case
  proof (cases "Terminated (State cs)")
    case None
    then show ?thesis using Cons by (simp add: finish_times_def)
  next
    case (Some t)
    let ?t = "Unix (FinishedAt t)"
    have t: "0 < ?t" "?t < 2 ^ 53" "float64_of_int ?t = Fin (of_int ?t)"
      using Cons.prems(1) Some by (auto simp: finish_times_def intro!: float64_of_int_exact)
    have "Max (insert (max a ?t) (set (finish_times css))) = Max (insert a (insert ?t (set (finish_times css))))"
      by (cases "set (finish_times css) = {}") (auto simp: max.assoc)
    then show ?thesis
      using Cons.IH[of "max a ?t"] Cons.prems Some t by (auto simp: finish_times_def max_def)
  qed
qed (simp add: finish_times_def)

text \<open>
  The completion time of a pod is the latest finish time of its terminated containers, and there
  is no such metric when none has terminated (for finish times after 1970 that a float64 can hold).
\<close>

lemma kube_pod_completion_time_latest:
  assumes "list_all (\<lambda>t. 0 < t \<and> t < 2 ^ 53) (finish_times (ContainerStatuses (pod_Status p)))"
  shows "Metrics (kube_pod_completion_time p) =
    (let ts = finish_times (ContainerStatuses (pod_Status p))
     in if ts = [] then [] else [metric [] [] (Fin (of_int (Max (set ts))))])"
proof -
  let ?ts = "finish_times (ContainerStatuses (pod_Status p))"
  have pos: "\<forall>t \<in> set ?ts. 0 < t \<and> t < 2 ^ 53" using assms by (simp add: list_all_iff)
  have last: "lastFinishTime (ContainerStatuses (pod_Status p)) = Fin (of_int (Max (insert 0 (set ?ts))))"
    using lastFinishTime_fold[OF pos, of 0] by (simp add: lastFinishTime_def)
  show ?thesis
  proof (cases "?ts = []")
    case False
    then have gt: "0 < Max (set ?ts)" using pos Max_in[of "set ?ts"] by simp
    then have "Max (insert 0 (set ?ts)) = Max (set ?ts)" using False by simp
    with gt show ?thesis using False last by (simp add: kube_pod_completion_time_def Let_def)
  qed (simp add: kube_pod_completion_time_def last Let_def)
qed

definition finished_container :: "string \<Rightarrow> int \<Rightarrow> ContainerStatus" where
  "finished_container n t =
     \<lparr>cs_Name = n,
      State = \<lparr>Waiting = None, Running = None,
        Terminated = Some \<lparr>terminated_Reason = ''Completed'', FinishedAt = \<lparr>unix_sec = t, nsec = 0\<rparr>\<rparr>\<rparr>,
      LastTerminationState = \<lparr>Waiting = None, Running = None, Terminated = None\<rparr>,
      Ready = False, RestartCount = 0, cs_Image = [], ImageID = [], ContainerID = []\<rparr>"

definition pod_of_containers :: "ContainerStatus list \<Rightarrow> Pod" where
  "pod_of_containers css =
     \<lparr>pod_ObjectMeta = empty_meta\<lparr>Name := ''p'', Namespace := ''d'', UID := ''u''\<rparr>,
      pod_Spec = \<lparr>Volumes = [], InitContainers = [], Containers = [], RestartPolicy = ''Never'', ps_NodeName = ''n'',
        PriorityClassName = [], Overhead = []\<rparr>,
      pod_Status = \<lparr>pod_Phase = ''Succeeded'', pod_Conditions = [], pod_Reason = [], HostIP = [], PodIP = [],
        pod_StartTime = None, InitContainerStatuses = [], ContainerStatuses = css\<rparr>\<rparr>"

lemma kube_pod_completion_time_latest_witness:
  "Metrics (kube_pod_completion_time (pod_of_containers [finished_container ''a'' 1501888018, finished_container ''b'' 1501777018])) =
   [metric [] [] (Fin 1501888018)]"
  using kube_pod_completion_time_latest
    [of "pod_of_containers [finished_container ''a'' 1501888018, finished_container ''b'' 1501777018]"]
  by (simp add: pod_of_containers_def finished_container_def finish_times_def Unix_def)

end
