(* ===== verification/Store_Node.thy ===== *)
theory Store_Node
  imports Store_Utils
begin

text \<open>
  \<open>internal/store/node.go\<close>: the metric families of a node. All of a node's quantities, bytes
  and counts included, go through \<open>MilliValue\<close>.
\<close>

definition descNodeLabelsDefaultLabels :: "string list" where
  "descNodeLabelsDefaultLabels = [''node'']"

definition kube_node_info :: "Node \<Rightarrow> Family" where
  "kube_node_info n =
     (let i = NodeInfo (node_Status n)
      in family [metric
           [''kernel_version'', ''os_image'', ''container_runtime_version'', ''kubelet_version'',
            ''kubeproxy_version'', ''provider_id'', ''pod_cidr'']
           [KernelVersion i, OSImage i, ContainerRuntimeVersion i, KubeletVersion i,
            KubeProxyVersion i, ProviderID (node_Spec n), PodCIDR (node_Spec n)]
           (Fin 1)])"

definition kube_node_created :: "Node \<Rightarrow> Family" where
  "kube_node_created n = family (created_metrics (node_ObjectMeta n))"

definition kube_node_labels :: "Node \<Rightarrow> Family" where
  "kube_node_labels n = family (labels_metrics (node_ObjectMeta n))"

definition kube_node_role :: "Node \<Rightarrow> Family" where
  "kube_node_role n =
     family (concat (map (\<lambda>(lbl, v).
        if HasPrefix lbl ''node-role.kubernetes.io/''
        then [metric [''role''] [TrimPrefix lbl ''node-role.kubernetes.io/''] (Fin 1)] else [])
        (Labels (node_ObjectMeta n))))"

definition kube_node_spec_unschedulable :: "Node \<Rightarrow> Family" where
  "kube_node_spec_unschedulable n = family [metric [] [] (boolFloat64 (Unschedulable (node_Spec n)))]"

definition kube_node_spec_taint :: "Node \<Rightarrow> Family" where
  "kube_node_spec_taint n =
     family (map (\<lambda>t. metric [''key'', ''value'', ''effect''] [taint_Key t, taint_Value t, Effect t] (Fin 1))
             (Taints (node_Spec n)))"

definition kube_node_status_condition :: "Node \<Rightarrow> Family" where
  "kube_node_status_condition n = family (condition_metrics (node_Conditions (node_Status n)))"

text \<open>The switch on the resource name, the same in both families below.\<close>

definition node_resource :: "string \<times> Quantity \<Rightarrow> Metric list" where
  "node_resource = (\<lambda>(resourceName, val).
     let m = (\<lambda>unit. metric [] [sanitizeLabelName resourceName, unit] (milli_float val)) in
     if resourceName = ''cpu'' then [m UnitCore]
     else if resourceName \<in> {''storage'', ''ephemeral-storage'', ''memory''} then [m UnitByte]
     else if resourceName = ''pods'' then [m UnitInteger]
     else (if isHugePageResourceName resourceName then [m UnitByte] else []) @
          (if isAttachableVolumeResourceName resourceName then [m UnitByte] else []) @
          (if isExtendedResourceName resourceName then [m UnitInteger] else []))"

definition kube_node_status_capacity :: "Node \<Rightarrow> Family" where
  "kube_node_status_capacity n =
     family (set_keys [''resource'', ''unit''] (concat (map node_resource (node_Capacity (node_Status n)))))"

definition kube_node_status_allocatable :: "Node \<Rightarrow> Family" where
  "kube_node_status_allocatable n =
     family (set_keys [''resource'', ''unit''] (concat (map node_resource (Allocatable (node_Status n)))))"

definition wrapNodeFunc :: "(Node \<Rightarrow> Family) \<Rightarrow> kobject \<Rightarrow> Family go" where
  "wrapNodeFunc f obj =
     (case obj of
        Node_obj node \<Rightarrow>
          Inr (add_default_labels descNodeLabelsDefaultLabels [Name (node_ObjectMeta node)] (f node))
      | _ \<Rightarrow> Inl Type_assertion)"

definition nodeMetricFamilies :: "kobject FamilyGenerator list" where
  "nodeMetricFamilies =
    [\<lparr>gen_Name = ''kube_node_info'',
       gen_Help = ''Information about a cluster node.'',
       gen_Type = Gauge, GenerateFunc = wrapNodeFunc kube_node_info\<rparr>,
     \<lparr>gen_Name = ''kube_node_created'',
       gen_Help = ''Unix creation timestamp'',
       gen_Type = Gauge, GenerateFunc = wrapNodeFunc kube_node_created\<rparr>,
     \<lparr>gen_Name = ''kube_node_labels'',
       gen_Help = ''Kubernetes labels converted to Prometheus labels.'',
       gen_Type = Gauge, GenerateFunc = wrapNodeFunc kube_node_labels\<rparr>,
     \<lparr>gen_Name = ''kube_node_role'',
       gen_Help = ''The role of a cluster node.'',
       gen_Type = Gauge, GenerateFunc = wrapNodeFunc kube_node_role\<rparr>,
     \<lparr>gen_Name = ''kube_node_spec_unschedulable'',
       gen_Help = ''Whether a node can schedule new pods.'',
       gen_Type = Gauge, GenerateFunc = wrapNodeFunc kube_node_spec_unschedulable\<rparr>,
     \<lparr>gen_Name = ''kube_node_spec_taint'',
       gen_Help = ''The taint of a cluster node.'',
       gen_Type = Gauge, GenerateFunc = wrapNodeFunc kube_node_spec_taint\<rparr>,
     \<lparr>gen_Name = ''kube_node_status_condition'',
       gen_Help = ''The condition of a cluster node.'',
       gen_Type = Gauge, GenerateFunc = wrapNodeFunc kube_node_status_condition\<rparr>,
     \<lparr>gen_Name = ''kube_node_status_capacity'',
       gen_Help = ''The capacity for different resources of a node.'',
       gen_Type = Gauge, GenerateFunc = wrapNodeFunc kube_node_status_capacity\<rparr>,
     \<lparr>gen_Name = ''kube_node_status_allocatable'',
       gen_Help = ''The allocatable for different resources of a node that are available for scheduling.'',
       gen_Type = Gauge, GenerateFunc = wrapNodeFunc kube_node_status_allocatable\<rparr>]"

subsection \<open>Properties\<close>

lemma node_resource_values: "\<forall>m \<in> set (node_resource rq). length (LabelValues m) = 2 \<and> f64_ok (Value m)"
  by (cases rq) (simp add: node_resource_def Let_def, auto)

lemma wf_node_resources [simp]:
  "valid_metrics (set_keys [''resource'', ''unit''] (concat (map node_resource rl)))"
  using node_resource_values by fastforce

lemmas node_family_defs =
  kube_node_info_def kube_node_created_def kube_node_labels_def kube_node_role_def
  kube_node_spec_unschedulable_def kube_node_spec_taint_def kube_node_status_condition_def
  kube_node_status_capacity_def kube_node_status_allocatable_def

lemma wf_node_families:
  "valid_family (kube_node_info x)" "valid_family (kube_node_created x)"
  "valid_family (kube_node_labels x)" "valid_family (kube_node_role x)"
  "valid_family (kube_node_spec_unschedulable x)" "valid_family (kube_node_spec_taint x)"
  "valid_family (kube_node_status_condition x)" "valid_family (kube_node_status_capacity x)"
  "valid_family (kube_node_status_allocatable x)"
  by (simp_all only: node_family_defs valid_family_lit wf_node_resources)
     (simp_all add: Let_def split: prod.split)

lemma wrapNodeFunc_sound [wf_intros]:
  "valid_family (f n) \<Longrightarrow>
   gen_sound \<lparr>gen_Name = nm, gen_Help = h, gen_Type = t, GenerateFunc = wrapNodeFunc f\<rparr> (Node_obj n)"
  by (simp add: gen_sound_def wrapNodeFunc_def descNodeLabelsDefaultLabels_def)

interpretation node: resource_families nodeMetricFamilies Node_obj "\<lambda>_. True"
proof
  show "distinct (map gen_Name nodeMetricFamilies)"
    unfolding nodeMetricFamilies_def list.map FamilyGenerator.simps by code_simp
  show "list_all (\<lambda>g. header_ok (gen_Name g) (gen_Help g) (gen_Type g)) nodeMetricFamilies"
    unfolding nodeMetricFamilies_def list.pred_inject FamilyGenerator.simps by code_simp
  show "list_all (\<lambda>g. gen_sound g (Node_obj r)) nodeMetricFamilies" for r
    by (simp add: nodeMetricFamilies_def wrapNodeFunc_sound wf_node_families)
qed

subsection \<open>Properties\<close>

lemma MilliValue_exact:
  assumes "\<bar>v\<bar> * 1000 < 2 ^ 53"
  shows "milli_float (Int64Amount v 0) = Fin (of_int v)"
proof -
  have "int64_ok (v * 1000)" "v \<noteq> - (2 ^ 63)" using assms by (auto simp: int64_ok_def)
  then have "MilliValue (Int64Amount v 0) = v * 1000"
    by (auto simp: MilliValue_def AsScaledInt64_def positiveScaleInt64_def int64MultiplyScale1000_def Let_def)
  moreover have "float64_of_int (v * 1000) = Fin (of_int (v * 1000))"
    using assms by (intro float64_of_int_exact) (simp add: abs_mult)
  moreover have "round_f64 (of_int v) = Fin (of_int v)"
    using assms by (intro round_f64_exact rep_f64_int) simp
  ultimately show ?thesis by (simp add: milli_float_def)
qed

definition node_of_capacity :: "ResourceList \<Rightarrow> Node" where
  "node_of_capacity rl =
     \<lparr>node_ObjectMeta = empty_meta\<lparr>Name := ''n''\<rparr>,
      node_Spec = \<lparr>PodCIDR = [], ProviderID = [], Unschedulable = False, Taints = []\<rparr>,
      node_Status = \<lparr>node_Capacity = rl, Allocatable = rl, node_Conditions = [],
        NodeInfo = \<lparr>KernelVersion = [], OSImage = [], ContainerRuntimeVersion = [], KubeletVersion = [], KubeProxyVersion = []\<rparr>\<rparr>\<rparr>"

lemma node_resource_memory: "node_resource (''memory'', q) = [metric [] [''memory'', ''byte''] (milli_float q)]"
proof -
  have "sanitizeLabelName ''memory'' = ''memory''" by code_simp
  then show ?thesis by (simp add: node_resource_def UnitByte_def)
qed

text \<open>
  A node's memory capacity in bytes is reported exactly while a thousand times the value still
  fits the 53 bits of a float64 (about nine terabytes).
\<close>

lemma kube_node_status_capacity_memory:
  assumes "node_Capacity (node_Status n) = [(''memory'', Int64Amount v 0)]" "\<bar>v\<bar> * 1000 < 2 ^ 53"
  shows "Metrics (kube_node_status_capacity n) = [metric [''resource'', ''unit''] [''memory'', ''byte''] (Fin (of_int v))]"
  using assms by (simp add: kube_node_status_capacity_def set_keys_def node_resource_memory MilliValue_exact)

text \<open>Bytes go through \<open>MilliValue\<close> as well: a node with ten pebibytes has a negative capacity.\<close>

lemma node_capacity_overflow:
  "Metrics (kube_node_status_capacity (node_of_capacity [(''memory'', Int64Amount (10 * 2 ^ 50) 0)])) =
   [metric [''resource'', ''unit''] [''memory'', ''byte''] (Fin (- 7187745005283312))]"
proof -
  have "milli_float (Int64Amount (10 * 2 ^ 50) 0) = Fin (- 7187745005283312)" by code_simp
  then show ?thesis
    by (simp add: kube_node_status_capacity_def node_of_capacity_def set_keys_def node_resource_memory)
qed

end
