(* ===== verification/Store_Workloads.thy ===== *)
theory Store_Workloads
  imports Store_Utils
begin

text \<open>
  \<open>internal/store/{deployment,daemonset,replicaset,replicationcontroller,statefulset}.go\<close>: the
  families of the workload resources. Only a deployment's generators can panic.
\<close>

subsection \<open>daemonset.go\<close>

definition descDaemonSetLabelsDefaultLabels :: "string list" where
  "descDaemonSetLabelsDefaultLabels = [''namespace'', ''daemonset'']"

definition kube_daemonset_created :: "DaemonSet \<Rightarrow> Family" where
  "kube_daemonset_created x = family (created_metrics (ds_ObjectMeta x))"

definition kube_daemonset_status_current_number_scheduled :: "DaemonSet \<Rightarrow> Family" where
  "kube_daemonset_status_current_number_scheduled x =
     family ([int_metric (CurrentNumberScheduled (ds_Status x))])"

definition kube_daemonset_status_desired_number_scheduled :: "DaemonSet \<Rightarrow> Family" where
  "kube_daemonset_status_desired_number_scheduled x =
     family ([int_metric (DesiredNumberScheduled (ds_Status x))])"

definition kube_daemonset_status_number_available :: "DaemonSet \<Rightarrow> Family" where
  "kube_daemonset_status_number_available x = family ([int_metric (NumberAvailable (ds_Status x))])"

definition kube_daemonset_status_number_misscheduled :: "DaemonSet \<Rightarrow> Family" where
  "kube_daemonset_status_number_misscheduled x = family ([int_metric (NumberMisscheduled (ds_Status x))])"

definition kube_daemonset_status_number_ready :: "DaemonSet \<Rightarrow> Family" where
  "kube_daemonset_status_number_ready x = family ([int_metric (NumberReady (ds_Status x))])"

definition kube_daemonset_status_number_unavailable :: "DaemonSet \<Rightarrow> Family" where
  "kube_daemonset_status_number_unavailable x = family ([int_metric (NumberUnavailable (ds_Status x))])"

definition kube_daemonset_updated_number_scheduled :: "DaemonSet \<Rightarrow> Family" where
  "kube_daemonset_updated_number_scheduled x = family ([int_metric (UpdatedNumberScheduled (ds_Status x))])"

definition kube_daemonset_metadata_generation :: "DaemonSet \<Rightarrow> Family" where
  "kube_daemonset_metadata_generation x = family ([int_metric (Generation (ds_ObjectMeta x))])"

definition kube_daemonset_labels :: "DaemonSet \<Rightarrow> Family" where
  "kube_daemonset_labels x = family (labels_metrics (ds_ObjectMeta x))"

definition wrapDaemonSetFunc :: "(DaemonSet \<Rightarrow> Family) \<Rightarrow> kobject \<Rightarrow> Family go" where
  "wrapDaemonSetFunc f obj =
     (case obj of
        DaemonSet_obj x \<Rightarrow>
          Inr (add_default_labels descDaemonSetLabelsDefaultLabels [Namespace (ds_ObjectMeta x), Name (ds_ObjectMeta x)] (f x))
      | _ \<Rightarrow> Inl Type_assertion)"

definition daemonSetMetricFamilies :: "kobject FamilyGenerator list" where
  "daemonSetMetricFamilies =
    [\<lparr>gen_Name = ''kube_daemonset_created'',
       gen_Help = ''Unix creation timestamp'',
       gen_Type = Gauge, GenerateFunc = wrapDaemonSetFunc kube_daemonset_created\<rparr>,
     \<lparr>gen_Name = ''kube_daemonset_status_current_number_scheduled'',
       gen_Help = ''The number of nodes running at least one daemon pod and are supposed to.'',
       gen_Type = Gauge, GenerateFunc = wrapDaemonSetFunc kube_daemonset_status_current_number_scheduled\<rparr>,
     \<lparr>gen_Name = ''kube_daemonset_status_desired_number_scheduled'',
       gen_Help = ''The number of nodes that should be running the daemon pod.'',
       gen_Type = Gauge, GenerateFunc = wrapDaemonSetFunc kube_daemonset_status_desired_number_scheduled\<rparr>,
     \<lparr>gen_Name = ''kube_daemonset_status_number_available'',
       gen_Help = ''The number of nodes that should be running the daemon pod and have one or more of the daemon pod running and available'',
       gen_Type = Gauge, GenerateFunc = wrapDaemonSetFunc kube_daemonset_status_number_available\<rparr>,
     \<lparr>gen_Name = ''kube_daemonset_status_number_misscheduled'',
       gen_Help = ''The number of nodes running a daemon pod but are not supposed to.'',
       gen_Type = Gauge, GenerateFunc = wrapDaemonSetFunc kube_daemonset_status_number_misscheduled\<rparr>,
     \<lparr>gen_Name = ''kube_daemonset_status_number_ready'',
       gen_Help = ''The number of nodes that should be running the daemon pod and have one or more of the daemon pod running and ready.'',
       gen_Type = Gauge, GenerateFunc = wrapDaemonSetFunc kube_daemonset_status_number_ready\<rparr>,
     \<lparr>gen_Name = ''kube_daemonset_status_number_unavailable'',
       gen_Help = ''The number of nodes that should be running the daemon pod and have none of the daemon pod running and available'',
       gen_Type = Gauge, GenerateFunc = wrapDaemonSetFunc kube_daemonset_status_number_unavailable\<rparr>,
     \<lparr>gen_Name = ''kube_daemonset_updated_number_scheduled'',
       gen_Help = ''The total number of nodes that are running updated daemon pod'',
       gen_Type = Gauge, GenerateFunc = wrapDaemonSetFunc kube_daemonset_updated_number_scheduled\<rparr>,
     \<lparr>gen_Name = ''kube_daemonset_metadata_generation'',
       gen_Help = ''Sequence number representing a specific generation of the desired state.'',
       gen_Type = Gauge, GenerateFunc = wrapDaemonSetFunc kube_daemonset_metadata_generation\<rparr>,
     \<lparr>gen_Name = ''kube_daemonset_labels'',
       gen_Help = ''Kubernetes labels converted to Prometheus labels.'',
       gen_Type = Gauge, GenerateFunc = wrapDaemonSetFunc kube_daemonset_labels\<rparr>]"

lemmas daemonset_family_defs =
  kube_daemonset_created_def kube_daemonset_status_current_number_scheduled_def
  kube_daemonset_status_desired_number_scheduled_def kube_daemonset_status_number_available_def
  kube_daemonset_status_number_misscheduled_def kube_daemonset_status_number_ready_def
  kube_daemonset_status_number_unavailable_def kube_daemonset_updated_number_scheduled_def
  kube_daemonset_metadata_generation_def kube_daemonset_labels_def

lemma wf_daemonset_families:
  "valid_family (kube_daemonset_created x)"
  "valid_family (kube_daemonset_status_current_number_scheduled x)"
  "valid_family (kube_daemonset_status_desired_number_scheduled x)"
  "valid_family (kube_daemonset_status_number_available x)"
  "valid_family (kube_daemonset_status_number_misscheduled x)"
  "valid_family (kube_daemonset_status_number_ready x)"
  "valid_family (kube_daemonset_status_number_unavailable x)"
  "valid_family (kube_daemonset_updated_number_scheduled x)"
  "valid_family (kube_daemonset_metadata_generation x)" "valid_family (kube_daemonset_labels x)"
  by (simp_all add: daemonset_family_defs Let_def split: option.split prod.split)

lemma wrapDaemonSetFunc_sound [wf_intros]:
  "valid_family (f x) \<Longrightarrow>
   gen_sound \<lparr>gen_Name = n, gen_Help = h, gen_Type = t, GenerateFunc = wrapDaemonSetFunc f\<rparr> (DaemonSet_obj x)"
  by (simp add: gen_sound_def wrapDaemonSetFunc_def descDaemonSetLabelsDefaultLabels_def)

interpretation daemonset: resource_families daemonSetMetricFamilies DaemonSet_obj "\<lambda>_. True"
proof
  show "distinct (map gen_Name daemonSetMetricFamilies)"
    unfolding daemonSetMetricFamilies_def list.map FamilyGenerator.simps by code_simp
  show "list_all (\<lambda>g. header_ok (gen_Name g) (gen_Help g) (gen_Type g)) daemonSetMetricFamilies"
    unfolding daemonSetMetricFamilies_def list.pred_inject FamilyGenerator.simps by code_simp
  show "list_all (\<lambda>g. gen_sound g (DaemonSet_obj r)) daemonSetMetricFamilies" for r
    by (simp add: daemonSetMetricFamilies_def wrapDaemonSetFunc_sound wf_daemonset_families)
qed

subsection \<open>replicaset.go\<close>

definition descReplicaSetLabelsDefaultLabels :: "string list" where
  "descReplicaSetLabelsDefaultLabels = [''namespace'', ''replicaset'']"

definition kube_replicaset_created :: "ReplicaSet \<Rightarrow> Family" where
  "kube_replicaset_created x = family (created_metrics (rs_ObjectMeta x))"

definition kube_replicaset_status_replicas :: "ReplicaSet \<Rightarrow> Family" where
  "kube_replicaset_status_replicas x = family ([int_metric (rs_Replicas x)])"

definition kube_replicaset_status_fully_labeled_replicas :: "ReplicaSet \<Rightarrow> Family" where
  "kube_replicaset_status_fully_labeled_replicas x = family ([int_metric (rs_FullyLabeledReplicas x)])"

definition kube_replicaset_status_ready_replicas :: "ReplicaSet \<Rightarrow> Family" where
  "kube_replicaset_status_ready_replicas x = family ([int_metric (rs_ReadyReplicas x)])"

definition kube_replicaset_status_observed_generation :: "ReplicaSet \<Rightarrow> Family" where
  "kube_replicaset_status_observed_generation x = family ([int_metric (rs_ObservedGeneration x)])"

definition kube_replicaset_spec_replicas :: "ReplicaSet \<Rightarrow> Family" where
  "kube_replicaset_spec_replicas x = family (opt_int_metrics (rs_Spec_Replicas x))"

definition kube_replicaset_metadata_generation :: "ReplicaSet \<Rightarrow> Family" where
  "kube_replicaset_metadata_generation x = family ([int_metric (Generation (rs_ObjectMeta x))])"

definition kube_replicaset_owner :: "ReplicaSet \<Rightarrow> Family" where
  "kube_replicaset_owner x = family (owner_metrics (OwnerReferences (rs_ObjectMeta x)))"

definition kube_replicaset_labels :: "ReplicaSet \<Rightarrow> Family" where
  "kube_replicaset_labels x = family (labels_metrics (rs_ObjectMeta x))"

definition wrapReplicaSetFunc :: "(ReplicaSet \<Rightarrow> Family) \<Rightarrow> kobject \<Rightarrow> Family go" where
  "wrapReplicaSetFunc f obj =
     (case obj of
        ReplicaSet_obj x \<Rightarrow>
          Inr (add_default_labels descReplicaSetLabelsDefaultLabels [Namespace (rs_ObjectMeta x), Name (rs_ObjectMeta x)] (f x))
      | _ \<Rightarrow> Inl Type_assertion)"

definition replicaSetMetricFamilies :: "kobject FamilyGenerator list" where
  "replicaSetMetricFamilies =
    [\<lparr>gen_Name = ''kube_replicaset_created'',
       gen_Help = ''Unix creation timestamp'',
       gen_Type = Gauge, GenerateFunc = wrapReplicaSetFunc kube_replicaset_created\<rparr>,
     \<lparr>gen_Name = ''kube_replicaset_status_replicas'',
       gen_Help = ''The number of replicas per ReplicaSet.'',
       gen_Type = Gauge, GenerateFunc = wrapReplicaSetFunc kube_replicaset_status_replicas\<rparr>,
     \<lparr>gen_Name = ''kube_replicaset_status_fully_labeled_replicas'',
       gen_Help = ''The number of fully labeled replicas per ReplicaSet.'',
       gen_Type = Gauge, GenerateFunc = wrapReplicaSetFunc kube_replicaset_status_fully_labeled_replicas\<rparr>,
     \<lparr>gen_Name = ''kube_replicaset_status_ready_replicas'',
       gen_Help = ''The number of ready replicas per ReplicaSet.'',
       gen_Type = Gauge, GenerateFunc = wrapReplicaSetFunc kube_replicaset_status_ready_replicas\<rparr>,
     \<lparr>gen_Name = ''kube_replicaset_status_observed_generation'',
       gen_Help = ''The generation observed by the ReplicaSet controller.'',
       gen_Type = Gauge, GenerateFunc = wrapReplicaSetFunc kube_replicaset_status_observed_generation\<rparr>,
     \<lparr>gen_Name = ''kube_replicaset_spec_replicas'',
       gen_Help = ''Number of desired pods for a ReplicaSet.'',
       gen_Type = Gauge, GenerateFunc = wrapReplicaSetFunc kube_replicaset_spec_replicas\<rparr>,
     \<lparr>gen_Name = ''kube_replicaset_metadata_generation'',
       gen_Help = ''Sequence number representing a specific generation of the desired state.'',
       gen_Type = Gauge, GenerateFunc = wrapReplicaSetFunc kube_replicaset_metadata_generation\<rparr>,
     \<lparr>gen_Name = ''kube_replicaset_owner'',
       gen_Help = ''Information about the ReplicaSet's owner.'',
       gen_Type = Gauge, GenerateFunc = wrapReplicaSetFunc kube_replicaset_owner\<rparr>,
     \<lparr>gen_Name = ''kube_replicaset_labels'',
       gen_Help = ''Kubernetes labels converted to Prometheus labels.'',
       gen_Type = Gauge, GenerateFunc = wrapReplicaSetFunc kube_replicaset_labels\<rparr>]"

lemmas replicaset_family_defs =
  kube_replicaset_created_def kube_replicaset_status_replicas_def
  kube_replicaset_status_fully_labeled_replicas_def kube_replicaset_status_ready_replicas_def
  kube_replicaset_status_observed_generation_def kube_replicaset_spec_replicas_def
  kube_replicaset_metadata_generation_def kube_replicaset_owner_def kube_replicaset_labels_def

lemma wf_replicaset_families:
  "valid_family (kube_replicaset_created x)" "valid_family (kube_replicaset_status_replicas x)"
  "valid_family (kube_replicaset_status_fully_labeled_replicas x)"
  "valid_family (kube_replicaset_status_ready_replicas x)"
  "valid_family (kube_replicaset_status_observed_generation x)"
  "valid_family (kube_replicaset_spec_replicas x)"
  "valid_family (kube_replicaset_metadata_generation x)" "valid_family (kube_replicaset_owner x)"
  "valid_family (kube_replicaset_labels x)"
  by (simp_all add: replicaset_family_defs Let_def split: option.split prod.split)

lemma wrapReplicaSetFunc_sound [wf_intros]:
  "valid_family (f x) \<Longrightarrow>
   gen_sound \<lparr>gen_Name = n, gen_Help = h, gen_Type = t, GenerateFunc = wrapReplicaSetFunc f\<rparr> (ReplicaSet_obj x)"
  by (simp add: gen_sound_def wrapReplicaSetFunc_def descReplicaSetLabelsDefaultLabels_def)

interpretation replicaset: resource_families replicaSetMetricFamilies ReplicaSet_obj "\<lambda>_. True"
proof
  show "distinct (map gen_Name replicaSetMetricFamilies)"
    unfolding replicaSetMetricFamilies_def list.map FamilyGenerator.simps by code_simp
  show "list_all (\<lambda>g. header_ok (gen_Name g) (gen_Help g) (gen_Type g)) replicaSetMetricFamilies"
    unfolding replicaSetMetricFamilies_def list.pred_inject FamilyGenerator.simps by code_simp
  show "list_all (\<lambda>g. gen_sound g (ReplicaSet_obj r)) replicaSetMetricFamilies" for r
    by (simp add: replicaSetMetricFamilies_def wrapReplicaSetFunc_sound wf_replicaset_families)
qed

subsection \<open>replicationcontroller.go\<close>

definition descReplicationControllerLabelsDefaultLabels :: "string list" where
  "descReplicationControllerLabelsDefaultLabels = [''namespace'', ''replicationcontroller'']"

definition kube_replicationcontroller_created :: "ReplicationController \<Rightarrow> Family" where
  "kube_replicationcontroller_created x = family (created_metrics (rc_ObjectMeta x))"

definition kube_replicationcontroller_status_replicas :: "ReplicationController \<Rightarrow> Family" where
  "kube_replicationcontroller_status_replicas x = family ([int_metric (rc_Replicas x)])"

definition kube_replicationcontroller_status_fully_labeled_replicas :: "ReplicationController \<Rightarrow> Family" where
  "kube_replicationcontroller_status_fully_labeled_replicas x =
     family ([int_metric (rc_FullyLabeledReplicas x)])"

definition kube_replicationcontroller_status_ready_replicas :: "ReplicationController \<Rightarrow> Family" where
  "kube_replicationcontroller_status_ready_replicas x = family ([int_metric (rc_ReadyReplicas x)])"

definition kube_replicationcontroller_status_available_replicas :: "ReplicationController \<Rightarrow> Family" where
  "kube_replicationcontroller_status_available_replicas x = family ([int_metric (rc_AvailableReplicas x)])"

definition kube_replicationcontroller_status_observed_generation :: "ReplicationController \<Rightarrow> Family" where
  "kube_replicationcontroller_status_observed_generation x =
     family ([int_metric (rc_ObservedGeneration x)])"

definition kube_replicationcontroller_spec_replicas :: "ReplicationController \<Rightarrow> Family" where
  "kube_replicationcontroller_spec_replicas x = family (opt_int_metrics (rc_Spec_Replicas x))"

definition kube_replicationcontroller_metadata_generation :: "ReplicationController \<Rightarrow> Family" where
  "kube_replicationcontroller_metadata_generation x = family ([int_metric (Generation (rc_ObjectMeta x))])"

definition kube_replicationcontroller_owner :: "ReplicationController \<Rightarrow> Family" where
  "kube_replicationcontroller_owner x = family (owner_metrics (OwnerReferences (rc_ObjectMeta x)))"

definition wrapReplicationControllerFunc :: "(ReplicationController \<Rightarrow> Family) \<Rightarrow> kobject \<Rightarrow> Family go" where
  "wrapReplicationControllerFunc f obj =
     (case obj of
        ReplicationController_obj x \<Rightarrow>
          Inr (add_default_labels descReplicationControllerLabelsDefaultLabels [Namespace (rc_ObjectMeta x), Name (rc_ObjectMeta x)] (f x))
      | _ \<Rightarrow> Inl Type_assertion)"

definition replicationControllerMetricFamilies :: "kobject FamilyGenerator list" where
  "replicationControllerMetricFamilies =
    [\<lparr>gen_Name = ''kube_replicationcontroller_created'',
       gen_Help = ''Unix creation timestamp'',
       gen_Type = Gauge, GenerateFunc = wrapReplicationControllerFunc kube_replicationcontroller_created\<rparr>,
     \<lparr>gen_Name = ''kube_replicationcontroller_status_replicas'',
       gen_Help = ''The number of replicas per ReplicationController.'',
       gen_Type = Gauge, GenerateFunc = wrapReplicationControllerFunc kube_replicationcontroller_status_replicas\<rparr>,
     \<lparr>gen_Name = ''kube_replicationcontroller_status_fully_labeled_replicas'',
       gen_Help = ''The number of fully labeled replicas per ReplicationController.'',
       gen_Type = Gauge, GenerateFunc = wrapReplicationControllerFunc kube_replicationcontroller_status_fully_labeled_replicas\<rparr>,
     \<lparr>gen_Name = ''kube_replicationcontroller_status_ready_replicas'',
       gen_Help = ''The number of ready replicas per ReplicationController.'',
       gen_Type = Gauge, GenerateFunc = wrapReplicationControllerFunc kube_replicationcontroller_status_ready_replicas\<rparr>,
     \<lparr>gen_Name = ''kube_replicationcontroller_status_available_replicas'',
       gen_Help = ''The number of available replicas per ReplicationController.'',
       gen_Type = Gauge, GenerateFunc = wrapReplicationControllerFunc kube_replicationcontroller_status_available_replicas\<rparr>,
     \<lparr>gen_Name = ''kube_replicationcontroller_status_observed_generation'',
       gen_Help = ''The generation observed by the ReplicationController controller.'',
       gen_Type = Gauge, GenerateFunc = wrapReplicationControllerFunc kube_replicationcontroller_status_observed_generation\<rparr>,
     \<lparr>gen_Name = ''kube_replicationcontroller_spec_replicas'',
       gen_Help = ''Number of desired pods for a ReplicationController.'',
       gen_Type = Gauge, GenerateFunc = wrapReplicationControllerFunc kube_replicationcontroller_spec_replicas\<rparr>,
     \<lparr>gen_Name = ''kube_replicationcontroller_metadata_generation'',
       gen_Help = ''Sequence number representing a specific generation of the desired state.'',
       gen_Type = Gauge, GenerateFunc = wrapReplicationControllerFunc kube_replicationcontroller_metadata_generation\<rparr>,
     \<lparr>gen_Name = ''kube_replicationcontroller_owner'',
       gen_Help = ''Information about the ReplicationController's owner.'',
       gen_Type = Gauge, GenerateFunc = wrapReplicationControllerFunc kube_replicationcontroller_owner\<rparr>]"

lemmas replicationcontroller_family_defs =
  kube_replicationcontroller_created_def kube_replicationcontroller_status_replicas_def
  kube_replicationcontroller_status_fully_labeled_replicas_def
  kube_replicationcontroller_status_ready_replicas_def
  kube_replicationcontroller_status_available_replicas_def
  kube_replicationcontroller_status_observed_generation_def
  kube_replicationcontroller_spec_replicas_def
  kube_replicationcontroller_metadata_generation_def kube_replicationcontroller_owner_def

lemma wf_replicationcontroller_families:
  "valid_family (kube_replicationcontroller_created x)"
  "valid_family (kube_replicationcontroller_status_replicas x)"
  "valid_family (kube_replicationcontroller_status_fully_labeled_replicas x)"
  "valid_family (kube_replicationcontroller_status_ready_replicas x)"
  "valid_family (kube_replicationcontroller_status_available_replicas x)"
  "valid_family (kube_replicationcontroller_status_observed_generation x)"
  "valid_family (kube_replicationcontroller_spec_replicas x)"
  "valid_family (kube_replicationcontroller_metadata_generation x)"
  "valid_family (kube_replicationcontroller_owner x)"
  by (simp_all add: replicationcontroller_family_defs Let_def split: option.split prod.split)

lemma wrapReplicationControllerFunc_sound [wf_intros]:
  "valid_family (f x) \<Longrightarrow>
   gen_sound \<lparr>gen_Name = n, gen_Help = h, gen_Type = t, GenerateFunc = wrapReplicationControllerFunc f\<rparr> (ReplicationController_obj x)"
  by (simp add: gen_sound_def wrapReplicationControllerFunc_def descReplicationControllerLabelsDefaultLabels_def)

interpretation replicationcontroller: resource_families replicationControllerMetricFamilies ReplicationController_obj "\<lambda>_. True"
proof
  show "distinct (map gen_Name replicationControllerMetricFamilies)"
    unfolding replicationControllerMetricFamilies_def list.map FamilyGenerator.simps by code_simp
  show "list_all (\<lambda>g. header_ok (gen_Name g) (gen_Help g) (gen_Type g)) replicationControllerMetricFamilies"
    unfolding replicationControllerMetricFamilies_def list.pred_inject FamilyGenerator.simps by code_simp
  show "list_all (\<lambda>g. gen_sound g (ReplicationController_obj r)) replicationControllerMetricFamilies" for r
    by (simp add: replicationControllerMetricFamilies_def wrapReplicationControllerFunc_sound wf_replicationcontroller_families)
qed

subsection \<open>statefulset.go\<close>

definition descStatefulSetLabelsDefaultLabels :: "string list" where
  "descStatefulSetLabelsDefaultLabels = [''namespace'', ''statefulset'']"

definition kube_statefulset_created :: "StatefulSet \<Rightarrow> Family" where
  "kube_statefulset_created x = family (created_metrics (sts_ObjectMeta x))"

definition kube_statefulset_status_replicas :: "StatefulSet \<Rightarrow> Family" where
  "kube_statefulset_status_replicas x = family ([int_metric (sts_Replicas (sts_Status x))])"

definition kube_statefulset_status_replicas_current :: "StatefulSet \<Rightarrow> Family" where
  "kube_statefulset_status_replicas_current x = family ([int_metric (CurrentReplicas (sts_Status x))])"

definition kube_statefulset_status_replicas_ready :: "StatefulSet \<Rightarrow> Family" where
  "kube_statefulset_status_replicas_ready x = family ([int_metric (sts_ReadyReplicas (sts_Status x))])"

definition kube_statefulset_status_replicas_updated :: "StatefulSet \<Rightarrow> Family" where
  "kube_statefulset_status_replicas_updated x = family ([int_metric (sts_UpdatedReplicas (sts_Status x))])"

definition kube_statefulset_status_observed_generation :: "StatefulSet \<Rightarrow> Family" where
  "kube_statefulset_status_observed_generation x =
     family ([int_metric (sts_ObservedGeneration (sts_Status x))])"

definition kube_statefulset_replicas :: "StatefulSet \<Rightarrow> Family" where
  "kube_statefulset_replicas x = family (opt_int_metrics (sts_Spec_Replicas x))"

definition kube_statefulset_metadata_generation :: "StatefulSet \<Rightarrow> Family" where
  "kube_statefulset_metadata_generation x = family ([int_metric (Generation (sts_ObjectMeta x))])"

definition kube_statefulset_labels :: "StatefulSet \<Rightarrow> Family" where
  "kube_statefulset_labels x = family (labels_metrics (sts_ObjectMeta x))"

definition kube_statefulset_status_current_revision :: "StatefulSet \<Rightarrow> Family" where
  "kube_statefulset_status_current_revision x =
     family ([metric [''revision''] [CurrentRevision (sts_Status x)] (Fin 1)])"

definition kube_statefulset_status_update_revision :: "StatefulSet \<Rightarrow> Family" where
  "kube_statefulset_status_update_revision x =
     family ([metric [''revision''] [UpdateRevision (sts_Status x)] (Fin 1)])"

definition wrapStatefulSetFunc :: "(StatefulSet \<Rightarrow> Family) \<Rightarrow> kobject \<Rightarrow> Family go" where
  "wrapStatefulSetFunc f obj =
     (case obj of
        StatefulSet_obj x \<Rightarrow>
          Inr (add_default_labels descStatefulSetLabelsDefaultLabels [Namespace (sts_ObjectMeta x), Name (sts_ObjectMeta x)] (f x))
      | _ \<Rightarrow> Inl Type_assertion)"

definition statefulSetMetricFamilies :: "kobject FamilyGenerator list" where
  "statefulSetMetricFamilies =
    [\<lparr>gen_Name = ''kube_statefulset_created'',
       gen_Help = ''Unix creation timestamp'',
       gen_Type = Gauge, GenerateFunc = wrapStatefulSetFunc kube_statefulset_created\<rparr>,
     \<lparr>gen_Name = ''kube_statefulset_status_replicas'',
       gen_Help = ''The number of replicas per StatefulSet.'',
       gen_Type = Gauge, GenerateFunc = wrapStatefulSetFunc kube_statefulset_status_replicas\<rparr>,
     \<lparr>gen_Name = ''kube_statefulset_status_replicas_current'',
       gen_Help = ''The number of current replicas per StatefulSet.'',
       gen_Type = Gauge, GenerateFunc = wrapStatefulSetFunc kube_statefulset_status_replicas_current\<rparr>,
     \<lparr>gen_Name = ''kube_statefulset_status_replicas_ready'',
       gen_Help = ''The number of ready replicas per StatefulSet.'',
       gen_Type = Gauge, GenerateFunc = wrapStatefulSetFunc kube_statefulset_status_replicas_ready\<rparr>,
     \<lparr>gen_Name = ''kube_statefulset_status_replicas_updated'',
       gen_Help = ''The number of updated replicas per StatefulSet.'',
       gen_Type = Gauge, GenerateFunc = wrapStatefulSetFunc kube_statefulset_status_replicas_updated\<rparr>,
     \<lparr>gen_Name = ''kube_statefulset_status_observed_generation'',
       gen_Help = ''The generation observed by the StatefulSet controller.'',
       gen_Type = Gauge, GenerateFunc = wrapStatefulSetFunc kube_statefulset_status_observed_generation\<rparr>,
     \<lparr>gen_Name = ''kube_statefulset_replicas'',
       gen_Help = ''Number of desired pods for a StatefulSet.'',
       gen_Type = Gauge, GenerateFunc = wrapStatefulSetFunc kube_statefulset_replicas\<rparr>,
     \<lparr>gen_Name = ''kube_statefulset_metadata_generation'',
       gen_Help = ''Sequence number representing a specific generation of the desired state for the StatefulSet.'',
       gen_Type = Gauge, GenerateFunc = wrapStatefulSetFunc kube_statefulset_metadata_generation\<rparr>,
     \<lparr>gen_Name = ''kube_statefulset_labels'',
       gen_Help = ''Kubernetes labels converted to Prometheus labels.'',
       gen_Type = Gauge, GenerateFunc = wrapStatefulSetFunc kube_statefulset_labels\<rparr>,
     \<lparr>gen_Name = ''kube_statefulset_status_current_revision'',
       gen_Help = ''Indicates the version of the StatefulSet used to generate Pods in the sequence [0,currentReplicas).'',
       gen_Type = Gauge, GenerateFunc = wrapStatefulSetFunc kube_statefulset_status_current_revision\<rparr>,
     \<lparr>gen_Name = ''kube_statefulset_status_update_revision'',
       gen_Help = ''Indicates the version of the StatefulSet used to generate Pods in the sequence [replicas-updatedReplicas,replicas)'',
       gen_Type = Gauge, GenerateFunc = wrapStatefulSetFunc kube_statefulset_status_update_revision\<rparr>]"

lemmas statefulset_family_defs =
  kube_statefulset_created_def kube_statefulset_status_replicas_def
  kube_statefulset_status_replicas_current_def kube_statefulset_status_replicas_ready_def
  kube_statefulset_status_replicas_updated_def kube_statefulset_status_observed_generation_def
  kube_statefulset_replicas_def kube_statefulset_metadata_generation_def
  kube_statefulset_labels_def kube_statefulset_status_current_revision_def
  kube_statefulset_status_update_revision_def

lemma wf_statefulset_families:
  "valid_family (kube_statefulset_created x)" "valid_family (kube_statefulset_status_replicas x)"
  "valid_family (kube_statefulset_status_replicas_current x)"
  "valid_family (kube_statefulset_status_replicas_ready x)"
  "valid_family (kube_statefulset_status_replicas_updated x)"
  "valid_family (kube_statefulset_status_observed_generation x)"
  "valid_family (kube_statefulset_replicas x)"
  "valid_family (kube_statefulset_metadata_generation x)" "valid_family (kube_statefulset_labels x)"
  "valid_family (kube_statefulset_status_current_revision x)"
  "valid_family (kube_statefulset_status_update_revision x)"
  by (simp_all add: statefulset_family_defs Let_def split: option.split prod.split)

lemma wrapStatefulSetFunc_sound [wf_intros]:
  "valid_family (f x) \<Longrightarrow>
   gen_sound \<lparr>gen_Name = n, gen_Help = h, gen_Type = t, GenerateFunc = wrapStatefulSetFunc f\<rparr> (StatefulSet_obj x)"
  by (simp add: gen_sound_def wrapStatefulSetFunc_def descStatefulSetLabelsDefaultLabels_def)

interpretation statefulset: resource_families statefulSetMetricFamilies StatefulSet_obj "\<lambda>_. True"
proof
  show "distinct (map gen_Name statefulSetMetricFamilies)"
    unfolding statefulSetMetricFamilies_def list.map FamilyGenerator.simps by code_simp
  show "list_all (\<lambda>g. header_ok (gen_Name g) (gen_Help g) (gen_Type g)) statefulSetMetricFamilies"
    unfolding statefulSetMetricFamilies_def list.pred_inject FamilyGenerator.simps by code_simp
  show "list_all (\<lambda>g. gen_sound g (StatefulSet_obj r)) statefulSetMetricFamilies" for r
    by (simp add: statefulSetMetricFamilies_def wrapStatefulSetFunc_sound wf_statefulset_families)
qed

subsection \<open>deployment.go\<close>

definition descDeploymentLabelsDefaultLabels :: "string list" where
  "descDeploymentLabelsDefaultLabels = [''namespace'', ''deployment'']"

definition kube_deployment_created :: "Deployment \<Rightarrow> Family go" where
  "kube_deployment_created d = Inr (family (created_metrics (dep_ObjectMeta d)))"

definition kube_deployment_status_replicas :: "Deployment \<Rightarrow> Family go" where
  "kube_deployment_status_replicas d = Inr (family ([int_metric (dep_Replicas (dep_Status d))]))"

definition kube_deployment_status_replicas_available :: "Deployment \<Rightarrow> Family go" where
  "kube_deployment_status_replicas_available d =
     Inr (family ([int_metric (dep_AvailableReplicas (dep_Status d))]))"

definition kube_deployment_status_replicas_unavailable :: "Deployment \<Rightarrow> Family go" where
  "kube_deployment_status_replicas_unavailable d =
     Inr (family ([int_metric (UnavailableReplicas (dep_Status d))]))"

definition kube_deployment_status_replicas_updated :: "Deployment \<Rightarrow> Family go" where
  "kube_deployment_status_replicas_updated d =
     Inr (family ([int_metric (dep_UpdatedReplicas (dep_Status d))]))"

definition kube_deployment_status_observed_generation :: "Deployment \<Rightarrow> Family go" where
  "kube_deployment_status_observed_generation d =
     Inr (family ([int_metric (dep_ObservedGeneration (dep_Status d))]))"

definition kube_deployment_status_condition :: "Deployment \<Rightarrow> Family go" where
  "kube_deployment_status_condition d = Inr (family (condition_metrics (dep_Conditions (dep_Status d))))"

definition kube_deployment_spec_replicas :: "Deployment \<Rightarrow> Family go" where
  "kube_deployment_spec_replicas d =
     go_bind (deref (dep_Spec_Replicas (dep_Spec d))) (\<lambda>n. Inr (family [int_metric n]))"

definition kube_deployment_spec_paused :: "Deployment \<Rightarrow> Family go" where
  "kube_deployment_spec_paused d = Inr (family ([metric [] [] (boolFloat64 (Paused (dep_Spec d)))]))"

definition kube_deployment_spec_strategy_rollingupdate_max_unavailable :: "Deployment \<Rightarrow> Family go" where
  "kube_deployment_spec_strategy_rollingupdate_max_unavailable d =
     (case RollingUpdate (dep_Spec d) of
        None \<Rightarrow> Inr (family [])
      | Some ru \<Rightarrow>
          go_bind (deref (dep_Spec_Replicas (dep_Spec d)))
            (\<lambda>replicas. case GetValueFromIntOrPercent (MaxUnavailable ru) replicas of
               Inl err \<Rightarrow> Inl (Panic_msg err)
             | Inr v \<Rightarrow> Inr (family [int_metric v])))"

definition kube_deployment_spec_strategy_rollingupdate_max_surge :: "Deployment \<Rightarrow> Family go" where
  "kube_deployment_spec_strategy_rollingupdate_max_surge d =
     (case RollingUpdate (dep_Spec d) of
        None \<Rightarrow> Inr (family [])
      | Some ru \<Rightarrow>
          go_bind (deref (dep_Spec_Replicas (dep_Spec d)))
            (\<lambda>replicas. case GetValueFromIntOrPercent (MaxSurge ru) replicas of
               Inl err \<Rightarrow> Inl (Panic_msg err)
             | Inr v \<Rightarrow> Inr (family [int_metric v])))"

definition kube_deployment_metadata_generation :: "Deployment \<Rightarrow> Family go" where
  "kube_deployment_metadata_generation d = Inr (family ([int_metric (Generation (dep_ObjectMeta d))]))"

definition kube_deployment_labels :: "Deployment \<Rightarrow> Family go" where
  "kube_deployment_labels d = Inr (family (labels_metrics (dep_ObjectMeta d)))"

definition wrapDeploymentFunc :: "(Deployment \<Rightarrow> Family go) \<Rightarrow> kobject \<Rightarrow> Family go" where
  "wrapDeploymentFunc f obj =
     (case obj of
        Deployment_obj d \<Rightarrow>
          go_bind (f d) (\<lambda>metricFamily. Inr (add_default_labels descDeploymentLabelsDefaultLabels
             [Namespace (dep_ObjectMeta d), Name (dep_ObjectMeta d)] metricFamily))
      | _ \<Rightarrow> Inl Type_assertion)"

definition deploymentMetricFamilies :: "kobject FamilyGenerator list" where
  "deploymentMetricFamilies =
    [\<lparr>gen_Name = ''kube_deployment_created'',
       gen_Help = ''Unix creation timestamp'',
       gen_Type = Gauge, GenerateFunc = wrapDeploymentFunc kube_deployment_created\<rparr>,
     \<lparr>gen_Name = ''kube_deployment_status_replicas'',
       gen_Help = ''The number of replicas per deployment.'',
       gen_Type = Gauge, GenerateFunc = wrapDeploymentFunc kube_deployment_status_replicas\<rparr>,
     \<lparr>gen_Name = ''kube_deployment_status_replicas_available'',
       gen_Help = ''The number of available replicas per deployment.'',
       gen_Type = Gauge, GenerateFunc = wrapDeploymentFunc kube_deployment_status_replicas_available\<rparr>,
     \<lparr>gen_Name = ''kube_deployment_status_replicas_unavailable'',
       gen_Help = ''The number of unavailable replicas per deployment.'',
       gen_Type = Gauge, GenerateFunc = wrapDeploymentFunc kube_deployment_status_replicas_unavailable\<rparr>,
     \<lparr>gen_Name = ''kube_deployment_status_replicas_updated'',
       gen_Help = ''The number of updated replicas per deployment.'',
       gen_Type = Gauge, GenerateFunc = wrapDeploymentFunc kube_deployment_status_replicas_updated\<rparr>,
     \<lparr>gen_Name = ''kube_deployment_status_observed_generation'',
       gen_Help = ''The generation observed by the deployment controller.'',
       gen_Type = Gauge, GenerateFunc = wrapDeploymentFunc kube_deployment_status_observed_generation\<rparr>,
     \<lparr>gen_Name = ''kube_deployment_status_condition'',
       gen_Help = ''The current status conditions of a deployment.'',
       gen_Type = Gauge, GenerateFunc = wrapDeploymentFunc kube_deployment_status_condition\<rparr>,
     \<lparr>gen_Name = ''kube_deployment_spec_replicas'',
       gen_Help = ''Number of desired pods for a deployment.'',
       gen_Type = Gauge, GenerateFunc = wrapDeploymentFunc kube_deployment_spec_replicas\<rparr>,
     \<lparr>gen_Name = ''kube_deployment_spec_paused'',
       gen_Help = ''Whether the deployment is paused and will not be processed by the deployment controller.'',
       gen_Type = Gauge, GenerateFunc = wrapDeploymentFunc kube_deployment_spec_paused\<rparr>,
     \<lparr>gen_Name = ''kube_deployment_spec_strategy_rollingupdate_max_unavailable'',
       gen_Help = ''Maximum number of unavailable replicas during a rolling update of a deployment.'',
       gen_Type = Gauge, GenerateFunc = wrapDeploymentFunc kube_deployment_spec_strategy_rollingupdate_max_unavailable\<rparr>,
     \<lparr>gen_Name = ''kube_deployment_spec_strategy_rollingupdate_max_surge'',
       gen_Help = ''Maximum number of replicas that can be scheduled above the desired number of replicas during a rolling update of a deployment.'',
       gen_Type = Gauge, GenerateFunc = wrapDeploymentFunc kube_deployment_spec_strategy_rollingupdate_max_surge\<rparr>,
     \<lparr>gen_Name = ''kube_deployment_metadata_generation'',
       gen_Help = ''Sequence number representing a specific generation of the desired state.'',
       gen_Type = Gauge, GenerateFunc = wrapDeploymentFunc kube_deployment_metadata_generation\<rparr>,
     \<lparr>gen_Name = ''kube_deployment_labels'',
       gen_Help = ''Kubernetes labels converted to Prometheus labels.'',
       gen_Type = Gauge, GenerateFunc = wrapDeploymentFunc kube_deployment_labels\<rparr>]"

text \<open>
  When no generator of a deployment panics: the number of replicas is set, and the two bounds of a
  rolling update are numbers or percentages.
\<close>

definition deployment_ok :: "Deployment \<Rightarrow> bool" where
  "deployment_ok d \<longleftrightarrow>
     (case dep_Spec_Replicas (dep_Spec d) of
        None \<Rightarrow> False
      | Some n \<Rightarrow>
          (case RollingUpdate (dep_Spec d) of
             None \<Rightarrow> True
           | Some ru \<Rightarrow> \<not> isl (GetValueFromIntOrPercent (MaxUnavailable ru) n) \<and>
                        \<not> isl (GetValueFromIntOrPercent (MaxSurge ru) n)))"

lemmas deployment_family_defs =
  kube_deployment_created_def kube_deployment_status_replicas_def
  kube_deployment_status_replicas_available_def kube_deployment_status_replicas_unavailable_def
  kube_deployment_status_replicas_updated_def kube_deployment_status_observed_generation_def
  kube_deployment_status_condition_def kube_deployment_spec_replicas_def
  kube_deployment_spec_paused_def
  kube_deployment_spec_strategy_rollingupdate_max_unavailable_def
  kube_deployment_spec_strategy_rollingupdate_max_surge_def
  kube_deployment_metadata_generation_def kube_deployment_labels_def

lemma deployment_families_sound:
  assumes "deployment_ok d"
  shows
    "body_sound (kube_deployment_created d)" "body_sound (kube_deployment_status_replicas d)"
    "body_sound (kube_deployment_status_replicas_available d)"
    "body_sound (kube_deployment_status_replicas_unavailable d)"
    "body_sound (kube_deployment_status_replicas_updated d)"
    "body_sound (kube_deployment_status_observed_generation d)"
    "body_sound (kube_deployment_status_condition d)"
    "body_sound (kube_deployment_spec_replicas d)" "body_sound (kube_deployment_spec_paused d)"
    "body_sound (kube_deployment_spec_strategy_rollingupdate_max_unavailable d)"
    "body_sound (kube_deployment_spec_strategy_rollingupdate_max_surge d)"
    "body_sound (kube_deployment_metadata_generation d)"
    "body_sound (kube_deployment_labels d)"
  using assms by (auto simp: deployment_family_defs deployment_ok_def Let_def split: option.splits sum.splits)

lemma wrapDeploymentFunc_sound [wf_intros]:
  "body_sound (f d) \<Longrightarrow> deployment_ok d \<Longrightarrow>
   gen_sound \<lparr>gen_Name = n, gen_Help = h, gen_Type = t, GenerateFunc = wrapDeploymentFunc f\<rparr> (Deployment_obj d)"
  by (auto simp: gen_sound_def body_sound_def wrapDeploymentFunc_def descDeploymentLabelsDefaultLabels_def split: option.splits)

interpretation deployment: resource_families "deploymentMetricFamilies" Deployment_obj "deployment_ok"
proof
  show "distinct (map gen_Name (deploymentMetricFamilies))"
    unfolding deploymentMetricFamilies_def list.map FamilyGenerator.simps by code_simp
  show "list_all (\<lambda>g. header_ok (gen_Name g) (gen_Help g) (gen_Type g)) (deploymentMetricFamilies)"
    unfolding deploymentMetricFamilies_def list.pred_inject FamilyGenerator.simps by code_simp
  show "list_all (\<lambda>g. gen_sound g (Deployment_obj r)) (deploymentMetricFamilies)" if "deployment_ok r" for r
    using that by (simp add: deploymentMetricFamilies_def wrapDeploymentFunc_sound deployment_families_sound)
qed

subsection \<open>Properties\<close>

text \<open>
  C14. Generating the metrics of a deployment panics, which ends the program, unless the number of
  replicas is set and both bounds of a rolling update, if there is one, are numbers or percentages;
  under exactly these conditions all of its families are generated.
\<close>

theorem deployment_generation_returns_iff:
  "returns (ComposeMetricGenFuncs deploymentMetricFamilies (Deployment_obj d)) \<longleftrightarrow> deployment_ok d"
  by (auto simp: Compose_returns_iff deploymentMetricFamilies_def wrapDeploymentFunc_def deployment_family_defs
      deployment_ok_def go_bind_isl split: option.splits sum.splits)

end
