(* ===== verification/Store_Batch.thy ===== *)
theory Store_Batch
  imports Store_Utils
begin

text \<open>
  \<open>internal/store/{job,cronjob}.go\<close>. The schedule parser that the cron job store calls is an
  argument: it panics, or gives an error or the schedule's \<open>Next\<close> function. The theorems here hold
  for every parser; the vendored one is modelled in \<open>Cron_Parser\<close>.
\<close>

subsection \<open>job.go\<close>

definition descJobLabelsDefaultLabels :: "string list" where
  "descJobLabelsDefaultLabels = [''namespace'', ''job_name'']"

definition kube_job_labels :: "Job \<Rightarrow> Family" where
  "kube_job_labels x = family (labels_metrics (job_ObjectMeta x))"

definition kube_job_info :: "Job \<Rightarrow> Family" where
  "kube_job_info x = family ([metric [] [] (Fin 1)])"

definition kube_job_created :: "Job \<Rightarrow> Family" where
  "kube_job_created x = family (created_metrics (job_ObjectMeta x))"

definition kube_job_spec_parallelism :: "Job \<Rightarrow> Family" where
  "kube_job_spec_parallelism x = family (opt_int_metrics (Parallelism (job_Spec x)))"

definition kube_job_spec_completions :: "Job \<Rightarrow> Family" where
  "kube_job_spec_completions x = family (opt_int_metrics (Completions (job_Spec x)))"

definition kube_job_spec_active_deadline_seconds :: "Job \<Rightarrow> Family" where
  "kube_job_spec_active_deadline_seconds x = family (opt_int_metrics (ActiveDeadlineSeconds (job_Spec x)))"

definition kube_job_status_succeeded :: "Job \<Rightarrow> Family" where
  "kube_job_status_succeeded x = family ([int_metric (Succeeded (job_Status x))])"

definition kube_job_status_failed :: "Job \<Rightarrow> Family" where
  "kube_job_status_failed x = family ([int_metric (Failed (job_Status x))])"

definition kube_job_status_active :: "Job \<Rightarrow> Family" where
  "kube_job_status_active x = family ([int_metric (Active (job_Status x))])"

definition kube_job_complete :: "Job \<Rightarrow> Family" where
  "kube_job_complete x = family (typed_condition_metrics ''Complete'' (job_Conditions (job_Status x)))"

definition kube_job_failed :: "Job \<Rightarrow> Family" where
  "kube_job_failed x = family (typed_condition_metrics ''Failed'' (job_Conditions (job_Status x)))"

definition kube_job_status_start_time :: "Job \<Rightarrow> Family" where
  "kube_job_status_start_time x = family (opt_time_metrics (job_StartTime (job_Status x)))"

definition kube_job_status_completion_time :: "Job \<Rightarrow> Family" where
  "kube_job_status_completion_time x = family (opt_time_metrics (CompletionTime (job_Status x)))"

definition kube_job_owner :: "Job \<Rightarrow> Family" where
  "kube_job_owner x = family (owner_metrics (OwnerReferences (job_ObjectMeta x)))"

definition wrapJobFunc :: "(Job \<Rightarrow> Family) \<Rightarrow> kobject \<Rightarrow> Family go" where
  "wrapJobFunc f obj =
     (case obj of
        Job_obj x \<Rightarrow>
          Inr (add_default_labels descJobLabelsDefaultLabels [Namespace (job_ObjectMeta x), Name (job_ObjectMeta x)] (f x))
      | _ \<Rightarrow> Inl Type_assertion)"

definition jobMetricFamilies :: "kobject FamilyGenerator list" where
  "jobMetricFamilies =
    [\<lparr>gen_Name = ''kube_job_labels'',
       gen_Help = ''Kubernetes labels converted to Prometheus labels.'',
       gen_Type = Gauge, GenerateFunc = wrapJobFunc kube_job_labels\<rparr>,
     \<lparr>gen_Name = ''kube_job_info'',
       gen_Help = ''Information about job.'',
       gen_Type = Gauge, GenerateFunc = wrapJobFunc kube_job_info\<rparr>,
     \<lparr>gen_Name = ''kube_job_created'',
       gen_Help = ''Unix creation timestamp'',
       gen_Type = Gauge, GenerateFunc = wrapJobFunc kube_job_created\<rparr>,
     \<lparr>gen_Name = ''kube_job_spec_parallelism'',
       gen_Help = ''The maximum desired number of pods the job should run at any given time.'',
       gen_Type = Gauge, GenerateFunc = wrapJobFunc kube_job_spec_parallelism\<rparr>,
     \<lparr>gen_Name = ''kube_job_spec_completions'',
       gen_Help = ''The desired number of successfully finished pods the job should be run with.'',
       gen_Type = Gauge, GenerateFunc = wrapJobFunc kube_job_spec_completions\<rparr>,
     \<lparr>gen_Name = ''kube_job_spec_active_deadline_seconds'',
       gen_Help = ''The duration in seconds relative to the startTime that the job may be active before the system tries to terminate it.'',
       gen_Type = Gauge, GenerateFunc = wrapJobFunc kube_job_spec_active_deadline_seconds\<rparr>,
     \<lparr>gen_Name = ''kube_job_status_succeeded'',
       gen_Help = ''The number of pods which reached Phase Succeeded.'',
       gen_Type = Gauge, GenerateFunc = wrapJobFunc kube_job_status_succeeded\<rparr>,
     \<lparr>gen_Name = ''kube_job_status_failed'',
       gen_Help = ''The number of pods which reached Phase Failed.'',
       gen_Type = Gauge, GenerateFunc = wrapJobFunc kube_job_status_failed\<rparr>,
     \<lparr>gen_Name = ''kube_job_status_active'',
       gen_Help = ''The number of actively running pods.'',
       gen_Type = Gauge, GenerateFunc = wrapJobFunc kube_job_status_active\<rparr>,
     \<lparr>gen_Name = ''kube_job_complete'',
       gen_Help = ''The job has completed its execution.'',
       gen_Type = Gauge, GenerateFunc = wrapJobFunc kube_job_complete\<rparr>,
     \<lparr>gen_Name = ''kube_job_failed'',
       gen_Help = ''The job has failed its execution.'',
       gen_Type = Gauge, GenerateFunc = wrapJobFunc kube_job_failed\<rparr>,
     \<lparr>gen_Name = ''kube_job_status_start_time'',
       gen_Help = ''StartTime represents time when the job was acknowledged by the Job Manager.'',
       gen_Type = Gauge, GenerateFunc = wrapJobFunc kube_job_status_start_time\<rparr>,
     \<lparr>gen_Name = ''kube_job_status_completion_time'',
       gen_Help = ''CompletionTime represents time when the job was completed.'',
       gen_Type = Gauge, GenerateFunc = wrapJobFunc kube_job_status_completion_time\<rparr>,
     \<lparr>gen_Name = ''kube_job_owner'',
       gen_Help = ''Information about the Job's owner.'',
       gen_Type = Gauge, GenerateFunc = wrapJobFunc kube_job_owner\<rparr>]"

lemmas job_family_defs =
  kube_job_labels_def kube_job_info_def kube_job_created_def kube_job_spec_parallelism_def
  kube_job_spec_completions_def kube_job_spec_active_deadline_seconds_def
  kube_job_status_succeeded_def kube_job_status_failed_def kube_job_status_active_def
  kube_job_complete_def kube_job_failed_def kube_job_status_start_time_def
  kube_job_status_completion_time_def kube_job_owner_def

lemma wf_job_families:
  "valid_family (kube_job_labels x)" "valid_family (kube_job_info x)"
  "valid_family (kube_job_created x)" "valid_family (kube_job_spec_parallelism x)"
  "valid_family (kube_job_spec_completions x)"
  "valid_family (kube_job_spec_active_deadline_seconds x)"
  "valid_family (kube_job_status_succeeded x)" "valid_family (kube_job_status_failed x)"
  "valid_family (kube_job_status_active x)" "valid_family (kube_job_complete x)"
  "valid_family (kube_job_failed x)" "valid_family (kube_job_status_start_time x)"
  "valid_family (kube_job_status_completion_time x)" "valid_family (kube_job_owner x)"
  by (simp_all add: job_family_defs Let_def split: option.split prod.split)

lemma wrapJobFunc_sound [wf_intros]:
  "valid_family (f x) \<Longrightarrow>
   gen_sound \<lparr>gen_Name = n, gen_Help = h, gen_Type = t, GenerateFunc = wrapJobFunc f\<rparr> (Job_obj x)"
  by (simp add: gen_sound_def wrapJobFunc_def descJobLabelsDefaultLabels_def)

interpretation job: resource_families jobMetricFamilies Job_obj "\<lambda>_. True"
proof
  show "distinct (map gen_Name jobMetricFamilies)"
    unfolding jobMetricFamilies_def list.map FamilyGenerator.simps by code_simp
  show "list_all (\<lambda>g. header_ok (gen_Name g) (gen_Help g) (gen_Type g)) jobMetricFamilies"
    unfolding jobMetricFamilies_def list.pred_inject FamilyGenerator.simps by code_simp
  show "list_all (\<lambda>g. gen_sound g (Job_obj r)) jobMetricFamilies" for r
    by (simp add: jobMetricFamilies_def wrapJobFunc_sound wf_job_families)
qed

subsection \<open>cronjob.go\<close>

definition descCronJobLabelsDefaultLabels :: "string list" where
  "descCronJobLabelsDefaultLabels = [''namespace'', ''cronjob'']"

type_synonym schedule_parser = "string \<Rightarrow> (string + (Time \<Rightarrow> Time)) go"

definition next_after :: "(Time \<Rightarrow> Time) \<Rightarrow> Time option \<Rightarrow> Time \<Rightarrow> string + Time" where
  "next_after sched_Next lastScheduleTime createdTime =
     (case (lastScheduleTime, IsZero_ptr lastScheduleTime) of
        (Some t, False) \<Rightarrow> Inr (sched_Next t)
      | _ \<Rightarrow> if \<not> IsZero createdTime then Inr (sched_Next createdTime)
             else Inl ''createdTime and lastScheduleTime are both zero'')"

definition getNextScheduledTime ::
  "schedule_parser \<Rightarrow> string \<Rightarrow> Time option \<Rightarrow> Time \<Rightarrow> (string + Time) go" where
  "getNextScheduledTime ParseStandard schedule lastScheduleTime createdTime =
     go_bind (ParseStandard schedule) (\<lambda>r. Inr
       (case r of
          Inl err \<Rightarrow> Inl (''Failed to parse cron job schedule '' @ [CHR 0x27] @ schedule @ [CHR 0x27] @ '': '' @ err)
        | Inr sched_Next \<Rightarrow> next_after sched_Next lastScheduleTime createdTime))"

definition kube_cronjob_labels :: "CronJob \<Rightarrow> Family go" where
  "kube_cronjob_labels j = Inr (family (labels_metrics (cj_ObjectMeta j)))"

definition kube_cronjob_info :: "CronJob \<Rightarrow> Family go" where
  "kube_cronjob_info j =
     Inr (family ([metric [''schedule'', ''concurrency_policy'']
                     [Schedule (cj_Spec j), ConcurrencyPolicy (cj_Spec j)] (Fin 1)]))"

definition kube_cronjob_created :: "CronJob \<Rightarrow> Family go" where
  "kube_cronjob_created j = Inr (family (created_metrics (cj_ObjectMeta j)))"

definition kube_cronjob_status_active :: "CronJob \<Rightarrow> Family go" where
  "kube_cronjob_status_active j = Inr (family ([int_metric (int (length (cj_Active (cj_Status j))))]))"

definition kube_cronjob_status_last_schedule_time :: "CronJob \<Rightarrow> Family go" where
  "kube_cronjob_status_last_schedule_time j =
     Inr (family (opt_time_metrics (LastScheduleTime (cj_Status j))))"

definition kube_cronjob_spec_suspend :: "CronJob \<Rightarrow> Family go" where
  "kube_cronjob_spec_suspend j =
     Inr (family (case Suspend (cj_Spec j) of
                    Some b \<Rightarrow> [metric [] [] (boolFloat64 b)] | None \<Rightarrow> []))"

definition kube_cronjob_spec_starting_deadline_seconds :: "CronJob \<Rightarrow> Family go" where
  "kube_cronjob_spec_starting_deadline_seconds j =
     Inr (family (opt_int_metrics (StartingDeadlineSeconds (cj_Spec j))))"

definition kube_cronjob_next_schedule_time ::
  "schedule_parser \<Rightarrow> CronJob \<Rightarrow> Family go" where
  "kube_cronjob_next_schedule_time ParseStandard j =
     go_bind (getNextScheduledTime ParseStandard (Schedule (cj_Spec j)) (LastScheduleTime (cj_Status j))
                (CreationTimestamp (cj_ObjectMeta j)))
       (\<lambda>r. case r of
          Inl err \<Rightarrow> Inl (Panic_msg err)
        | Inr nextScheduledTime \<Rightarrow>
            go_bind (deref (Suspend (cj_Spec j)))
              (\<lambda>suspend. Inr (family (if \<not> suspend then [timestamp_metric nextScheduledTime] else []))))"

definition wrapCronJobFunc :: "(CronJob \<Rightarrow> Family go) \<Rightarrow> kobject \<Rightarrow> Family go" where
  "wrapCronJobFunc f obj =
     (case obj of
        CronJob_obj j \<Rightarrow>
          go_bind (f j) (\<lambda>metricFamily. Inr (add_default_labels descCronJobLabelsDefaultLabels
             [Namespace (cj_ObjectMeta j), Name (cj_ObjectMeta j)] metricFamily))
      | _ \<Rightarrow> Inl Type_assertion)"

definition cronJobMetricFamilies :: "schedule_parser \<Rightarrow> kobject FamilyGenerator list" where
  "cronJobMetricFamilies ParseStandard =
    [\<lparr>gen_Name = ''kube_cronjob_labels'',
       gen_Help = ''Kubernetes labels converted to Prometheus labels.'',
       gen_Type = Gauge, GenerateFunc = wrapCronJobFunc kube_cronjob_labels\<rparr>,
     \<lparr>gen_Name = ''kube_cronjob_info'',
       gen_Help = ''Info about cronjob.'',
       gen_Type = Gauge, GenerateFunc = wrapCronJobFunc kube_cronjob_info\<rparr>,
     \<lparr>gen_Name = ''kube_cronjob_created'',
       gen_Help = ''Unix creation timestamp'',
       gen_Type = Gauge, GenerateFunc = wrapCronJobFunc kube_cronjob_created\<rparr>,
     \<lparr>gen_Name = ''kube_cronjob_status_active'',
       gen_Help = ''Active holds pointers to currently running jobs.'',
       gen_Type = Gauge, GenerateFunc = wrapCronJobFunc kube_cronjob_status_active\<rparr>,
     \<lparr>gen_Name = ''kube_cronjob_status_last_schedule_time'',
       gen_Help = ''LastScheduleTime keeps information of when was the last time the job was successfully scheduled.'',
       gen_Type = Gauge, GenerateFunc = wrapCronJobFunc kube_cronjob_status_last_schedule_time\<rparr>,
     \<lparr>gen_Name = ''kube_cronjob_spec_suspend'',
       gen_Help = ''Suspend flag tells the controller to suspend subsequent executions.'',
       gen_Type = Gauge, GenerateFunc = wrapCronJobFunc kube_cronjob_spec_suspend\<rparr>,
     \<lparr>gen_Name = ''kube_cronjob_spec_starting_deadline_seconds'',
       gen_Help = ''Deadline in seconds for starting the job if it misses scheduled time for any reason.'',
       gen_Type = Gauge, GenerateFunc = wrapCronJobFunc kube_cronjob_spec_starting_deadline_seconds\<rparr>,
     \<lparr>gen_Name = ''kube_cronjob_next_schedule_time'',
       gen_Help = ''Next time the cronjob should be scheduled. The time after lastScheduleTime, or after the cron job's creation time if it's never been scheduled. Use this to determine if the job is delayed.'',
       gen_Type = Gauge, GenerateFunc = wrapCronJobFunc (kube_cronjob_next_schedule_time ParseStandard)\<rparr>]"

text \<open>When no generator of a cron job panics.\<close>

definition cronjob_ok :: "schedule_parser \<Rightarrow> CronJob \<Rightarrow> bool" where
  "cronjob_ok ParseStandard j \<longleftrightarrow>
     Suspend (cj_Spec j) \<noteq> None \<and>
     (\<exists>next. getNextScheduledTime ParseStandard (Schedule (cj_Spec j)) (LastScheduleTime (cj_Status j))
              (CreationTimestamp (cj_ObjectMeta j)) = Inr (Inr next))"

lemmas cronjob_other_defs =
  kube_cronjob_labels_def kube_cronjob_info_def kube_cronjob_created_def
  kube_cronjob_status_active_def kube_cronjob_status_last_schedule_time_def
  kube_cronjob_spec_suspend_def kube_cronjob_spec_starting_deadline_seconds_def

lemmas cronjob_family_defs = cronjob_other_defs kube_cronjob_next_schedule_time_def

lemma cronjob_families_sound:
  assumes "(cronjob_ok ParseStandard) j"
  shows
    "body_sound (kube_cronjob_labels j)" "body_sound (kube_cronjob_info j)"
    "body_sound (kube_cronjob_created j)" "body_sound (kube_cronjob_status_active j)"
    "body_sound (kube_cronjob_status_last_schedule_time j)"
    "body_sound (kube_cronjob_spec_suspend j)"
    "body_sound (kube_cronjob_spec_starting_deadline_seconds j)"
    "body_sound (kube_cronjob_next_schedule_time ParseStandard j)"
  using assms by (auto simp: cronjob_family_defs cronjob_ok_def Let_def split: option.splits sum.splits)

lemma wrapCronJobFunc_sound [wf_intros]:
  "body_sound (f j) \<Longrightarrow> (cronjob_ok ParseStandard) j \<Longrightarrow>
   gen_sound \<lparr>gen_Name = n, gen_Help = h, gen_Type = t, GenerateFunc = wrapCronJobFunc f\<rparr> (CronJob_obj j)"
  by (auto simp: gen_sound_def body_sound_def wrapCronJobFunc_def descCronJobLabelsDefaultLabels_def split: option.splits)

interpretation cronjob: resource_families "cronJobMetricFamilies ParseStandard" CronJob_obj "(cronjob_ok ParseStandard)"
proof
  show "distinct (map gen_Name (cronJobMetricFamilies ParseStandard))"
    unfolding cronJobMetricFamilies_def list.map FamilyGenerator.simps by code_simp
  show "list_all (\<lambda>g. header_ok (gen_Name g) (gen_Help g) (gen_Type g)) (cronJobMetricFamilies ParseStandard)"
    unfolding cronJobMetricFamilies_def list.pred_inject FamilyGenerator.simps by code_simp
  show "list_all (\<lambda>g. gen_sound g (CronJob_obj r)) (cronJobMetricFamilies ParseStandard)" if "(cronjob_ok ParseStandard) r" for r
    using that by (simp add: cronJobMetricFamilies_def wrapCronJobFunc_sound cronjob_families_sound)
qed

lemma getNextScheduledTime_iff:
  "(\<exists>t. getNextScheduledTime P schedule lastScheduleTime created = Inr (Inr t)) \<longleftrightarrow>
   (\<exists>next. P schedule = Inr (Inr next)) \<and> \<not> (IsZero_ptr lastScheduleTime \<and> IsZero created)"
  by (cases "P schedule"; cases lastScheduleTime)
     (auto simp: getNextScheduledTime_def next_after_def split: sum.splits bool.splits)

lemma kube_cronjob_next_schedule_time_returns_iff:
  "returns (kube_cronjob_next_schedule_time P j) \<longleftrightarrow> cronjob_ok P j"
  by (cases "getNextScheduledTime P (Schedule (cj_Spec j)) (LastScheduleTime (cj_Status j)) (CreationTimestamp (cj_ObjectMeta j))";
      cases "Suspend (cj_Spec j)")
     (auto simp: kube_cronjob_next_schedule_time_def cronjob_ok_def go_bind_isl split: sum.splits)

subsection \<open>Properties\<close>

text \<open>
  C15. Generating the metrics of a cron job panics, which ends the program, unless the suspend flag is
  set and the schedule has a next time; a schedule that cannot be parsed panics even when the job is
  suspended.
\<close>

theorem cronjob_generation_returns_iff:
  "returns (ComposeMetricGenFuncs (cronJobMetricFamilies ParseStandard) (CronJob_obj j)) \<longleftrightarrow>
     Suspend (cj_Spec j) \<noteq> None \<and> (\<exists>next. ParseStandard (Schedule (cj_Spec j)) = Inr (Inr next)) \<and>
     \<not> (IsZero_ptr (LastScheduleTime (cj_Status j)) \<and> IsZero (CreationTimestamp (cj_ObjectMeta j)))"
proof -
  have "returns (ComposeMetricGenFuncs (cronJobMetricFamilies ParseStandard) (CronJob_obj j)) \<longleftrightarrow>
    returns (kube_cronjob_next_schedule_time ParseStandard j)"
    by (auto simp: Compose_returns_iff cronJobMetricFamilies_def wrapCronJobFunc_def cronjob_other_defs go_bind_isl)
  then show ?thesis
    by (simp add: kube_cronjob_next_schedule_time_returns_iff cronjob_ok_def getNextScheduledTime_iff)
qed

end
