(* ===== verification/Store_Core.thy ===== *)
theory Store_Core
  imports Store_Utils
begin

text \<open>
  \<open>internal/store\<close>: config maps, secrets, services, endpoints, namespaces, limit ranges,
  resource quotas, persistent volumes and their claims.
\<close>

subsection \<open>configmap.go\<close>

definition descConfigMapLabelsDefaultLabels :: "string list" where
  "descConfigMapLabelsDefaultLabels = [''namespace'', ''configmap'']"

definition kube_configmap_info :: "ConfigMap \<Rightarrow> Family" where
  "kube_configmap_info x = family ([metric [] [] (Fin 1)])"

definition kube_configmap_created :: "ConfigMap \<Rightarrow> Family" where
  "kube_configmap_created x = family (created_metrics (cm_ObjectMeta x))"

definition kube_configmap_metadata_resource_version :: "ConfigMap \<Rightarrow> Family" where
  "kube_configmap_metadata_resource_version x =
     family (resourceVersionMetric (ResourceVersion (cm_ObjectMeta x)))"

definition wrapConfigMapFunc :: "(ConfigMap \<Rightarrow> Family) \<Rightarrow> kobject \<Rightarrow> Family go" where
  "wrapConfigMapFunc f obj =
     (case obj of
        ConfigMap_obj x \<Rightarrow>
          Inr (add_default_labels descConfigMapLabelsDefaultLabels [Namespace (cm_ObjectMeta x), Name (cm_ObjectMeta x)] (f x))
      | _ \<Rightarrow> Inl Type_assertion)"

definition configMapMetricFamilies :: "kobject FamilyGenerator list" where
  "configMapMetricFamilies =
    [\<lparr>gen_Name = ''kube_configmap_info'',
       gen_Help = ''Information about configmap.'',
       gen_Type = Gauge, GenerateFunc = wrapConfigMapFunc kube_configmap_info\<rparr>,
     \<lparr>gen_Name = ''kube_configmap_created'',
       gen_Help = ''Unix creation timestamp'',
       gen_Type = Gauge, GenerateFunc = wrapConfigMapFunc kube_configmap_created\<rparr>,
     \<lparr>gen_Name = ''kube_configmap_metadata_resource_version'',
       gen_Help = ''Resource version representing a specific version of the configmap.'',
       gen_Type = Gauge, GenerateFunc = wrapConfigMapFunc kube_configmap_metadata_resource_version\<rparr>]"

lemmas configmap_family_defs =
  kube_configmap_info_def kube_configmap_created_def
  kube_configmap_metadata_resource_version_def

lemma wf_configmap_families:
  "valid_family (kube_configmap_info x)" "valid_family (kube_configmap_created x)"
  "valid_family (kube_configmap_metadata_resource_version x)"
  by (simp_all add: configmap_family_defs Let_def split: option.split prod.split)

lemma wrapConfigMapFunc_sound [wf_intros]:
  "valid_family (f x) \<Longrightarrow>
   gen_sound \<lparr>gen_Name = n, gen_Help = h, gen_Type = t, GenerateFunc = wrapConfigMapFunc f\<rparr> (ConfigMap_obj x)"
  by (simp add: gen_sound_def wrapConfigMapFunc_def descConfigMapLabelsDefaultLabels_def)

interpretation configmap: resource_families configMapMetricFamilies ConfigMap_obj "\<lambda>_. True"
proof
  show "distinct (map gen_Name configMapMetricFamilies)"
    unfolding configMapMetricFamilies_def list.map FamilyGenerator.simps by code_simp
  show "list_all (\<lambda>g. header_ok (gen_Name g) (gen_Help g) (gen_Type g)) configMapMetricFamilies"
    unfolding configMapMetricFamilies_def list.pred_inject FamilyGenerator.simps by code_simp
  show "list_all (\<lambda>g. gen_sound g (ConfigMap_obj r)) configMapMetricFamilies" for r
    by (simp add: configMapMetricFamilies_def wrapConfigMapFunc_sound wf_configmap_families)
qed

subsection \<open>secret.go\<close>

definition descSecretLabelsDefaultLabels :: "string list" where
  "descSecretLabelsDefaultLabels = [''namespace'', ''secret'']"

definition kube_secret_info :: "Secret \<Rightarrow> Family" where
  "kube_secret_info x = family ([metric [] [] (Fin 1)])"

definition kube_secret_type :: "Secret \<Rightarrow> Family" where
  "kube_secret_type x = family ([metric [''type''] [secret_Type x] (Fin 1)])"

definition kube_secret_labels :: "Secret \<Rightarrow> Family" where
  "kube_secret_labels x = family (labels_metrics (secret_ObjectMeta x))"

definition kube_secret_created :: "Secret \<Rightarrow> Family" where
  "kube_secret_created x = family (created_metrics (secret_ObjectMeta x))"

definition kube_secret_metadata_resource_version :: "Secret \<Rightarrow> Family" where
  "kube_secret_metadata_resource_version x =
     family (resourceVersionMetric (ResourceVersion (secret_ObjectMeta x)))"

definition wrapSecretFunc :: "(Secret \<Rightarrow> Family) \<Rightarrow> kobject \<Rightarrow> Family go" where
  "wrapSecretFunc f obj =
     (case obj of
        Secret_obj x \<Rightarrow>
          Inr (add_default_labels descSecretLabelsDefaultLabels [Namespace (secret_ObjectMeta x), Name (secret_ObjectMeta x)] (f x))
      | _ \<Rightarrow> Inl Type_assertion)"

definition secretMetricFamilies :: "kobject FamilyGenerator list" where
  "secretMetricFamilies =
    [\<lparr>gen_Name = ''kube_secret_info'',
       gen_Help = ''Information about secret.'',
       gen_Type = Gauge, GenerateFunc = wrapSecretFunc kube_secret_info\<rparr>,
     \<lparr>gen_Name = ''kube_secret_type'',
       gen_Help = ''Type about secret.'',
       gen_Type = Gauge, GenerateFunc = wrapSecretFunc kube_secret_type\<rparr>,
     \<lparr>gen_Name = ''kube_secret_labels'',
       gen_Help = ''Kubernetes labels converted to Prometheus labels.'',
       gen_Type = Gauge, GenerateFunc = wrapSecretFunc kube_secret_labels\<rparr>,
     \<lparr>gen_Name = ''kube_secret_created'',
       gen_Help = ''Unix creation timestamp'',
       gen_Type = Gauge, GenerateFunc = wrapSecretFunc kube_secret_created\<rparr>,
     \<lparr>gen_Name = ''kube_secret_metadata_resource_version'',
       gen_Help = ''Resource version representing a specific version of secret.'',
       gen_Type = Gauge, GenerateFunc = wrapSecretFunc kube_secret_metadata_resource_version\<rparr>]"

lemmas secret_family_defs =
  kube_secret_info_def kube_secret_type_def kube_secret_labels_def kube_secret_created_def
  kube_secret_metadata_resource_version_def

lemma wf_secret_families:
  "valid_family (kube_secret_info x)" "valid_family (kube_secret_type x)"
  "valid_family (kube_secret_labels x)" "valid_family (kube_secret_created x)"
  "valid_family (kube_secret_metadata_resource_version x)"
  by (simp_all add: secret_family_defs Let_def split: option.split prod.split)

lemma wrapSecretFunc_sound [wf_intros]:
  "valid_family (f x) \<Longrightarrow>
   gen_sound \<lparr>gen_Name = n, gen_Help = h, gen_Type = t, GenerateFunc = wrapSecretFunc f\<rparr> (Secret_obj x)"
  by (simp add: gen_sound_def wrapSecretFunc_def descSecretLabelsDefaultLabels_def)

interpretation secret: resource_families secretMetricFamilies Secret_obj "\<lambda>_. True"
proof
  show "distinct (map gen_Name secretMetricFamilies)"
    unfolding secretMetricFamilies_def list.map FamilyGenerator.simps by code_simp
  show "list_all (\<lambda>g. header_ok (gen_Name g) (gen_Help g) (gen_Type g)) secretMetricFamilies"
    unfolding secretMetricFamilies_def list.pred_inject FamilyGenerator.simps by code_simp
  show "list_all (\<lambda>g. gen_sound g (Secret_obj r)) secretMetricFamilies" for r
    by (simp add: secretMetricFamilies_def wrapSecretFunc_sound wf_secret_families)
qed

subsection \<open>service.go\<close>

definition descServiceLabelsDefaultLabels :: "string list" where
  "descServiceLabelsDefaultLabels = [''namespace'', ''service'']"

definition kube_service_info :: "Service \<Rightarrow> Family" where
  "kube_service_info x =
     family ([metric [''cluster_ip'', ''external_name'', ''load_balancer_ip'']
              [ClusterIP (svc_Spec x), ExternalName (svc_Spec x), LoadBalancerIP (svc_Spec x)] (Fin 1)])"

definition kube_service_created :: "Service \<Rightarrow> Family" where
  "kube_service_created x = family (created_metrics (svc_ObjectMeta x))"

definition kube_service_spec_type :: "Service \<Rightarrow> Family" where
  "kube_service_spec_type x = family ([metric [''type''] [svc_Type (svc_Spec x)] (Fin 1)])"

definition kube_service_labels :: "Service \<Rightarrow> Family" where
  "kube_service_labels x = family (labels_metrics (svc_ObjectMeta x))"

definition kube_service_spec_external_ip :: "Service \<Rightarrow> Family" where
  "kube_service_spec_external_ip x =
     family (if length (ExternalIPs (svc_Spec x)) = 0 then []
             else map (\<lambda>externalIP. metric [''external_ip''] [externalIP] (Fin 1)) (ExternalIPs (svc_Spec x)))"

definition kube_service_status_load_balancer_ingress :: "Service \<Rightarrow> Family" where
  "kube_service_status_load_balancer_ingress x =
     family (if length (LoadBalancer_Ingress x) = 0 then []
             else map (\<lambda>i. metric [''ip'', ''hostname''] [lbi_IP i, Hostname i] (Fin 1)) (LoadBalancer_Ingress x))"

definition wrapSvcFunc :: "(Service \<Rightarrow> Family) \<Rightarrow> kobject \<Rightarrow> Family go" where
  "wrapSvcFunc f obj =
     (case obj of
        Service_obj x \<Rightarrow>
          Inr (add_default_labels descServiceLabelsDefaultLabels [Namespace (svc_ObjectMeta x), Name (svc_ObjectMeta x)] (f x))
      | _ \<Rightarrow> Inl Type_assertion)"

definition serviceMetricFamilies :: "kobject FamilyGenerator list" where
  "serviceMetricFamilies =
    [\<lparr>gen_Name = ''kube_service_info'',
       gen_Help = ''Information about service.'',
       gen_Type = Gauge, GenerateFunc = wrapSvcFunc kube_service_info\<rparr>,
     \<lparr>gen_Name = ''kube_service_created'',
       gen_Help = ''Unix creation timestamp'',
       gen_Type = Gauge, GenerateFunc = wrapSvcFunc kube_service_created\<rparr>,
     \<lparr>gen_Name = ''kube_service_spec_type'',
       gen_Help = ''Type about service.'',
       gen_Type = Gauge, GenerateFunc = wrapSvcFunc kube_service_spec_type\<rparr>,
     \<lparr>gen_Name = ''kube_service_labels'',
       gen_Help = ''Kubernetes labels converted to Prometheus labels.'',
       gen_Type = Gauge, GenerateFunc = wrapSvcFunc kube_service_labels\<rparr>,
     \<lparr>gen_Name = ''kube_service_spec_external_ip'',
       gen_Help = ''Service external ips. One series for each ip'',
       gen_Type = Gauge, GenerateFunc = wrapSvcFunc kube_service_spec_external_ip\<rparr>,
     \<lparr>gen_Name = ''kube_service_status_load_balancer_ingress'',
       gen_Help = ''Service load balancer ingress status'',
       gen_Type = Gauge, GenerateFunc = wrapSvcFunc kube_service_status_load_balancer_ingress\<rparr>]"

lemmas service_family_defs =
  kube_service_info_def kube_service_created_def kube_service_spec_type_def
  kube_service_labels_def kube_service_spec_external_ip_def
  kube_service_status_load_balancer_ingress_def

lemma wf_service_families:
  "valid_family (kube_service_info x)" "valid_family (kube_service_created x)"
  "valid_family (kube_service_spec_type x)" "valid_family (kube_service_labels x)"
  "valid_family (kube_service_spec_external_ip x)"
  "valid_family (kube_service_status_load_balancer_ingress x)"
  by (simp_all add: service_family_defs Let_def split: option.split prod.split)

lemma wrapSvcFunc_sound [wf_intros]:
  "valid_family (f x) \<Longrightarrow>
   gen_sound \<lparr>gen_Name = n, gen_Help = h, gen_Type = t, GenerateFunc = wrapSvcFunc f\<rparr> (Service_obj x)"
  by (simp add: gen_sound_def wrapSvcFunc_def descServiceLabelsDefaultLabels_def)

interpretation service: resource_families serviceMetricFamilies Service_obj "\<lambda>_. True"
proof
  show "distinct (map gen_Name serviceMetricFamilies)"
    unfolding serviceMetricFamilies_def list.map FamilyGenerator.simps by code_simp
  show "list_all (\<lambda>g. header_ok (gen_Name g) (gen_Help g) (gen_Type g)) serviceMetricFamilies"
    unfolding serviceMetricFamilies_def list.pred_inject FamilyGenerator.simps by code_simp
  show "list_all (\<lambda>g. gen_sound g (Service_obj r)) serviceMetricFamilies" for r
    by (simp add: serviceMetricFamilies_def wrapSvcFunc_sound wf_service_families)
qed

subsection \<open>endpoint.go\<close>

definition descEndpointLabelsDefaultLabels :: "string list" where
  "descEndpointLabelsDefaultLabels = [''namespace'', ''endpoint'']"

text \<open>The loops that sum up addresses times ports in an \<open>int\<close>.\<close>

definition endpoint_count :: "(EndpointSubset \<Rightarrow> string list) \<Rightarrow> EndpointSubset list \<Rightarrow> int" where
  "endpoint_count addrs ss =
     foldl (\<lambda>n s. wrap64 (n + wrap64 (int (length (addrs s)) * int (length (Ports s))))) 0 ss"

definition kube_endpoint_info :: "Endpoints \<Rightarrow> Family" where
  "kube_endpoint_info x = family ([metric [] [] (Fin 1)])"

definition kube_endpoint_created :: "Endpoints \<Rightarrow> Family" where
  "kube_endpoint_created x = family (created_metrics (ep_ObjectMeta x))"

definition kube_endpoint_labels :: "Endpoints \<Rightarrow> Family" where
  "kube_endpoint_labels x = family (labels_metrics (ep_ObjectMeta x))"

definition kube_endpoint_address_available :: "Endpoints \<Rightarrow> Family" where
  "kube_endpoint_address_available x = family ([int_metric (endpoint_count Addresses (Subsets x))])"

definition kube_endpoint_address_not_ready :: "Endpoints \<Rightarrow> Family" where
  "kube_endpoint_address_not_ready x = family ([int_metric (endpoint_count NotReadyAddresses (Subsets x))])"

definition wrapEndpointFunc :: "(Endpoints \<Rightarrow> Family) \<Rightarrow> kobject \<Rightarrow> Family go" where
  "wrapEndpointFunc f obj =
     (case obj of
        Endpoints_obj x \<Rightarrow>
          Inr (add_default_labels descEndpointLabelsDefaultLabels [Namespace (ep_ObjectMeta x), Name (ep_ObjectMeta x)] (f x))
      | _ \<Rightarrow> Inl Type_assertion)"

definition endpointMetricFamilies :: "kobject FamilyGenerator list" where
  "endpointMetricFamilies =
    [\<lparr>gen_Name = ''kube_endpoint_info'',
       gen_Help = ''Information about endpoint.'',
       gen_Type = Gauge, GenerateFunc = wrapEndpointFunc kube_endpoint_info\<rparr>,
     \<lparr>gen_Name = ''kube_endpoint_created'',
       gen_Help = ''Unix creation timestamp'',
       gen_Type = Gauge, GenerateFunc = wrapEndpointFunc kube_endpoint_created\<rparr>,
     \<lparr>gen_Name = ''kube_endpoint_labels'',
       gen_Help = ''Kubernetes labels converted to Prometheus labels.'',
       gen_Type = Gauge, GenerateFunc = wrapEndpointFunc kube_endpoint_labels\<rparr>,
     \<lparr>gen_Name = ''kube_endpoint_address_available'',
       gen_Help = ''Number of addresses available in endpoint.'',
       gen_Type = Gauge, GenerateFunc = wrapEndpointFunc kube_endpoint_address_available\<rparr>,
     \<lparr>gen_Name = ''kube_endpoint_address_not_ready'',
       gen_Help = ''Number of addresses not ready in endpoint'',
       gen_Type = Gauge, GenerateFunc = wrapEndpointFunc kube_endpoint_address_not_ready\<rparr>]"

lemmas endpoint_family_defs =
  kube_endpoint_info_def kube_endpoint_created_def kube_endpoint_labels_def
  kube_endpoint_address_available_def kube_endpoint_address_not_ready_def

lemma wf_endpoint_families:
  "valid_family (kube_endpoint_info x)" "valid_family (kube_endpoint_created x)"
  "valid_family (kube_endpoint_labels x)" "valid_family (kube_endpoint_address_available x)"
  "valid_family (kube_endpoint_address_not_ready x)"
  by (simp_all add: endpoint_family_defs Let_def split: option.split prod.split)

lemma wrapEndpointFunc_sound [wf_intros]:
  "valid_family (f x) \<Longrightarrow>
   gen_sound \<lparr>gen_Name = n, gen_Help = h, gen_Type = t, GenerateFunc = wrapEndpointFunc f\<rparr> (Endpoints_obj x)"
  by (simp add: gen_sound_def wrapEndpointFunc_def descEndpointLabelsDefaultLabels_def)

interpretation endpoint: resource_families endpointMetricFamilies Endpoints_obj "\<lambda>_. True"
proof
  show "distinct (map gen_Name endpointMetricFamilies)"
    unfolding endpointMetricFamilies_def list.map FamilyGenerator.simps by code_simp
  show "list_all (\<lambda>g. header_ok (gen_Name g) (gen_Help g) (gen_Type g)) endpointMetricFamilies"
    unfolding endpointMetricFamilies_def list.pred_inject FamilyGenerator.simps by code_simp
  show "list_all (\<lambda>g. gen_sound g (Endpoints_obj r)) endpointMetricFamilies" for r
    by (simp add: endpointMetricFamilies_def wrapEndpointFunc_sound wf_endpoint_families)
qed

subsection \<open>namespace.go\<close>

definition descNamespaceLabelsDefaultLabels :: "string list" where
  "descNamespaceLabelsDefaultLabels = [''namespace'']"

definition kube_namespace_created :: "Namespace_t \<Rightarrow> Family" where
  "kube_namespace_created x = family (created_metrics (ns_ObjectMeta x))"

definition kube_namespace_labels :: "Namespace_t \<Rightarrow> Family" where
  "kube_namespace_labels x = family (labels_metrics (ns_ObjectMeta x))"

definition kube_namespace_status_phase :: "Namespace_t \<Rightarrow> Family" where
  "kube_namespace_status_phase x =
     family (set_keys [''phase'']
       [metric [] [''Active''] (boolFloat64 (ns_Phase x = ''Active'')),
        metric [] [''Terminating''] (boolFloat64 (ns_Phase x = ''Terminating''))])"

definition kube_namespace_status_condition :: "Namespace_t \<Rightarrow> Family" where
  "kube_namespace_status_condition x = family (condition_metrics (ns_Conditions x))"

definition wrapNamespaceFunc :: "(Namespace_t \<Rightarrow> Family) \<Rightarrow> kobject \<Rightarrow> Family go" where
  "wrapNamespaceFunc f obj =
     (case obj of
        Namespace_obj x \<Rightarrow>
          Inr (add_default_labels descNamespaceLabelsDefaultLabels [Name (ns_ObjectMeta x)] (f x))
      | _ \<Rightarrow> Inl Type_assertion)"

definition namespaceMetricFamilies :: "kobject FamilyGenerator list" where
  "namespaceMetricFamilies =
    [\<lparr>gen_Name = ''kube_namespace_created'',
       gen_Help = ''Unix creation timestamp'',
       gen_Type = Gauge, GenerateFunc = wrapNamespaceFunc kube_namespace_created\<rparr>,
     \<lparr>gen_Name = ''kube_namespace_labels'',
       gen_Help = ''Kubernetes labels converted to Prometheus labels.'',
       gen_Type = Gauge, GenerateFunc = wrapNamespaceFunc kube_namespace_labels\<rparr>,
     \<lparr>gen_Name = ''kube_namespace_status_phase'',
       gen_Help = ''kubernetes namespace status phase.'',
       gen_Type = Gauge, GenerateFunc = wrapNamespaceFunc kube_namespace_status_phase\<rparr>,
     \<lparr>gen_Name = ''kube_namespace_status_condition'',
       gen_Help = ''The condition of a namespace.'',
       gen_Type = Gauge, GenerateFunc = wrapNamespaceFunc kube_namespace_status_condition\<rparr>]"

lemmas namespace_family_defs =
  kube_namespace_created_def kube_namespace_labels_def kube_namespace_status_phase_def
  kube_namespace_status_condition_def

lemma wf_namespace_families:
  "valid_family (kube_namespace_created x)" "valid_family (kube_namespace_labels x)"
  "valid_family (kube_namespace_status_phase x)" "valid_family (kube_namespace_status_condition x)"
  by (simp_all add: namespace_family_defs Let_def split: option.split prod.split)

lemma wrapNamespaceFunc_sound [wf_intros]:
  "valid_family (f x) \<Longrightarrow>
   gen_sound \<lparr>gen_Name = n, gen_Help = h, gen_Type = t, GenerateFunc = wrapNamespaceFunc f\<rparr> (Namespace_obj x)"
  by (simp add: gen_sound_def wrapNamespaceFunc_def descNamespaceLabelsDefaultLabels_def)

interpretation namespace: resource_families namespaceMetricFamilies Namespace_obj "\<lambda>_. True"
proof
  show "distinct (map gen_Name namespaceMetricFamilies)"
    unfolding namespaceMetricFamilies_def list.map FamilyGenerator.simps by code_simp
  show "list_all (\<lambda>g. header_ok (gen_Name g) (gen_Help g) (gen_Type g)) namespaceMetricFamilies"
    unfolding namespaceMetricFamilies_def list.pred_inject FamilyGenerator.simps by code_simp
  show "list_all (\<lambda>g. gen_sound g (Namespace_obj r)) namespaceMetricFamilies" for r
    by (simp add: namespaceMetricFamilies_def wrapNamespaceFunc_sound wf_namespace_families)
qed

subsection \<open>limitrange.go\<close>

definition descLimitRangeLabelsDefaultLabels :: "string list" where
  "descLimitRangeLabelsDefaultLabels = [''namespace'', ''limitrange'']"

text \<open>One of the five loops over a resource list of a limit range item.\<close>

definition limit_metrics :: "LimitRangeItem \<Rightarrow> string \<Rightarrow> ResourceList \<Rightarrow> Metric list" where
  "limit_metrics raw constraint rl =
     map (\<lambda>(resource, q). metric [] [resource, lri_Type raw, constraint] (milli_float q)) rl"

definition kube_limitrange :: "LimitRange \<Rightarrow> Family" where
  "kube_limitrange x =
     family (set_keys [''resource'', ''type'', ''constraint'']
       (concat (map (\<lambda>raw.
          limit_metrics raw ''min'' (lri_Min raw) @ limit_metrics raw ''max'' (lri_Max raw) @
          limit_metrics raw ''default'' (lri_Default raw) @
          limit_metrics raw ''defaultRequest'' (DefaultRequest raw) @
          limit_metrics raw ''maxLimitRequestRatio'' (MaxLimitRequestRatio raw)) (lr_Limits x))))"

definition kube_limitrange_created :: "LimitRange \<Rightarrow> Family" where
  "kube_limitrange_created x = family (created_metrics (lr_ObjectMeta x))"

definition wrapLimitRangeFunc :: "(LimitRange \<Rightarrow> Family) \<Rightarrow> kobject \<Rightarrow> Family go" where
  "wrapLimitRangeFunc f obj =
     (case obj of
        LimitRange_obj x \<Rightarrow>
          Inr (add_default_labels descLimitRangeLabelsDefaultLabels [Namespace (lr_ObjectMeta x), Name (lr_ObjectMeta x)] (f x))
      | _ \<Rightarrow> Inl Type_assertion)"

definition limitRangeMetricFamilies :: "kobject FamilyGenerator list" where
  "limitRangeMetricFamilies =
    [\<lparr>gen_Name = ''kube_limitrange'',
       gen_Help = ''Information about limit range.'',
       gen_Type = Gauge, GenerateFunc = wrapLimitRangeFunc kube_limitrange\<rparr>,
     \<lparr>gen_Name = ''kube_limitrange_created'',
       gen_Help = ''Unix creation timestamp'',
       gen_Type = Gauge, GenerateFunc = wrapLimitRangeFunc kube_limitrange_created\<rparr>]"

lemma limit_metrics_values: "m \<in> set (limit_metrics raw c rl) \<Longrightarrow> length (LabelValues m) = 3 \<and> f64_ok (Value m)"
  by (auto simp: limit_metrics_def)

lemmas limitrange_family_defs =
  kube_limitrange_def kube_limitrange_created_def

lemma wf_limitrange_families:
  "valid_family (kube_limitrange x)" "valid_family (kube_limitrange_created x)"
  by (auto simp: limitrange_family_defs Let_def limit_metrics_values split: option.split prod.split)

lemma wrapLimitRangeFunc_sound [wf_intros]:
  "valid_family (f x) \<Longrightarrow>
   gen_sound \<lparr>gen_Name = n, gen_Help = h, gen_Type = t, GenerateFunc = wrapLimitRangeFunc f\<rparr> (LimitRange_obj x)"
  by (simp add: gen_sound_def wrapLimitRangeFunc_def descLimitRangeLabelsDefaultLabels_def)

interpretation limitrange: resource_families limitRangeMetricFamilies LimitRange_obj "\<lambda>_. True"
proof
  show "distinct (map gen_Name limitRangeMetricFamilies)"
    unfolding limitRangeMetricFamilies_def list.map FamilyGenerator.simps by code_simp
  show "list_all (\<lambda>g. header_ok (gen_Name g) (gen_Help g) (gen_Type g)) limitRangeMetricFamilies"
    unfolding limitRangeMetricFamilies_def list.pred_inject FamilyGenerator.simps by code_simp
  show "list_all (\<lambda>g. gen_sound g (LimitRange_obj r)) limitRangeMetricFamilies" for r
    by (simp add: limitRangeMetricFamilies_def wrapLimitRangeFunc_sound wf_limitrange_families)
qed

subsection \<open>resourcequota.go\<close>

definition descResourceQuotaLabelsDefaultLabels :: "string list" where
  "descResourceQuotaLabelsDefaultLabels = [''namespace'', ''resourcequota'']"

definition kube_resourcequota_created :: "ResourceQuota \<Rightarrow> Family" where
  "kube_resourcequota_created x = family (created_metrics (rq_ObjectMeta x))"

definition kube_resourcequota :: "ResourceQuota \<Rightarrow> Family" where
  "kube_resourcequota x =
     family (set_keys [''resource'', ''type'']
       (map (\<lambda>(res, qty). metric [] [res, ''hard''] (milli_float qty)) (Hard x) @
        map (\<lambda>(res, qty). metric [] [res, ''used''] (milli_float qty)) (Used x)))"

definition wrapResourceQuotaFunc :: "(ResourceQuota \<Rightarrow> Family) \<Rightarrow> kobject \<Rightarrow> Family go" where
  "wrapResourceQuotaFunc f obj =
     (case obj of
        ResourceQuota_obj x \<Rightarrow>
          Inr (add_default_labels descResourceQuotaLabelsDefaultLabels [Namespace (rq_ObjectMeta x), Name (rq_ObjectMeta x)] (f x))
      | _ \<Rightarrow> Inl Type_assertion)"

definition resourceQuotaMetricFamilies :: "kobject FamilyGenerator list" where
  "resourceQuotaMetricFamilies =
    [\<lparr>gen_Name = ''kube_resourcequota_created'',
       gen_Help = ''Unix creation timestamp'',
       gen_Type = Gauge, GenerateFunc = wrapResourceQuotaFunc kube_resourcequota_created\<rparr>,
     \<lparr>gen_Name = ''kube_resourcequota'',
       gen_Help = ''Information about resource quota.'',
       gen_Type = Gauge, GenerateFunc = wrapResourceQuotaFunc kube_resourcequota\<rparr>]"

lemmas resourcequota_family_defs =
  kube_resourcequota_created_def kube_resourcequota_def

lemma wf_resourcequota_families:
  "valid_family (kube_resourcequota_created x)" "valid_family (kube_resourcequota x)"
  by (auto simp: resourcequota_family_defs Let_def split: option.split prod.split)

lemma wrapResourceQuotaFunc_sound [wf_intros]:
  "valid_family (f x) \<Longrightarrow>
   gen_sound \<lparr>gen_Name = n, gen_Help = h, gen_Type = t, GenerateFunc = wrapResourceQuotaFunc f\<rparr> (ResourceQuota_obj x)"
  by (simp add: gen_sound_def wrapResourceQuotaFunc_def descResourceQuotaLabelsDefaultLabels_def)

interpretation resourcequota: resource_families resourceQuotaMetricFamilies ResourceQuota_obj "\<lambda>_. True"
proof
  show "distinct (map gen_Name resourceQuotaMetricFamilies)"
    unfolding resourceQuotaMetricFamilies_def list.map FamilyGenerator.simps by code_simp
  show "list_all (\<lambda>g. header_ok (gen_Name g) (gen_Help g) (gen_Type g)) resourceQuotaMetricFamilies"
    unfolding resourceQuotaMetricFamilies_def list.pred_inject FamilyGenerator.simps by code_simp
  show "list_all (\<lambda>g. gen_sound g (ResourceQuota_obj r)) resourceQuotaMetricFamilies" for r
    by (simp add: resourceQuotaMetricFamilies_def wrapResourceQuotaFunc_sound wf_resourcequota_families)
qed

subsection \<open>persistentvolume.go\<close>

definition descPersistentVolumeLabelsDefaultLabels :: "string list" where
  "descPersistentVolumeLabelsDefaultLabels = [''persistentvolume'']"

definition kube_persistentvolume_labels :: "PersistentVolume \<Rightarrow> Family" where
  "kube_persistentvolume_labels x = family (labels_metrics (pv_ObjectMeta x))"

definition kube_persistentvolume_status_phase :: "PersistentVolume \<Rightarrow> Family" where
  "kube_persistentvolume_status_phase x =
     family (if pv_Phase x = [] then []
             else set_keys [''phase''] (map (\<lambda>n. metric [] [n] (boolFloat64 (pv_Phase x = n)))
               [''Pending'', ''Available'', ''Bound'', ''Released'', ''Failed'']))"

definition kube_persistentvolume_info :: "PersistentVolume \<Rightarrow> Family" where
  "kube_persistentvolume_info x = family ([metric [''storageclass''] [pv_StorageClassName x] (Fin 1)])"

definition kube_persistentvolume_capacity_bytes :: "PersistentVolume \<Rightarrow> Family" where
  "kube_persistentvolume_capacity_bytes x =
     family ([metric [] [] (value_float (case map_of (pv_Capacity x) ''storage'' of Some q \<Rightarrow> q | None \<Rightarrow> zero_quantity))])"

definition wrapPersistentVolumeFunc :: "(PersistentVolume \<Rightarrow> Family) \<Rightarrow> kobject \<Rightarrow> Family go" where
  "wrapPersistentVolumeFunc f obj =
     (case obj of
        PersistentVolume_obj x \<Rightarrow>
          Inr (add_default_labels descPersistentVolumeLabelsDefaultLabels [Name (pv_ObjectMeta x)] (f x))
      | _ \<Rightarrow> Inl Type_assertion)"

definition persistentVolumeMetricFamilies :: "kobject FamilyGenerator list" where
  "persistentVolumeMetricFamilies =
    [\<lparr>gen_Name = ''kube_persistentvolume_labels'',
       gen_Help = ''Kubernetes labels converted to Prometheus labels.'',
       gen_Type = Gauge, GenerateFunc = wrapPersistentVolumeFunc kube_persistentvolume_labels\<rparr>,
     \<lparr>gen_Name = ''kube_persistentvolume_status_phase'',
       gen_Help = ''The phase indicates if a volume is available, bound to a claim, or released by a claim.'',
       gen_Type = Gauge, GenerateFunc = wrapPersistentVolumeFunc kube_persistentvolume_status_phase\<rparr>,
     \<lparr>gen_Name = ''kube_persistentvolume_info'',
       gen_Help = ''Information about persistentvolume.'',
       gen_Type = Gauge, GenerateFunc = wrapPersistentVolumeFunc kube_persistentvolume_info\<rparr>,
     \<lparr>gen_Name = ''kube_persistentvolume_capacity_bytes'',
       gen_Help = ''Persistentvolume capacity in bytes.'',
       gen_Type = Gauge, GenerateFunc = wrapPersistentVolumeFunc kube_persistentvolume_capacity_bytes\<rparr>]"

lemmas persistentvolume_family_defs =
  kube_persistentvolume_labels_def kube_persistentvolume_status_phase_def
  kube_persistentvolume_info_def kube_persistentvolume_capacity_bytes_def

lemma wf_persistentvolume_families:
  "valid_family (kube_persistentvolume_labels x)"
  "valid_family (kube_persistentvolume_status_phase x)" "valid_family (kube_persistentvolume_info x)"
  "valid_family (kube_persistentvolume_capacity_bytes x)"
  by (simp_all add: persistentvolume_family_defs Let_def split: option.split prod.split)

lemma wrapPersistentVolumeFunc_sound [wf_intros]:
  "valid_family (f x) \<Longrightarrow>
   gen_sound \<lparr>gen_Name = n, gen_Help = h, gen_Type = t, GenerateFunc = wrapPersistentVolumeFunc f\<rparr> (PersistentVolume_obj x)"
  by (simp add: gen_sound_def wrapPersistentVolumeFunc_def descPersistentVolumeLabelsDefaultLabels_def)

interpretation persistentvolume: resource_families persistentVolumeMetricFamilies PersistentVolume_obj "\<lambda>_. True"
proof
  show "distinct (map gen_Name persistentVolumeMetricFamilies)"
    unfolding persistentVolumeMetricFamilies_def list.map FamilyGenerator.simps by code_simp
  show "list_all (\<lambda>g. header_ok (gen_Name g) (gen_Help g) (gen_Type g)) persistentVolumeMetricFamilies"
    unfolding persistentVolumeMetricFamilies_def list.pred_inject FamilyGenerator.simps by code_simp
  show "list_all (\<lambda>g. gen_sound g (PersistentVolume_obj r)) persistentVolumeMetricFamilies" for r
    by (simp add: persistentVolumeMetricFamilies_def wrapPersistentVolumeFunc_sound wf_persistentvolume_families)
qed

subsection \<open>persistentvolumeclaim.go\<close>

definition descPersistentVolumeClaimLabelsDefaultLabels :: "string list" where
  "descPersistentVolumeClaimLabelsDefaultLabels = [''namespace'', ''persistentvolumeclaim'']"

definition getPersistentVolumeClaimClass :: "PersistentVolumeClaim \<Rightarrow> string" where
  "getPersistentVolumeClaimClass claim =
     (case map_of (Annotations (pvc_ObjectMeta claim)) ''volume.beta.kubernetes.io/storage-class'' of
        Some cls \<Rightarrow> cls
      | None \<Rightarrow> (case pvc_StorageClassName claim of Some n \<Rightarrow> n | None \<Rightarrow> ''<none>''))"

definition kube_persistentvolumeclaim_labels :: "PersistentVolumeClaim \<Rightarrow> Family" where
  "kube_persistentvolumeclaim_labels x = family (labels_metrics (pvc_ObjectMeta x))"

definition kube_persistentvolumeclaim_info :: "PersistentVolumeClaim \<Rightarrow> Family" where
  "kube_persistentvolumeclaim_info x =
     family ([metric [''storageclass'', ''volumename''] [getPersistentVolumeClaimClass x, VolumeName x] (Fin 1)])"

definition kube_persistentvolumeclaim_status_phase :: "PersistentVolumeClaim \<Rightarrow> Family" where
  "kube_persistentvolumeclaim_status_phase x =
     family (if pvc_Phase x = [] then []
             else set_keys [''phase''] (map (\<lambda>n. metric [] [n] (boolFloat64 (pvc_Phase x = n)))
               [''Lost'', ''Bound'', ''Pending'']))"

definition kube_persistentvolumeclaim_resource_requests_storage_bytes :: "PersistentVolumeClaim \<Rightarrow> Family" where
  "kube_persistentvolumeclaim_resource_requests_storage_bytes x =
     family (case map_of (Requests (pvc_Resources x)) ''storage'' of
               Some q \<Rightarrow> [metric [] [] (value_float q)] | None \<Rightarrow> [])"

definition kube_persistentvolumeclaim_access_mode :: "PersistentVolumeClaim \<Rightarrow> Family" where
  "kube_persistentvolumeclaim_access_mode x =
     family (map (\<lambda>mode. metric [''access_mode''] [mode] (Fin 1)) (AccessModes x))"

definition kube_persistentvolumeclaim_status_condition :: "PersistentVolumeClaim \<Rightarrow> Family" where
  "kube_persistentvolumeclaim_status_condition x = family (condition_metrics (pvc_Conditions x))"

definition wrapPersistentVolumeClaimFunc :: "(PersistentVolumeClaim \<Rightarrow> Family) \<Rightarrow> kobject \<Rightarrow> Family go" where
  "wrapPersistentVolumeClaimFunc f obj =
     (case obj of
        PersistentVolumeClaim_obj x \<Rightarrow>
          Inr (add_default_labels descPersistentVolumeClaimLabelsDefaultLabels [Namespace (pvc_ObjectMeta x), Name (pvc_ObjectMeta x)] (f x))
      | _ \<Rightarrow> Inl Type_assertion)"

definition persistentVolumeClaimMetricFamilies :: "kobject FamilyGenerator list" where
  "persistentVolumeClaimMetricFamilies =
    [\<lparr>gen_Name = ''kube_persistentvolumeclaim_labels'',
       gen_Help = ''Kubernetes labels converted to Prometheus labels.'',
       gen_Type = Gauge, GenerateFunc = wrapPersistentVolumeClaimFunc kube_persistentvolumeclaim_labels\<rparr>,
     \<lparr>gen_Name = ''kube_persistentvolumeclaim_info'',
       gen_Help = ''Information about persistent volume claim.'',
       gen_Type = Gauge, GenerateFunc = wrapPersistentVolumeClaimFunc kube_persistentvolumeclaim_info\<rparr>,
     \<lparr>gen_Name = ''kube_persistentvolumeclaim_status_phase'',
       gen_Help = ''The phase the persistent volume claim is currently in.'',
       gen_Type = Gauge, GenerateFunc = wrapPersistentVolumeClaimFunc kube_persistentvolumeclaim_status_phase\<rparr>,
     \<lparr>gen_Name = ''kube_persistentvolumeclaim_resource_requests_storage_bytes'',
       gen_Help = ''The capacity of storage requested by the persistent volume claim.'',
       gen_Type = Gauge, GenerateFunc = wrapPersistentVolumeClaimFunc kube_persistentvolumeclaim_resource_requests_storage_bytes\<rparr>,
     \<lparr>gen_Name = ''kube_persistentvolumeclaim_access_mode'',
       gen_Help = ''The access mode(s) specified by the persistent volume claim.'',
       gen_Type = Gauge, GenerateFunc = wrapPersistentVolumeClaimFunc kube_persistentvolumeclaim_access_mode\<rparr>,
     \<lparr>gen_Name = ''kube_persistentvolumeclaim_status_condition'',
       gen_Help = ''Information about status of different conditions of persistent volume claim.'',
       gen_Type = Gauge, GenerateFunc = wrapPersistentVolumeClaimFunc kube_persistentvolumeclaim_status_condition\<rparr>]"

lemmas persistentvolumeclaim_family_defs =
  kube_persistentvolumeclaim_labels_def kube_persistentvolumeclaim_info_def
  kube_persistentvolumeclaim_status_phase_def
  kube_persistentvolumeclaim_resource_requests_storage_bytes_def
  kube_persistentvolumeclaim_access_mode_def kube_persistentvolumeclaim_status_condition_def

lemma wf_persistentvolumeclaim_families:
  "valid_family (kube_persistentvolumeclaim_labels x)"
  "valid_family (kube_persistentvolumeclaim_info x)"
  "valid_family (kube_persistentvolumeclaim_status_phase x)"
  "valid_family (kube_persistentvolumeclaim_resource_requests_storage_bytes x)"
  "valid_family (kube_persistentvolumeclaim_access_mode x)"
  "valid_family (kube_persistentvolumeclaim_status_condition x)"
  by (simp_all add: persistentvolumeclaim_family_defs Let_def split: option.split prod.split)

lemma wrapPersistentVolumeClaimFunc_sound [wf_intros]:
  "valid_family (f x) \<Longrightarrow>
   gen_sound \<lparr>gen_Name = n, gen_Help = h, gen_Type = t, GenerateFunc = wrapPersistentVolumeClaimFunc f\<rparr> (PersistentVolumeClaim_obj x)"
  by (simp add: gen_sound_def wrapPersistentVolumeClaimFunc_def descPersistentVolumeClaimLabelsDefaultLabels_def)

interpretation persistentvolumeclaim: resource_families persistentVolumeClaimMetricFamilies PersistentVolumeClaim_obj "\<lambda>_. True"
proof
  show "distinct (map gen_Name persistentVolumeClaimMetricFamilies)"
    unfolding persistentVolumeClaimMetricFamilies_def list.map FamilyGenerator.simps by code_simp
  show "list_all (\<lambda>g. header_ok (gen_Name g) (gen_Help g) (gen_Type g)) persistentVolumeClaimMetricFamilies"
    unfolding persistentVolumeClaimMetricFamilies_def list.pred_inject FamilyGenerator.simps by code_simp
  show "list_all (\<lambda>g. gen_sound g (PersistentVolumeClaim_obj r)) persistentVolumeClaimMetricFamilies" for r
    by (simp add: persistentVolumeClaimMetricFamilies_def wrapPersistentVolumeClaimFunc_sound wf_persistentvolumeclaim_families)
qed

end
