(* ===== verification/Store_Misc.thy ===== *)
theory Store_Misc
  imports Store_Utils
begin

text \<open>
  \<open>internal/store\<close>: certificate signing requests, ingresses, leases, webhook configurations,
  network policies, disruption budgets, storage classes and volume attachments.
\<close>

subsection \<open>certificatesigningrequest.go\<close>

definition descCSRLabelsDefaultLabels :: "string list" where
  "descCSRLabelsDefaultLabels = [''certificatesigningrequest'']"

text \<open>The conditions of a request are read by their type only.\<close>

definition addCSRConditionMetrics :: "string list \<Rightarrow> Metric list" where
  "addCSRConditionMetrics cs =
     (let (cApproved, cDenied) =
        foldl (\<lambda>(a, d) s. (if s = ''Approved'' then a + 1 else a, if s = ''Denied'' then d + 1 else d)) (0 :: int, 0 :: int) cs
      in [metric [''condition''] [''approved''] (float64_of_int cApproved),
          metric [''condition''] [''denied''] (float64_of_int cDenied)])"

definition kube_certificatesigningrequest_labels :: "CertificateSigningRequest \<Rightarrow> Family" where
  "kube_certificatesigningrequest_labels x = family (labels_metrics (csr_ObjectMeta x))"

definition kube_certificatesigningrequest_created :: "CertificateSigningRequest \<Rightarrow> Family" where
  "kube_certificatesigningrequest_created x = family (created_metrics (csr_ObjectMeta x))"

definition kube_certificatesigningrequest_condition :: "CertificateSigningRequest \<Rightarrow> Family" where
  "kube_certificatesigningrequest_condition x = family (addCSRConditionMetrics (csr_Conditions x))"

definition kube_certificatesigningrequest_cert_length :: "CertificateSigningRequest \<Rightarrow> Family" where
  "kube_certificatesigningrequest_cert_length x = family ([int_metric (int (length (Certificate x)))])"

definition wrapCSRFunc :: "(CertificateSigningRequest \<Rightarrow> Family) \<Rightarrow> kobject \<Rightarrow> Family go" where
  "wrapCSRFunc f obj =
     (case obj of
        CertificateSigningRequest_obj x \<Rightarrow>
          Inr (add_default_labels descCSRLabelsDefaultLabels [Name (csr_ObjectMeta x)] (f x))
      | _ \<Rightarrow> Inl Type_assertion)"

definition csrMetricFamilies :: "kobject FamilyGenerator list" where
  "csrMetricFamilies =
    [\<lparr>gen_Name = ''kube_certificatesigningrequest_labels'',
       gen_Help = ''Kubernetes labels converted to Prometheus labels.'',
       gen_Type = Gauge, GenerateFunc = wrapCSRFunc kube_certificatesigningrequest_labels\<rparr>,
     \<lparr>gen_Name = ''kube_certificatesigningrequest_created'',
       gen_Help = ''Unix creation timestamp'',
       gen_Type = Gauge, GenerateFunc = wrapCSRFunc kube_certificatesigningrequest_created\<rparr>,
     \<lparr>gen_Name = ''kube_certificatesigningrequest_condition'',
       gen_Help = ''The number of each certificatesigningrequest condition'',
       gen_Type = Gauge, GenerateFunc = wrapCSRFunc kube_certificatesigningrequest_condition\<rparr>,
     \<lparr>gen_Name = ''kube_certificatesigningrequest_cert_length'',
       gen_Help = ''Length of the issued cert'',
       gen_Type = Gauge, GenerateFunc = wrapCSRFunc kube_certificatesigningrequest_cert_length\<rparr>]"

lemma wf_addCSRConditionMetrics [simp]: "valid_metrics (addCSRConditionMetrics cs)"
  by (simp add: addCSRConditionMetrics_def Let_def split: prod.split)

lemmas certificatesigningrequest_family_defs =
  kube_certificatesigningrequest_labels_def kube_certificatesigningrequest_created_def
  kube_certificatesigningrequest_condition_def kube_certificatesigningrequest_cert_length_def

lemma wf_certificatesigningrequest_families:
  "valid_family (kube_certificatesigningrequest_labels x)"
  "valid_family (kube_certificatesigningrequest_created x)"
  "valid_family (kube_certificatesigningrequest_condition x)"
  "valid_family (kube_certificatesigningrequest_cert_length x)"
  by (simp_all add: certificatesigningrequest_family_defs Let_def split: option.split prod.split)

lemma wrapCSRFunc_sound [wf_intros]:
  "valid_family (f x) \<Longrightarrow>
   gen_sound \<lparr>gen_Name = n, gen_Help = h, gen_Type = t, GenerateFunc = wrapCSRFunc f\<rparr> (CertificateSigningRequest_obj x)"
  by (simp add: gen_sound_def wrapCSRFunc_def descCSRLabelsDefaultLabels_def)

interpretation certificatesigningrequest: resource_families csrMetricFamilies CertificateSigningRequest_obj "\<lambda>_. True"
proof
  show "distinct (map gen_Name csrMetricFamilies)"
    unfolding csrMetricFamilies_def list.map FamilyGenerator.simps by code_simp
  show "list_all (\<lambda>g. header_ok (gen_Name g) (gen_Help g) (gen_Type g)) csrMetricFamilies"
    unfolding csrMetricFamilies_def list.pred_inject FamilyGenerator.simps by code_simp
  show "list_all (\<lambda>g. gen_sound g (CertificateSigningRequest_obj r)) csrMetricFamilies" for r
    by (simp add: csrMetricFamilies_def wrapCSRFunc_sound wf_certificatesigningrequest_families)
qed

subsection \<open>ingress.go\<close>

definition descIngressLabelsDefaultLabels :: "string list" where
  "descIngressLabelsDefaultLabels = [''namespace'', ''ingress'']"

definition kube_ingress_info :: "Ingress \<Rightarrow> Family" where
  "kube_ingress_info x = family ([metric [] [] (Fin 1)])"

definition kube_ingress_labels :: "Ingress \<Rightarrow> Family" where
  "kube_ingress_labels x = family (labels_metrics (ing_ObjectMeta x))"

definition kube_ingress_created :: "Ingress \<Rightarrow> Family" where
  "kube_ingress_created x = family (created_metrics (ing_ObjectMeta x))"

definition kube_ingress_metadata_resource_version :: "Ingress \<Rightarrow> Family" where
  "kube_ingress_metadata_resource_version x =
     family (resourceVersionMetric (ResourceVersion (ing_ObjectMeta x)))"

definition kube_ingress_path :: "Ingress \<Rightarrow> Family" where
  "kube_ingress_path x =
     family (concat (map (\<lambda>rule. case HTTP rule of
          None \<Rightarrow> []
        | Some paths \<Rightarrow>
            map (\<lambda>p. metric [''host'', ''path'', ''service_name'', ''service_port'']
                       [Host rule, ip_Path p, ServiceName p, IntOrString_String (ServicePort p)] (Fin 1)) paths)
        (Rules x)))"

definition kube_ingress_tls :: "Ingress \<Rightarrow> Family" where
  "kube_ingress_tls x =
     family (concat (map (\<lambda>tls. map (\<lambda>host. metric [''tls_host'', ''secret''] [host, SecretName tls] (Fin 1)) (Hosts tls)) (ing_TLS x)))"

definition wrapIngressFunc :: "(Ingress \<Rightarrow> Family) \<Rightarrow> kobject \<Rightarrow> Family go" where
  "wrapIngressFunc f obj =
     (case obj of
        Ingress_obj x \<Rightarrow>
          Inr (add_default_labels descIngressLabelsDefaultLabels [Namespace (ing_ObjectMeta x), Name (ing_ObjectMeta x)] (f x))
      | _ \<Rightarrow> Inl Type_assertion)"

definition ingressMetricFamilies :: "kobject FamilyGenerator list" where
  "ingressMetricFamilies =
    [\<lparr>gen_Name = ''kube_ingress_info'',
       gen_Help = ''Information about ingress.'',
       gen_Type = Gauge, GenerateFunc = wrapIngressFunc kube_ingress_info\<rparr>,
     \<lparr>gen_Name = ''kube_ingress_labels'',
       gen_Help = ''Kubernetes labels converted to Prometheus labels.'',
       gen_Type = Gauge, GenerateFunc = wrapIngressFunc kube_ingress_labels\<rparr>,
     \<lparr>gen_Name = ''kube_ingress_created'',
       gen_Help = ''Unix creation timestamp'',
       gen_Type = Gauge, GenerateFunc = wrapIngressFunc kube_ingress_created\<rparr>,
     \<lparr>gen_Name = ''kube_ingress_metadata_resource_version'',
       gen_Help = ''Resource version representing a specific version of ingress.'',
       gen_Type = Gauge, GenerateFunc = wrapIngressFunc kube_ingress_metadata_resource_version\<rparr>,
     \<lparr>gen_Name = ''kube_ingress_path'',
       gen_Help = ''Ingress host, paths and backend service information.'',
       gen_Type = Gauge, GenerateFunc = wrapIngressFunc kube_ingress_path\<rparr>,
     \<lparr>gen_Name = ''kube_ingress_tls'',
       gen_Help = ''Ingress TLS host and secret information.'',
       gen_Type = Gauge, GenerateFunc = wrapIngressFunc kube_ingress_tls\<rparr>]"

lemmas ingress_family_defs =
  kube_ingress_info_def kube_ingress_labels_def kube_ingress_created_def
  kube_ingress_metadata_resource_version_def kube_ingress_path_def kube_ingress_tls_def

lemma wf_ingress_families:
  "valid_family (kube_ingress_info x)" "valid_family (kube_ingress_labels x)"
  "valid_family (kube_ingress_created x)" "valid_family (kube_ingress_metadata_resource_version x)"
  "valid_family (kube_ingress_path x)" "valid_family (kube_ingress_tls x)"
  by (simp_all add: ingress_family_defs Let_def split: option.split prod.split)

lemma wrapIngressFunc_sound [wf_intros]:
  "valid_family (f x) \<Longrightarrow>
   gen_sound \<lparr>gen_Name = n, gen_Help = h, gen_Type = t, GenerateFunc = wrapIngressFunc f\<rparr> (Ingress_obj x)"
  by (simp add: gen_sound_def wrapIngressFunc_def descIngressLabelsDefaultLabels_def)

interpretation ingress: resource_families ingressMetricFamilies Ingress_obj "\<lambda>_. True"
proof
  show "distinct (map gen_Name ingressMetricFamilies)"
    unfolding ingressMetricFamilies_def list.map FamilyGenerator.simps by code_simp
  show "list_all (\<lambda>g. header_ok (gen_Name g) (gen_Help g) (gen_Type g)) ingressMetricFamilies"
    unfolding ingressMetricFamilies_def list.pred_inject FamilyGenerator.simps by code_simp
  show "list_all (\<lambda>g. gen_sound g (Ingress_obj r)) ingressMetricFamilies" for r
    by (simp add: ingressMetricFamilies_def wrapIngressFunc_sound wf_ingress_families)
qed

subsection \<open>lease.go\<close>

definition descLeaseLabelsDefaultLabels :: "string list" where
  "descLeaseLabelsDefaultLabels = [''lease'']"

definition kube_lease_owner :: "Lease \<Rightarrow> Family" where
  "kube_lease_owner x =
     family (if length (OwnerReferences (lease_ObjectMeta x)) = 0
             then [metric [''owner_kind'', ''owner_name''] [''<none>'', ''<none>''] (Fin 1)]
             else map (\<lambda>owner. metric [''owner_kind'', ''owner_name''] [or_Kind owner, or_Name owner] (Fin 1))
                    (OwnerReferences (lease_ObjectMeta x)))"

definition kube_lease_renew_time :: "Lease \<Rightarrow> Family" where
  "kube_lease_renew_time x =
     family (case RenewTime x of
               None \<Rightarrow> []
             | Some t \<Rightarrow> if \<not> IsZero t then [timestamp_metric t] else [])"

definition wrapLeaseFunc :: "(Lease \<Rightarrow> Family) \<Rightarrow> kobject \<Rightarrow> Family go" where
  "wrapLeaseFunc f obj =
     (case obj of
        Lease_obj x \<Rightarrow>
          Inr (add_default_labels descLeaseLabelsDefaultLabels [Name (lease_ObjectMeta x)] (f x))
      | _ \<Rightarrow> Inl Type_assertion)"

definition leaseMetricFamilies :: "kobject FamilyGenerator list" where
  "leaseMetricFamilies =
    [\<lparr>gen_Name = ''kube_lease_owner'',
       gen_Help = ''Information about the Lease's owner.'',
       gen_Type = Gauge, GenerateFunc = wrapLeaseFunc kube_lease_owner\<rparr>,
     \<lparr>gen_Name = ''kube_lease_renew_time'',
       gen_Help = ''Kube lease renew time.'',
       gen_Type = Gauge, GenerateFunc = wrapLeaseFunc kube_lease_renew_time\<rparr>]"

lemmas lease_family_defs =
  kube_lease_owner_def kube_lease_renew_time_def

lemma wf_lease_families:
  "valid_family (kube_lease_owner x)" "valid_family (kube_lease_renew_time x)"
  by (simp_all add: lease_family_defs Let_def split: option.split prod.split)

lemma wrapLeaseFunc_sound [wf_intros]:
  "valid_family (f x) \<Longrightarrow>
   gen_sound \<lparr>gen_Name = n, gen_Help = h, gen_Type = t, GenerateFunc = wrapLeaseFunc f\<rparr> (Lease_obj x)"
  by (simp add: gen_sound_def wrapLeaseFunc_def descLeaseLabelsDefaultLabels_def)

interpretation lease: resource_families leaseMetricFamilies Lease_obj "\<lambda>_. True"
proof
  show "distinct (map gen_Name leaseMetricFamilies)"
    unfolding leaseMetricFamilies_def list.map FamilyGenerator.simps by code_simp
  show "list_all (\<lambda>g. header_ok (gen_Name g) (gen_Help g) (gen_Type g)) leaseMetricFamilies"
    unfolding leaseMetricFamilies_def list.pred_inject FamilyGenerator.simps by code_simp
  show "list_all (\<lambda>g. gen_sound g (Lease_obj r)) leaseMetricFamilies" for r
    by (simp add: leaseMetricFamilies_def wrapLeaseFunc_sound wf_lease_families)
qed

subsection \<open>mutatingwebhookconfiguration.go\<close>

definition descMutatingWebhookConfigurationDefaultLabels :: "string list" where
  "descMutatingWebhookConfigurationDefaultLabels = [''namespace'', ''mutatingwebhookconfiguration'']"

definition kube_mutatingwebhookconfiguration_info :: "MutatingWebhookConfiguration \<Rightarrow> Family" where
  "kube_mutatingwebhookconfiguration_info x = family ([metric [] [] (Fin 1)])"

definition kube_mutatingwebhookconfiguration_created :: "MutatingWebhookConfiguration \<Rightarrow> Family" where
  "kube_mutatingwebhookconfiguration_created x = family (created_metrics (mwc_ObjectMeta x))"

definition kube_mutatingwebhookconfiguration_metadata_resource_version :: "MutatingWebhookConfiguration \<Rightarrow> Family" where
  "kube_mutatingwebhookconfiguration_metadata_resource_version x =
     family (resourceVersionMetric (ResourceVersion (mwc_ObjectMeta x)))"

definition wrapMutatingWebhookConfigurationFunc :: "(MutatingWebhookConfiguration \<Rightarrow> Family) \<Rightarrow> kobject \<Rightarrow> Family go" where
  "wrapMutatingWebhookConfigurationFunc f obj =
     (case obj of
        MutatingWebhookConfiguration_v1beta1_obj x \<Rightarrow>
          Inr (add_default_labels descMutatingWebhookConfigurationDefaultLabels [Namespace (mwc_ObjectMeta x), Name (mwc_ObjectMeta x)] (f x))
      | _ \<Rightarrow> Inl Type_assertion)"

definition mutatingWebhookConfigurationMetricFamilies :: "kobject FamilyGenerator list" where
  "mutatingWebhookConfigurationMetricFamilies =
    [\<lparr>gen_Name = ''kube_mutatingwebhookconfiguration_info'',
       gen_Help = ''Information about the MutatingWebhookConfiguration.'',
       gen_Type = Gauge, GenerateFunc = wrapMutatingWebhookConfigurationFunc kube_mutatingwebhookconfiguration_info\<rparr>,
     \<lparr>gen_Name = ''kube_mutatingwebhookconfiguration_created'',
       gen_Help = ''Unix creation timestamp.'',
       gen_Type = Gauge, GenerateFunc = wrapMutatingWebhookConfigurationFunc kube_mutatingwebhookconfiguration_created\<rparr>,
     \<lparr>gen_Name = ''kube_mutatingwebhookconfiguration_metadata_resource_version'',
       gen_Help = ''Resource version representing a specific version of the MutatingWebhookConfiguration.'',
       gen_Type = Gauge, GenerateFunc = wrapMutatingWebhookConfigurationFunc kube_mutatingwebhookconfiguration_metadata_resource_version\<rparr>]"

lemmas mutatingwebhookconfiguration_family_defs =
  kube_mutatingwebhookconfiguration_info_def kube_mutatingwebhookconfiguration_created_def
  kube_mutatingwebhookconfiguration_metadata_resource_version_def

lemma wf_mutatingwebhookconfiguration_families:
  "valid_family (kube_mutatingwebhookconfiguration_info x)"
  "valid_family (kube_mutatingwebhookconfiguration_created x)"
  "valid_family (kube_mutatingwebhookconfiguration_metadata_resource_version x)"
  by (simp_all add: mutatingwebhookconfiguration_family_defs Let_def split: option.split prod.split)

lemma wrapMutatingWebhookConfigurationFunc_sound [wf_intros]:
  "valid_family (f x) \<Longrightarrow>
   gen_sound \<lparr>gen_Name = n, gen_Help = h, gen_Type = t, GenerateFunc = wrapMutatingWebhookConfigurationFunc f\<rparr> (MutatingWebhookConfiguration_v1beta1_obj x)"
  by (simp add: gen_sound_def wrapMutatingWebhookConfigurationFunc_def descMutatingWebhookConfigurationDefaultLabels_def)

interpretation mutatingwebhookconfiguration: resource_families mutatingWebhookConfigurationMetricFamilies MutatingWebhookConfiguration_v1beta1_obj "\<lambda>_. True"
proof
  show "distinct (map gen_Name mutatingWebhookConfigurationMetricFamilies)"
    unfolding mutatingWebhookConfigurationMetricFamilies_def list.map FamilyGenerator.simps by code_simp
  show "list_all (\<lambda>g. header_ok (gen_Name g) (gen_Help g) (gen_Type g)) mutatingWebhookConfigurationMetricFamilies"
    unfolding mutatingWebhookConfigurationMetricFamilies_def list.pred_inject FamilyGenerator.simps by code_simp
  show "list_all (\<lambda>g. gen_sound g (MutatingWebhookConfiguration_v1beta1_obj r)) mutatingWebhookConfigurationMetricFamilies" for r
    by (simp add: mutatingWebhookConfigurationMetricFamilies_def wrapMutatingWebhookConfigurationFunc_sound wf_mutatingwebhookconfiguration_families)
qed

subsection \<open>validatingwebhookconfiguration.go\<close>

definition descValidatingWebhookConfigurationDefaultLabels :: "string list" where
  "descValidatingWebhookConfigurationDefaultLabels = [''namespace'', ''validatingwebhookconfiguration'']"

definition kube_validatingwebhookconfiguration_info :: "ValidatingWebhookConfiguration \<Rightarrow> Family" where
  "kube_validatingwebhookconfiguration_info x = family ([metric [] [] (Fin 1)])"

definition kube_validatingwebhookconfiguration_created :: "ValidatingWebhookConfiguration \<Rightarrow> Family" where
  "kube_validatingwebhookconfiguration_created x = family (created_metrics (vwc_ObjectMeta x))"

definition kube_validatingwebhookconfiguration_metadata_resource_version :: "ValidatingWebhookConfiguration \<Rightarrow> Family" where
  "kube_validatingwebhookconfiguration_metadata_resource_version x =
     family (resourceVersionMetric (ResourceVersion (vwc_ObjectMeta x)))"

definition wrapValidatingWebhookConfigurationFunc :: "(ValidatingWebhookConfiguration \<Rightarrow> Family) \<Rightarrow> kobject \<Rightarrow> Family go" where
  "wrapValidatingWebhookConfigurationFunc f obj =
     (case obj of
        ValidatingWebhookConfiguration_obj x \<Rightarrow>
          Inr (add_default_labels descValidatingWebhookConfigurationDefaultLabels [Namespace (vwc_ObjectMeta x), Name (vwc_ObjectMeta x)] (f x))
      | _ \<Rightarrow> Inl Type_assertion)"

definition validatingWebhookConfigurationMetricFamilies :: "kobject FamilyGenerator list" where
  "validatingWebhookConfigurationMetricFamilies =
    [\<lparr>gen_Name = ''kube_validatingwebhookconfiguration_info'',
       gen_Help = ''Information about the ValidatingWebhookConfiguration.'',
       gen_Type = Gauge, GenerateFunc = wrapValidatingWebhookConfigurationFunc kube_validatingwebhookconfiguration_info\<rparr>,
     \<lparr>gen_Name = ''kube_validatingwebhookconfiguration_created'',
       gen_Help = ''Unix creation timestamp.'',
       gen_Type = Gauge, GenerateFunc = wrapValidatingWebhookConfigurationFunc kube_validatingwebhookconfiguration_created\<rparr>,
     \<lparr>gen_Name = ''kube_validatingwebhookconfiguration_metadata_resource_version'',
       gen_Help = ''Resource version representing a specific version of the ValidatingWebhookConfiguration.'',
       gen_Type = Gauge, GenerateFunc = wrapValidatingWebhookConfigurationFunc kube_validatingwebhookconfiguration_metadata_resource_version\<rparr>]"

lemmas validatingwebhookconfiguration_family_defs =
  kube_validatingwebhookconfiguration_info_def kube_validatingwebhookconfiguration_created_def
  kube_validatingwebhookconfiguration_metadata_resource_version_def

lemma wf_validatingwebhookconfiguration_families:
  "valid_family (kube_validatingwebhookconfiguration_info x)"
  "valid_family (kube_validatingwebhookconfiguration_created x)"
  "valid_family (kube_validatingwebhookconfiguration_metadata_resource_version x)"
  by (simp_all add: validatingwebhookconfiguration_family_defs Let_def split: option.split prod.split)

lemma wrapValidatingWebhookConfigurationFunc_sound [wf_intros]:
  "valid_family (f x) \<Longrightarrow>
   gen_sound \<lparr>gen_Name = n, gen_Help = h, gen_Type = t, GenerateFunc = wrapValidatingWebhookConfigurationFunc f\<rparr> (ValidatingWebhookConfiguration_obj x)"
  by (simp add: gen_sound_def wrapValidatingWebhookConfigurationFunc_def descValidatingWebhookConfigurationDefaultLabels_def)

interpretation validatingwebhookconfiguration: resource_families validatingWebhookConfigurationMetricFamilies ValidatingWebhookConfiguration_obj "\<lambda>_. True"
proof
  show "distinct (map gen_Name validatingWebhookConfigurationMetricFamilies)"
    unfolding validatingWebhookConfigurationMetricFamilies_def list.map FamilyGenerator.simps by code_simp
  show "list_all (\<lambda>g. header_ok (gen_Name g) (gen_Help g) (gen_Type g)) validatingWebhookConfigurationMetricFamilies"
    unfolding validatingWebhookConfigurationMetricFamilies_def list.pred_inject FamilyGenerator.simps by code_simp
  show "list_all (\<lambda>g. gen_sound g (ValidatingWebhookConfiguration_obj r)) validatingWebhookConfigurationMetricFamilies" for r
    by (simp add: validatingWebhookConfigurationMetricFamilies_def wrapValidatingWebhookConfigurationFunc_sound wf_validatingwebhookconfiguration_families)
qed

subsection \<open>networkpolicy.go\<close>

definition descNetworkPolicyLabelsDefaultLabels :: "string list" where
  "descNetworkPolicyLabelsDefaultLabels = [''namespace'', ''networkpolicy'']"

definition kube_networkpolicy_created :: "NetworkPolicy \<Rightarrow> Family" where
  "kube_networkpolicy_created x = family ([timestamp_metric (CreationTimestamp (np_ObjectMeta x))])"

definition kube_networkpolicy_labels :: "NetworkPolicy \<Rightarrow> Family" where
  "kube_networkpolicy_labels x = family (labels_metrics (np_ObjectMeta x))"

definition kube_networkpolicy_spec_ingress_rules :: "NetworkPolicy \<Rightarrow> Family" where
  "kube_networkpolicy_spec_ingress_rules x = family ([int_metric (int (length (np_Ingress x)))])"

definition kube_networkpolicy_spec_egress_rules :: "NetworkPolicy \<Rightarrow> Family" where
  "kube_networkpolicy_spec_egress_rules x = family ([int_metric (int (length (np_Egress x)))])"

definition wrapNetworkPolicyFunc :: "(NetworkPolicy \<Rightarrow> Family) \<Rightarrow> kobject \<Rightarrow> Family go" where
  "wrapNetworkPolicyFunc f obj =
     (case obj of
        NetworkPolicy_obj x \<Rightarrow>
          Inr (add_default_labels descNetworkPolicyLabelsDefaultLabels [Namespace (np_ObjectMeta x), Name (np_ObjectMeta x)] (f x))
      | _ \<Rightarrow> Inl Type_assertion)"

definition networkpolicyMetricFamilies :: "kobject FamilyGenerator list" where
  "networkpolicyMetricFamilies =
    [\<lparr>gen_Name = ''kube_networkpolicy_created'',
       gen_Help = ''Unix creation timestamp of network policy'',
       gen_Type = Gauge, GenerateFunc = wrapNetworkPolicyFunc kube_networkpolicy_created\<rparr>,
     \<lparr>gen_Name = ''kube_networkpolicy_labels'',
       gen_Help = ''Kubernetes labels converted to Prometheus labels'',
       gen_Type = Gauge, GenerateFunc = wrapNetworkPolicyFunc kube_networkpolicy_labels\<rparr>,
     \<lparr>gen_Name = ''kube_networkpolicy_spec_ingress_rules'',
       gen_Help = ''Number of ingress rules on the networkpolicy'',
       gen_Type = Gauge, GenerateFunc = wrapNetworkPolicyFunc kube_networkpolicy_spec_ingress_rules\<rparr>,
     \<lparr>gen_Name = ''kube_networkpolicy_spec_egress_rules'',
       gen_Help = ''Number of egress rules on the networkpolicy'',
       gen_Type = Gauge, GenerateFunc = wrapNetworkPolicyFunc kube_networkpolicy_spec_egress_rules\<rparr>]"

lemmas networkpolicy_family_defs =
  kube_networkpolicy_created_def kube_networkpolicy_labels_def
  kube_networkpolicy_spec_ingress_rules_def kube_networkpolicy_spec_egress_rules_def

lemma wf_networkpolicy_families:
  "valid_family (kube_networkpolicy_created x)" "valid_family (kube_networkpolicy_labels x)"
  "valid_family (kube_networkpolicy_spec_ingress_rules x)"
  "valid_family (kube_networkpolicy_spec_egress_rules x)"
  by (simp_all add: networkpolicy_family_defs Let_def split: option.split prod.split)

lemma wrapNetworkPolicyFunc_sound [wf_intros]:
  "valid_family (f x) \<Longrightarrow>
   gen_sound \<lparr>gen_Name = n, gen_Help = h, gen_Type = t, GenerateFunc = wrapNetworkPolicyFunc f\<rparr> (NetworkPolicy_obj x)"
  by (simp add: gen_sound_def wrapNetworkPolicyFunc_def descNetworkPolicyLabelsDefaultLabels_def)

interpretation networkpolicy: resource_families networkpolicyMetricFamilies NetworkPolicy_obj "\<lambda>_. True"
proof
  show "distinct (map gen_Name networkpolicyMetricFamilies)"
    unfolding networkpolicyMetricFamilies_def list.map FamilyGenerator.simps by code_simp
  show "list_all (\<lambda>g. header_ok (gen_Name g) (gen_Help g) (gen_Type g)) networkpolicyMetricFamilies"
    unfolding networkpolicyMetricFamilies_def list.pred_inject FamilyGenerator.simps by code_simp
  show "list_all (\<lambda>g. gen_sound g (NetworkPolicy_obj r)) networkpolicyMetricFamilies" for r
    by (simp add: networkpolicyMetricFamilies_def wrapNetworkPolicyFunc_sound wf_networkpolicy_families)
qed

subsection \<open>poddisruptionbudget.go\<close>

definition descPodDisruptionBudgetLabelsDefaultLabels :: "string list" where
  "descPodDisruptionBudgetLabelsDefaultLabels = [''namespace'', ''poddisruptionbudget'']"

definition kube_poddisruptionbudget_created :: "PodDisruptionBudget \<Rightarrow> Family" where
  "kube_poddisruptionbudget_created x = family (created_metrics (pdb_ObjectMeta x))"

definition kube_poddisruptionbudget_status_current_healthy :: "PodDisruptionBudget \<Rightarrow> Family" where
  "kube_poddisruptionbudget_status_current_healthy x = family ([int_metric (CurrentHealthy x)])"

definition kube_poddisruptionbudget_status_desired_healthy :: "PodDisruptionBudget \<Rightarrow> Family" where
  "kube_poddisruptionbudget_status_desired_healthy x = family ([int_metric (DesiredHealthy x)])"

definition kube_poddisruptionbudget_status_pod_disruptions_allowed :: "PodDisruptionBudget \<Rightarrow> Family" where
  "kube_poddisruptionbudget_status_pod_disruptions_allowed x =
     family ([int_metric (PodDisruptionsAllowed x)])"

definition kube_poddisruptionbudget_status_expected_pods :: "PodDisruptionBudget \<Rightarrow> Family" where
  "kube_poddisruptionbudget_status_expected_pods x = family ([int_metric (ExpectedPods x)])"

definition kube_poddisruptionbudget_status_observed_generation :: "PodDisruptionBudget \<Rightarrow> Family" where
  "kube_poddisruptionbudget_status_observed_generation x = family ([int_metric (pdb_ObservedGeneration x)])"

definition wrapPodDisruptionBudgetFunc :: "(PodDisruptionBudget \<Rightarrow> Family) \<Rightarrow> kobject \<Rightarrow> Family go" where
  "wrapPodDisruptionBudgetFunc f obj =
     (case obj of
        PodDisruptionBudget_obj x \<Rightarrow>
          Inr (add_default_labels descPodDisruptionBudgetLabelsDefaultLabels [Namespace (pdb_ObjectMeta x), Name (pdb_ObjectMeta x)] (f x))
      | _ \<Rightarrow> Inl Type_assertion)"

definition podDisruptionBudgetMetricFamilies :: "kobject FamilyGenerator list" where
  "podDisruptionBudgetMetricFamilies =
    [\<lparr>gen_Name = ''kube_poddisruptionbudget_created'',
       gen_Help = ''Unix creation timestamp'',
       gen_Type = Gauge, GenerateFunc = wrapPodDisruptionBudgetFunc kube_poddisruptionbudget_created\<rparr>,
     \<lparr>gen_Name = ''kube_poddisruptionbudget_status_current_healthy'',
       gen_Help = ''Current number of healthy pods'',
       gen_Type = Gauge, GenerateFunc = wrapPodDisruptionBudgetFunc kube_poddisruptionbudget_status_current_healthy\<rparr>,
     \<lparr>gen_Name = ''kube_poddisruptionbudget_status_desired_healthy'',
       gen_Help = ''Minimum desired number of healthy pods'',
       gen_Type = Gauge, GenerateFunc = wrapPodDisruptionBudgetFunc kube_poddisruptionbudget_status_desired_healthy\<rparr>,
     \<lparr>gen_Name = ''kube_poddisruptionbudget_status_pod_disruptions_allowed'',
       gen_Help = ''Number of pod disruptions that are currently allowed'',
       gen_Type = Gauge, GenerateFunc = wrapPodDisruptionBudgetFunc kube_poddisruptionbudget_status_pod_disruptions_allowed\<rparr>,
     \<lparr>gen_Name = ''kube_poddisruptionbudget_status_expected_pods'',
       gen_Help = ''Total number of pods counted by this disruption budget'',
       gen_Type = Gauge, GenerateFunc = wrapPodDisruptionBudgetFunc kube_poddisruptionbudget_status_expected_pods\<rparr>,
     \<lparr>gen_Name = ''kube_poddisruptionbudget_status_observed_generation'',
       gen_Help = ''Most recent generation observed when updating this PDB status'',
       gen_Type = Gauge, GenerateFunc = wrapPodDisruptionBudgetFunc kube_poddisruptionbudget_status_observed_generation\<rparr>]"

lemmas poddisruptionbudget_family_defs =
  kube_poddisruptionbudget_created_def kube_poddisruptionbudget_status_current_healthy_def
  kube_poddisruptionbudget_status_desired_healthy_def
  kube_poddisruptionbudget_status_pod_disruptions_allowed_def
  kube_poddisruptionbudget_status_expected_pods_def
  kube_poddisruptionbudget_status_observed_generation_def

lemma wf_poddisruptionbudget_families:
  "valid_family (kube_poddisruptionbudget_created x)"
  "valid_family (kube_poddisruptionbudget_status_current_healthy x)"
  "valid_family (kube_poddisruptionbudget_status_desired_healthy x)"
  "valid_family (kube_poddisruptionbudget_status_pod_disruptions_allowed x)"
  "valid_family (kube_poddisruptionbudget_status_expected_pods x)"
  "valid_family (kube_poddisruptionbudget_status_observed_generation x)"
  by (simp_all add: poddisruptionbudget_family_defs Let_def split: option.split prod.split)

lemma wrapPodDisruptionBudgetFunc_sound [wf_intros]:
  "valid_family (f x) \<Longrightarrow>
   gen_sound \<lparr>gen_Name = n, gen_Help = h, gen_Type = t, GenerateFunc = wrapPodDisruptionBudgetFunc f\<rparr> (PodDisruptionBudget_obj x)"
  by (simp add: gen_sound_def wrapPodDisruptionBudgetFunc_def descPodDisruptionBudgetLabelsDefaultLabels_def)

interpretation poddisruptionbudget: resource_families podDisruptionBudgetMetricFamilies PodDisruptionBudget_obj "\<lambda>_. True"
proof
  show "distinct (map gen_Name podDisruptionBudgetMetricFamilies)"
    unfolding podDisruptionBudgetMetricFamilies_def list.map FamilyGenerator.simps by code_simp
  show "list_all (\<lambda>g. header_ok (gen_Name g) (gen_Help g) (gen_Type g)) podDisruptionBudgetMetricFamilies"
    unfolding podDisruptionBudgetMetricFamilies_def list.pred_inject FamilyGenerator.simps by code_simp
  show "list_all (\<lambda>g. gen_sound g (PodDisruptionBudget_obj r)) podDisruptionBudgetMetricFamilies" for r
    by (simp add: podDisruptionBudgetMetricFamilies_def wrapPodDisruptionBudgetFunc_sound wf_poddisruptionbudget_families)
qed

subsection \<open>storageclass.go\<close>

definition descStorageClassLabelsDefaultLabels :: "string list" where
  "descStorageClassLabelsDefaultLabels = [''storageclass'']"

text \<open>
  \<open>kube_storageclass_info\<close> writes the missing defaults into the object itself. No other code reads
  the two fields, so only the values that end up in them are kept here.
\<close>

definition defaultReclaimPolicy :: string where
  "defaultReclaimPolicy = ''Delete''"

definition defaultVolumeBindingMode :: string where
  "defaultVolumeBindingMode = ''Immediate''"

definition fill_defaults :: "StorageClass \<Rightarrow> string \<times> string" where
  "fill_defaults s =
     (case ReclaimPolicy s of None \<Rightarrow> defaultReclaimPolicy | Some r \<Rightarrow> r,
      case VolumeBindingMode s of None \<Rightarrow> defaultVolumeBindingMode | Some m \<Rightarrow> m)"

definition kube_storageclass_info :: "StorageClass \<Rightarrow> Family" where
  "kube_storageclass_info x =
     family (case fill_defaults x of (reclaimPolicy, volumeBindingMode) \<Rightarrow>
               [metric [''provisioner'', ''reclaimPolicy'', ''volumeBindingMode'']
                  [Provisioner x, reclaimPolicy, volumeBindingMode] (Fin 1)])"

definition kube_storageclass_created :: "StorageClass \<Rightarrow> Family" where
  "kube_storageclass_created x = family (created_metrics (sc_ObjectMeta x))"

definition kube_storageclass_labels :: "StorageClass \<Rightarrow> Family" where
  "kube_storageclass_labels x = family (labels_metrics (sc_ObjectMeta x))"

definition wrapStorageClassFunc :: "(StorageClass \<Rightarrow> Family) \<Rightarrow> kobject \<Rightarrow> Family go" where
  "wrapStorageClassFunc f obj =
     (case obj of
        StorageClass_obj x \<Rightarrow>
          Inr (add_default_labels descStorageClassLabelsDefaultLabels [Name (sc_ObjectMeta x)] (f x))
      | _ \<Rightarrow> Inl Type_assertion)"

definition storageClassMetricFamilies :: "kobject FamilyGenerator list" where
  "storageClassMetricFamilies =
    [\<lparr>gen_Name = ''kube_storageclass_info'',
       gen_Help = ''Information about storageclass.'',
       gen_Type = Gauge, GenerateFunc = wrapStorageClassFunc kube_storageclass_info\<rparr>,
     \<lparr>gen_Name = ''kube_storageclass_created'',
       gen_Help = ''Unix creation timestamp'',
       gen_Type = Gauge, GenerateFunc = wrapStorageClassFunc kube_storageclass_created\<rparr>,
     \<lparr>gen_Name = ''kube_storageclass_labels'',
       gen_Help = ''Kubernetes labels converted to Prometheus labels.'',
       gen_Type = Gauge, GenerateFunc = wrapStorageClassFunc kube_storageclass_labels\<rparr>]"

lemmas storageclass_family_defs =
  kube_storageclass_info_def kube_storageclass_created_def kube_storageclass_labels_def

lemma wf_storageclass_families:
  "valid_family (kube_storageclass_info x)" "valid_family (kube_storageclass_created x)"
  "valid_family (kube_storageclass_labels x)"
  by (simp_all add: storageclass_family_defs Let_def split: option.split prod.split)

lemma wrapStorageClassFunc_sound [wf_intros]:
  "valid_family (f x) \<Longrightarrow>
   gen_sound \<lparr>gen_Name = n, gen_Help = h, gen_Type = t, GenerateFunc = wrapStorageClassFunc f\<rparr> (StorageClass_obj x)"
  by (simp add: gen_sound_def wrapStorageClassFunc_def descStorageClassLabelsDefaultLabels_def)

interpretation storageclass: resource_families storageClassMetricFamilies StorageClass_obj "\<lambda>_. True"
proof
  show "distinct (map gen_Name storageClassMetricFamilies)"
    unfolding storageClassMetricFamilies_def list.map FamilyGenerator.simps by code_simp
  show "list_all (\<lambda>g. header_ok (gen_Name g) (gen_Help g) (gen_Type g)) storageClassMetricFamilies"
    unfolding storageClassMetricFamilies_def list.pred_inject FamilyGenerator.simps by code_simp
  show "list_all (\<lambda>g. gen_sound g (StorageClass_obj r)) storageClassMetricFamilies" for r
    by (simp add: storageClassMetricFamilies_def wrapStorageClassFunc_sound wf_storageclass_families)
qed

subsection \<open>volumeattachment.go\<close>

definition descVolumeAttachmentLabelsDefaultLabels :: "string list" where
  "descVolumeAttachmentLabelsDefaultLabels = [''volumeattachment'']"

definition kube_volumeattachment_labels :: "VolumeAttachment \<Rightarrow> Family" where
  "kube_volumeattachment_labels x = family (labels_metrics (va_ObjectMeta x))"

definition kube_volumeattachment_info :: "VolumeAttachment \<Rightarrow> Family" where
  "kube_volumeattachment_info x =
     family ([metric [''attacher'', ''nodeName''] [Attacher x, va_NodeName x] (Fin 1)])"

definition kube_volumeattachment_created :: "VolumeAttachment \<Rightarrow> Family" where
  "kube_volumeattachment_created x = family (created_metrics (va_ObjectMeta x))"

definition kube_volumeattachment_spec_source_persistentvolume :: "VolumeAttachment \<Rightarrow> Family" where
  "kube_volumeattachment_spec_source_persistentvolume x =
     family (case PersistentVolumeName x of
               Some n \<Rightarrow> [metric [''volumename''] [n] (Fin 1)] | None \<Rightarrow> [])"

definition kube_volumeattachment_status_attached :: "VolumeAttachment \<Rightarrow> Family" where
  "kube_volumeattachment_status_attached x = family ([metric [] [] (boolFloat64 (Attached x))])"

definition kube_volumeattachment_status_attachment_metadata :: "VolumeAttachment \<Rightarrow> Family" where
  "kube_volumeattachment_status_attachment_metadata x =
     family (case mapToPrometheusLabels (AttachmentMetadata x) ''metadata'' of (ks, vs) \<Rightarrow>
               [metric ks vs (Fin 1)])"

definition wrapVolumeAttachmentFunc :: "(VolumeAttachment \<Rightarrow> Family) \<Rightarrow> kobject \<Rightarrow> Family go" where
  "wrapVolumeAttachmentFunc f obj =
     (case obj of
        VolumeAttachment_v1beta1_obj x \<Rightarrow>
          Inr (add_default_labels descVolumeAttachmentLabelsDefaultLabels [Name (va_ObjectMeta x)] (f x))
      | _ \<Rightarrow> Inl Type_assertion)"

definition volumeAttachmentMetricFamilies :: "kobject FamilyGenerator list" where
  "volumeAttachmentMetricFamilies =
    [\<lparr>gen_Name = ''kube_volumeattachment_labels'',
       gen_Help = ''Kubernetes labels converted to Prometheus labels.'',
       gen_Type = Gauge, GenerateFunc = wrapVolumeAttachmentFunc kube_volumeattachment_labels\<rparr>,
     \<lparr>gen_Name = ''kube_volumeattachment_info'',
       gen_Help = ''Information about volumeattachment.'',
       gen_Type = Gauge, GenerateFunc = wrapVolumeAttachmentFunc kube_volumeattachment_info\<rparr>,
     \<lparr>gen_Name = ''kube_volumeattachment_created'',
       gen_Help = ''Unix creation timestamp'',
       gen_Type = Gauge, GenerateFunc = wrapVolumeAttachmentFunc kube_volumeattachment_created\<rparr>,
     \<lparr>gen_Name = ''kube_volumeattachment_spec_source_persistentvolume'',
       gen_Help = ''PersistentVolume source reference.'',
       gen_Type = Gauge, GenerateFunc = wrapVolumeAttachmentFunc kube_volumeattachment_spec_source_persistentvolume\<rparr>,
     \<lparr>gen_Name = ''kube_volumeattachment_status_attached'',
       gen_Help = ''Information about volumeattachment.'',
       gen_Type = Gauge, GenerateFunc = wrapVolumeAttachmentFunc kube_volumeattachment_status_attached\<rparr>,
     \<lparr>gen_Name = ''kube_volumeattachment_status_attachment_metadata'',
       gen_Help = ''volumeattachment metadata.'',
       gen_Type = Gauge, GenerateFunc = wrapVolumeAttachmentFunc kube_volumeattachment_status_attachment_metadata\<rparr>]"

lemmas volumeattachment_family_defs =
  kube_volumeattachment_labels_def kube_volumeattachment_info_def
  kube_volumeattachment_created_def kube_volumeattachment_spec_source_persistentvolume_def
  kube_volumeattachment_status_attached_def
  kube_volumeattachment_status_attachment_metadata_def

lemma wf_volumeattachment_families:
  "valid_family (kube_volumeattachment_labels x)" "valid_family (kube_volumeattachment_info x)"
  "valid_family (kube_volumeattachment_created x)"
  "valid_family (kube_volumeattachment_spec_source_persistentvolume x)"
  "valid_family (kube_volumeattachment_status_attached x)"
  "valid_family (kube_volumeattachment_status_attachment_metadata x)"
  by (auto simp: volumeattachment_family_defs Let_def mapToPrometheusLabels_lengths split: option.split prod.split
      dest: mapToPrometheusLabels_names[rotated])

lemma wrapVolumeAttachmentFunc_sound [wf_intros]:
  "valid_family (f x) \<Longrightarrow>
   gen_sound \<lparr>gen_Name = n, gen_Help = h, gen_Type = t, GenerateFunc = wrapVolumeAttachmentFunc f\<rparr> (VolumeAttachment_v1beta1_obj x)"
  by (simp add: gen_sound_def wrapVolumeAttachmentFunc_def descVolumeAttachmentLabelsDefaultLabels_def)

interpretation volumeattachment: resource_families volumeAttachmentMetricFamilies VolumeAttachment_v1beta1_obj "\<lambda>_. True"
proof
  show "distinct (map gen_Name volumeAttachmentMetricFamilies)"
    unfolding volumeAttachmentMetricFamilies_def list.map FamilyGenerator.simps by code_simp
  show "list_all (\<lambda>g. header_ok (gen_Name g) (gen_Help g) (gen_Type g)) volumeAttachmentMetricFamilies"
    unfolding volumeAttachmentMetricFamilies_def list.pred_inject FamilyGenerator.simps by code_simp
  show "list_all (\<lambda>g. gen_sound g (VolumeAttachment_v1beta1_obj r)) volumeAttachmentMetricFamilies" for r
    by (simp add: volumeAttachmentMetricFamilies_def wrapVolumeAttachmentFunc_sound wf_volumeattachment_families)
qed

end
