(* ===== verification/Store_Autoscaling.thy ===== *)
theory Store_Autoscaling
  imports Store_Utils
begin

text \<open>
  \<open>internal/store/{horizontalpodautoscaler,verticalpodautoscaler}.go\<close>. Both dereference pointers
  that the API allows to be nil; the preconditions of their interpretations say when they do not panic.
\<close>

subsection \<open>horizontalpodautoscaler.go\<close>

definition descHorizontalPodAutoscalerLabelsDefaultLabels :: "string list" where
  "descHorizontalPodAutoscalerLabelsDefaultLabels = [''namespace'', ''horizontalpodautoscaler'']"

datatype metricTargetType = value_t | utilization | average

fun metricTargetType_String :: "metricTargetType \<Rightarrow> string" where
  "metricTargetType_String value_t = ''value''"
| "metricTargetType_String utilization = ''utilization''"
| "metricTargetType_String average = ''average''"

definition targetMetricLabels :: "string list" where
  "targetMetricLabels = [''metric_name'', ''metric_target_type'']"

text \<open>
  One round of the loop over the metric specs. A target is the pair \<open>v[i], ok[i]\<close> of the Go
  arrays; \<open>no_target\<close> is their zero value.
\<close>

definition no_target :: "int \<times> bool" where
  "no_target = (0, False)"

definition opt_AsInt64 :: "Quantity option \<Rightarrow> int \<times> bool" where
  "opt_AsInt64 q = (case q of Some x \<Rightarrow> AsInt64 x | None \<Rightarrow> no_target)"

definition emit_targets :: "string \<Rightarrow> (metricTargetType \<times> int \<times> bool) list \<Rightarrow> Metric list" where
  "emit_targets metricName vs =
     concat (map (\<lambda>(i, v, ok). if ok
        then [metric targetMetricLabels [metricName, metricTargetType_String i] (float64_of_int v)] else []) vs)"

definition target_metrics :: "MetricSpec \<Rightarrow> Metric list go" where
  "target_metrics m =
     (if ms_Type m = ''Object'' then
        go_bind (deref (ms_Object m)) (\<lambda>ob. Inr (emit_targets (oms_MetricName ob)
          [(value_t, AsInt64 (oms_TargetValue ob)), (utilization, no_target),
           (average, opt_AsInt64 (oms_AverageValue ob))]))
      else if ms_Type m = ''Pods'' then
        go_bind (deref (ms_Pods m)) (\<lambda>ps. Inr (emit_targets (pms_MetricName ps)
          [(value_t, no_target), (utilization, no_target), (average, AsInt64 (pms_TargetAverageValue ps))]))
      else if ms_Type m = ''Resource'' then
        go_bind (deref (ms_Resource m)) (\<lambda>rs. Inr (emit_targets (rms_Name rs)
          [(value_t, no_target),
           (utilization, case TargetAverageUtilization rs of Some u \<Rightarrow> (u, True) | None \<Rightarrow> no_target),
           (average, opt_AsInt64 (rms_TargetAverageValue rs))]))
      else if ms_Type m = ''External'' then
        go_bind (deref (ms_External m)) (\<lambda>ex. Inr (emit_targets (ems_MetricName ex)
          [(value_t, opt_AsInt64 (ems_TargetValue ex)), (utilization, no_target),
           (average, opt_AsInt64 (ems_TargetAverageValue ex))]))
      else Inr [])"

definition kube_horizontalpodautoscaler_metadata_generation :: "HorizontalPodAutoscaler \<Rightarrow> Family go" where
  "kube_horizontalpodautoscaler_metadata_generation a =
     Inr (family ([int_metric (Generation (hpa_ObjectMeta a))]))"

definition kube_horizontalpodautoscaler_spec_max_replicas :: "HorizontalPodAutoscaler \<Rightarrow> Family go" where
  "kube_horizontalpodautoscaler_spec_max_replicas a = Inr (family ([int_metric (MaxReplicas a)]))"

definition kube_horizontalpodautoscaler_spec_min_replicas :: "HorizontalPodAutoscaler \<Rightarrow> Family go" where
  "kube_horizontalpodautoscaler_spec_min_replicas a =
     go_bind (deref (MinReplicas a)) (\<lambda>n. Inr (family [int_metric n]))"

definition kube_horizontalpodautoscaler_spec_target_metric :: "HorizontalPodAutoscaler \<Rightarrow> Family go" where
  "kube_horizontalpodautoscaler_spec_target_metric a =
     go_bind (go_mapM target_metrics (hpa_Metrics a)) (\<lambda>mss. Inr (family (concat mss)))"

definition kube_horizontalpodautoscaler_status_current_replicas :: "HorizontalPodAutoscaler \<Rightarrow> Family go" where
  "kube_horizontalpodautoscaler_status_current_replicas a =
     Inr (family ([int_metric (hpa_CurrentReplicas a)]))"

definition kube_horizontalpodautoscaler_status_desired_replicas :: "HorizontalPodAutoscaler \<Rightarrow> Family go" where
  "kube_horizontalpodautoscaler_status_desired_replicas a = Inr (family ([int_metric (DesiredReplicas a)]))"

definition kube_horizontalpodautoscaler_labels :: "HorizontalPodAutoscaler \<Rightarrow> Family go" where
  "kube_horizontalpodautoscaler_labels a = Inr (family (labels_metrics (hpa_ObjectMeta a)))"

definition kube_horizontalpodautoscaler_status_condition :: "HorizontalPodAutoscaler \<Rightarrow> Family go" where
  "kube_horizontalpodautoscaler_status_condition a = Inr (family (condition_metrics (hpa_Conditions a)))"

definition wrapHPAFunc :: "(HorizontalPodAutoscaler \<Rightarrow> Family go) \<Rightarrow> kobject \<Rightarrow> Family go" where
  "wrapHPAFunc f obj =
     (case obj of
        HorizontalPodAutoscaler_obj a \<Rightarrow>
          go_bind (f a) (\<lambda>metricFamily. Inr (add_default_labels descHorizontalPodAutoscalerLabelsDefaultLabels
             [Namespace (hpa_ObjectMeta a), Name (hpa_ObjectMeta a)] metricFamily))
      | _ \<Rightarrow> Inl Type_assertion)"

definition hpaMetricFamilies :: "kobject FamilyGenerator list" where
  "hpaMetricFamilies =
    [\<lparr>gen_Name = ''kube_horizontalpodautoscaler_metadata_generation'',
       gen_Help = ''The generation observed by the HorizontalPodAutoscaler controller.'',
       gen_Type = Gauge, GenerateFunc = wrapHPAFunc kube_horizontalpodautoscaler_metadata_generation\<rparr>,
     \<lparr>gen_Name = ''kube_horizontalpodautoscaler_spec_max_replicas'',
       gen_Help = ''Upper limit for the number of pods that can be set by the autoscaler; cannot be smaller than MinReplicas.'',
       gen_Type = Gauge, GenerateFunc = wrapHPAFunc kube_horizontalpodautoscaler_spec_max_replicas\<rparr>,
     \<lparr>gen_Name = ''kube_horizontalpodautoscaler_spec_min_replicas'',
       gen_Help = ''Lower limit for the number of pods that can be set by the autoscaler, default 1.'',
       gen_Type = Gauge, GenerateFunc = wrapHPAFunc kube_horizontalpodautoscaler_spec_min_replicas\<rparr>,
     \<lparr>gen_Name = ''kube_horizontalpodautoscaler_spec_target_metric'',
       gen_Help = ''The metric specifications used by this autoscaler when calculating the desired replica count.'',
       gen_Type = Gauge, GenerateFunc = wrapHPAFunc kube_horizontalpodautoscaler_spec_target_metric\<rparr>,
     \<lparr>gen_Name = ''kube_horizontalpodautoscaler_status_current_replicas'',
       gen_Help = ''Current number of replicas of pods managed by this autoscaler.'',
       gen_Type = Gauge, GenerateFunc = wrapHPAFunc kube_horizontalpodautoscaler_status_current_replicas\<rparr>,
     \<lparr>gen_Name = ''kube_horizontalpodautoscaler_status_desired_replicas'',
       gen_Help = ''Desired number of replicas of pods managed by this autoscaler.'',
       gen_Type = Gauge, GenerateFunc = wrapHPAFunc kube_horizontalpodautoscaler_status_desired_replicas\<rparr>,
     \<lparr>gen_Name = ''kube_horizontalpodautoscaler_labels'',
       gen_Help = ''Kubernetes labels converted to Prometheus labels.'',
       gen_Type = Gauge, GenerateFunc = wrapHPAFunc kube_horizontalpodautoscaler_labels\<rparr>,
     \<lparr>gen_Name = ''kube_horizontalpodautoscaler_status_condition'',
       gen_Help = ''The condition of this autoscaler.'',
       gen_Type = Gauge, GenerateFunc = wrapHPAFunc kube_horizontalpodautoscaler_status_condition\<rparr>]"

text \<open>When no generator panics: the minimum is set and every metric spec has the source its type names.\<close>

definition metric_spec_ok :: "MetricSpec \<Rightarrow> bool" where
  "metric_spec_ok m \<longleftrightarrow>
     (ms_Type m = ''Object'' \<longrightarrow> ms_Object m \<noteq> None) \<and> (ms_Type m = ''Pods'' \<longrightarrow> ms_Pods m \<noteq> None) \<and>
     (ms_Type m = ''Resource'' \<longrightarrow> ms_Resource m \<noteq> None) \<and> (ms_Type m = ''External'' \<longrightarrow> ms_External m \<noteq> None)"

definition hpa_ok :: "HorizontalPodAutoscaler \<Rightarrow> bool" where
  "hpa_ok a \<longleftrightarrow> MinReplicas a \<noteq> None \<and> list_all metric_spec_ok (hpa_Metrics a)"

lemma wf_emit_targets [simp]: "valid_metrics (emit_targets n vs)"
  by (auto simp: emit_targets_def targetMetricLabels_def)

lemma target_metrics_ok: "metric_spec_ok m \<Longrightarrow> \<exists>ms. target_metrics m = Inr ms \<and> valid_metrics ms"
  by (auto simp: target_metrics_def metric_spec_ok_def)

lemma target_metric_sound:
  assumes "list_all metric_spec_ok (hpa_Metrics a)"
  shows "body_sound (kube_horizontalpodautoscaler_spec_target_metric a)"
proof -
  have ok: "metric_spec_ok m" if "m \<in> set (hpa_Metrics a)" for m
    using assms that by (simp add: list_all_iff)
  obtain mss where mss: "go_mapM target_metrics (hpa_Metrics a) = Inr mss"
    using go_mapM_returns[of "hpa_Metrics a" target_metrics] target_metrics_ok[OF ok] by blast
  have "valid_metrics ms" if "ms \<in> set mss" for ms
    using go_mapM_set[OF mss that] target_metrics_ok[OF ok] by fastforce
  then have "valid_metrics (concat mss)"
    using valid_metrics_concat_iff[of "\<lambda>ms. ms" mss] by simp
  then show ?thesis
    by (simp add: kube_horizontalpodautoscaler_spec_target_metric_def mss)
qed

lemmas hpa_family_defs =
  kube_horizontalpodautoscaler_metadata_generation_def
  kube_horizontalpodautoscaler_spec_max_replicas_def
  kube_horizontalpodautoscaler_spec_min_replicas_def
  kube_horizontalpodautoscaler_status_current_replicas_def
  kube_horizontalpodautoscaler_status_desired_replicas_def
  kube_horizontalpodautoscaler_labels_def kube_horizontalpodautoscaler_status_condition_def

lemma hpa_families_sound:
  assumes "hpa_ok a"
  shows
    "body_sound (kube_horizontalpodautoscaler_metadata_generation a)"
    "body_sound (kube_horizontalpodautoscaler_spec_max_replicas a)"
    "body_sound (kube_horizontalpodautoscaler_spec_min_replicas a)"
    "body_sound (kube_horizontalpodautoscaler_spec_target_metric a)"
    "body_sound (kube_horizontalpodautoscaler_status_current_replicas a)"
    "body_sound (kube_horizontalpodautoscaler_status_desired_replicas a)"
    "body_sound (kube_horizontalpodautoscaler_labels a)"
    "body_sound (kube_horizontalpodautoscaler_status_condition a)"
  using assms by (auto simp: hpa_family_defs hpa_ok_def Let_def target_metric_sound split: option.splits sum.splits)

lemma wrapHPAFunc_sound [wf_intros]:
  "body_sound (f a) \<Longrightarrow> hpa_ok a \<Longrightarrow>
   gen_sound \<lparr>gen_Name = n, gen_Help = h, gen_Type = t, GenerateFunc = wrapHPAFunc f\<rparr> (HorizontalPodAutoscaler_obj a)"
  by (auto simp: gen_sound_def body_sound_def wrapHPAFunc_def descHorizontalPodAutoscalerLabelsDefaultLabels_def split: option.splits)

interpretation hpa: resource_families "hpaMetricFamilies" HorizontalPodAutoscaler_obj "hpa_ok"
proof
  show "distinct (map gen_Name (hpaMetricFamilies))"
    unfolding hpaMetricFamilies_def list.map FamilyGenerator.simps by code_simp
  show "list_all (\<lambda>g. header_ok (gen_Name g) (gen_Help g) (gen_Type g)) (hpaMetricFamilies)"
    unfolding hpaMetricFamilies_def list.pred_inject FamilyGenerator.simps by code_simp
  show "list_all (\<lambda>g. gen_sound g (HorizontalPodAutoscaler_obj r)) (hpaMetricFamilies)" if "hpa_ok r" for r
    using that by (simp add: hpaMetricFamilies_def wrapHPAFunc_sound hpa_families_sound)
qed

subsection \<open>verticalpodautoscaler.go\<close>

definition descVerticalPodAutoscalerLabelsDefaultLabels :: "string list" where
  "descVerticalPodAutoscalerLabelsDefaultLabels = [''namespace'', ''verticalpodautoscaler'', ''target_api_version'', ''target_kind'', ''target_name'']"

text \<open>The switch on the resource name.\<close>

definition vpa_resource :: "string \<Rightarrow> string \<times> Quantity \<Rightarrow> Metric list" where
  "vpa_resource containerName = (\<lambda>(resourceName, val).
     if resourceName = ''cpu'' then
       [metric [] [containerName, sanitizeLabelName resourceName, UnitCore] (milli_float val)]
     else if resourceName \<in> {''storage'', ''ephemeral-storage'', ''memory''} then
       [metric [] [containerName, sanitizeLabelName resourceName, UnitByte] (value_float val)]
     else [])"

definition vpaResourcesToMetrics :: "string \<Rightarrow> ResourceList \<Rightarrow> Metric list" where
  "vpaResourcesToMetrics containerName resources =
     set_keys [''container'', ''resource'', ''unit''] (concat (map (vpa_resource containerName) resources))"

definition kube_verticalpodautoscaler_labels :: "VerticalPodAutoscaler \<Rightarrow> Family go" where
  "kube_verticalpodautoscaler_labels a = Inr (family (labels_metrics (vpa_ObjectMeta a)))"

definition kube_verticalpodautoscaler_spec_updatepolicy_updatemode :: "VerticalPodAutoscaler \<Rightarrow> Family go" where
  "kube_verticalpodautoscaler_spec_updatepolicy_updatemode a =
     (case UpdatePolicy a of
        None \<Rightarrow> Inr (family [])
      | Some up \<Rightarrow>
          (case UpdateMode up of
             None \<Rightarrow> Inr (family [])
           | Some um \<Rightarrow> Inr (family (map (\<lambda>mode. metric [''update_mode''] [mode] (if um = mode then Fin 1 else Fin 0))
                             [''Off'', ''Initial'', ''Recreate'', ''Auto'']))))"

definition kube_verticalpodautoscaler_spec_resourcepolicy_container_policies_minallowed :: "VerticalPodAutoscaler \<Rightarrow> Family go" where
  "kube_verticalpodautoscaler_spec_resourcepolicy_container_policies_minallowed a =
     (case ResourcePolicy a of
        None \<Rightarrow> Inr (family [])
      | Some cs \<Rightarrow> Inr (family (concat (map (\<lambda>c. vpaResourcesToMetrics (crp_ContainerName c) (MinAllowed c)) cs))))"

definition kube_verticalpodautoscaler_spec_resourcepolicy_container_policies_maxallowed :: "VerticalPodAutoscaler \<Rightarrow> Family go" where
  "kube_verticalpodautoscaler_spec_resourcepolicy_container_policies_maxallowed a =
     (case ResourcePolicy a of
        None \<Rightarrow> Inr (family [])
      | Some cs \<Rightarrow> Inr (family (concat (map (\<lambda>c. vpaResourcesToMetrics (crp_ContainerName c) (MaxAllowed c)) cs))))"

definition kube_verticalpodautoscaler_status_recommendation_containerrecommendations_lowerbound :: "VerticalPodAutoscaler \<Rightarrow> Family go" where
  "kube_verticalpodautoscaler_status_recommendation_containerrecommendations_lowerbound a =
     (case Recommendation a of
        None \<Rightarrow> Inr (family [])
      | Some cs \<Rightarrow> Inr (family (concat (map (\<lambda>c. vpaResourcesToMetrics (rcr_ContainerName c) (LowerBound c)) cs))))"

definition kube_verticalpodautoscaler_status_recommendation_containerrecommendations_upperbound :: "VerticalPodAutoscaler \<Rightarrow> Family go" where
  "kube_verticalpodautoscaler_status_recommendation_containerrecommendations_upperbound a =
     (case Recommendation a of
        None \<Rightarrow> Inr (family [])
      | Some cs \<Rightarrow> Inr (family (concat (map (\<lambda>c. vpaResourcesToMetrics (rcr_ContainerName c) (UpperBound c)) cs))))"

definition kube_verticalpodautoscaler_status_recommendation_containerrecommendations_target :: "VerticalPodAutoscaler \<Rightarrow> Family go" where
  "kube_verticalpodautoscaler_status_recommendation_containerrecommendations_target a =
     (case Recommendation a of
        None \<Rightarrow> Inr (family [])
      | Some cs \<Rightarrow> Inr (family (concat (map (\<lambda>c. vpaResourcesToMetrics (rcr_ContainerName c) (Target c)) cs))))"

definition kube_verticalpodautoscaler_status_recommendation_containerrecommendations_uncappedtarget :: "VerticalPodAutoscaler \<Rightarrow> Family go" where
  "kube_verticalpodautoscaler_status_recommendation_containerrecommendations_uncappedtarget a =
     (case Recommendation a of
        None \<Rightarrow> Inr (family [])
      | Some cs \<Rightarrow> Inr (family (concat (map (\<lambda>c. vpaResourcesToMetrics (rcr_ContainerName c) (UncappedTarget c)) cs))))"

text \<open>The wrapper reads the target reference only inside the loop over the metrics.\<close>

definition wrapVPAFunc :: "(VerticalPodAutoscaler \<Rightarrow> Family go) \<Rightarrow> kobject \<Rightarrow> Family go" where
  "wrapVPAFunc f obj =
     (case obj of
        VerticalPodAutoscaler_obj a \<Rightarrow>
          go_bind (f a) (\<lambda>metricFamily.
            if Metrics metricFamily = [] then Inr metricFamily
            else go_bind (deref (TargetRef a)) (\<lambda>targetRef.
              Inr (add_default_labels descVerticalPodAutoscalerLabelsDefaultLabels
                [Namespace (vpa_ObjectMeta a), Name (vpa_ObjectMeta a),
                 tr_APIVersion targetRef, tr_Kind targetRef, tr_Name targetRef] metricFamily)))
      | _ \<Rightarrow> Inl Type_assertion)"

definition vpaMetricFamilies :: "kobject FamilyGenerator list" where
  "vpaMetricFamilies =
    [\<lparr>gen_Name = ''kube_verticalpodautoscaler_labels'',
       gen_Help = ''Kubernetes labels converted to Prometheus labels.'',
       gen_Type = Gauge, GenerateFunc = wrapVPAFunc kube_verticalpodautoscaler_labels\<rparr>,
     \<lparr>gen_Name = ''kube_verticalpodautoscaler_spec_updatepolicy_updatemode'',
       gen_Help = ''Update mode of the VerticalPodAutoscaler.'',
       gen_Type = Gauge, GenerateFunc = wrapVPAFunc kube_verticalpodautoscaler_spec_updatepolicy_updatemode\<rparr>,
     \<lparr>gen_Name = ''kube_verticalpodautoscaler_spec_resourcepolicy_container_policies_minallowed'',
       gen_Help = ''Minimum resources the VerticalPodAutoscaler can set for containers matching the name.'',
       gen_Type = Gauge, GenerateFunc = wrapVPAFunc kube_verticalpodautoscaler_spec_resourcepolicy_container_policies_minallowed\<rparr>,
     \<lparr>gen_Name = ''kube_verticalpodautoscaler_spec_resourcepolicy_container_policies_maxallowed'',
       gen_Help = ''Maximum resources the VerticalPodAutoscaler can set for containers matching the name.'',
       gen_Type = Gauge, GenerateFunc = wrapVPAFunc kube_verticalpodautoscaler_spec_resourcepolicy_container_policies_maxallowed\<rparr>,
     \<lparr>gen_Name = ''kube_verticalpodautoscaler_status_recommendation_containerrecommendations_lowerbound'',
       gen_Help = ''Minimum resources the container can use before the VerticalPodAutoscaler updater evicts it.'',
       gen_Type = Gauge, GenerateFunc = wrapVPAFunc kube_verticalpodautoscaler_status_recommendation_containerrecommendations_lowerbound\<rparr>,
     \<lparr>gen_Name = ''kube_verticalpodautoscaler_status_recommendation_containerrecommendations_upperbound'',
       gen_Help = ''Maximum resources the container can use before the VerticalPodAutoscaler updater evicts it.'',
       gen_Type = Gauge, GenerateFunc = wrapVPAFunc kube_verticalpodautoscaler_status_recommendation_containerrecommendations_upperbound\<rparr>,
     \<lparr>gen_Name = ''kube_verticalpodautoscaler_status_recommendation_containerrecommendations_target'',
       gen_Help = ''Target resources the VerticalPodAutoscaler recommends for the container.'',
       gen_Type = Gauge, GenerateFunc = wrapVPAFunc kube_verticalpodautoscaler_status_recommendation_containerrecommendations_target\<rparr>,
     \<lparr>gen_Name = ''kube_verticalpodautoscaler_status_recommendation_containerrecommendations_uncappedtarget'',
       gen_Help = ''Target resources the VerticalPodAutoscaler recommends for the container ignoring bounds.'',
       gen_Type = Gauge, GenerateFunc = wrapVPAFunc kube_verticalpodautoscaler_status_recommendation_containerrecommendations_uncappedtarget\<rparr>]"

text \<open>When no generator panics.\<close>

definition vpa_ok :: "VerticalPodAutoscaler \<Rightarrow> bool" where
  "vpa_ok a \<longleftrightarrow> TargetRef a \<noteq> None"

lemma vpa_resource_values: "\<forall>m \<in> set (vpa_resource c rq). length (LabelValues m) = 3 \<and> f64_ok (Value m)"
  by (cases rq) (simp add: vpa_resource_def)

lemma wf_vpaResourcesToMetrics [simp]: "valid_metrics (vpaResourcesToMetrics n rl)"
  using vpa_resource_values by (fastforce simp: vpaResourcesToMetrics_def)

lemmas vpa_family_defs =
  kube_verticalpodautoscaler_labels_def
  kube_verticalpodautoscaler_spec_updatepolicy_updatemode_def
  kube_verticalpodautoscaler_spec_resourcepolicy_container_policies_minallowed_def
  kube_verticalpodautoscaler_spec_resourcepolicy_container_policies_maxallowed_def
  kube_verticalpodautoscaler_status_recommendation_containerrecommendations_lowerbound_def
  kube_verticalpodautoscaler_status_recommendation_containerrecommendations_upperbound_def
  kube_verticalpodautoscaler_status_recommendation_containerrecommendations_target_def
  kube_verticalpodautoscaler_status_recommendation_containerrecommendations_uncappedtarget_def

lemma vpa_families_sound:
  assumes "vpa_ok a"
  shows
    "body_sound (kube_verticalpodautoscaler_labels a)"
    "body_sound (kube_verticalpodautoscaler_spec_updatepolicy_updatemode a)"
    "body_sound (kube_verticalpodautoscaler_spec_resourcepolicy_container_policies_minallowed a)"
    "body_sound (kube_verticalpodautoscaler_spec_resourcepolicy_container_policies_maxallowed a)"
    "body_sound (kube_verticalpodautoscaler_status_recommendation_containerrecommendations_lowerbound a)"
    "body_sound (kube_verticalpodautoscaler_status_recommendation_containerrecommendations_upperbound a)"
    "body_sound (kube_verticalpodautoscaler_status_recommendation_containerrecommendations_target a)"
    "body_sound (kube_verticalpodautoscaler_status_recommendation_containerrecommendations_uncappedtarget a)"
  using assms by (auto simp: vpa_family_defs vpa_ok_def Let_def split: option.splits sum.splits)

lemma wrapVPAFunc_sound [wf_intros]:
  "body_sound (f a) \<Longrightarrow> vpa_ok a \<Longrightarrow>
   gen_sound \<lparr>gen_Name = n, gen_Help = h, gen_Type = t, GenerateFunc = wrapVPAFunc f\<rparr> (VerticalPodAutoscaler_obj a)"
  by (auto simp: gen_sound_def body_sound_def wrapVPAFunc_def descVerticalPodAutoscalerLabelsDefaultLabels_def vpa_ok_def split: option.splits)

interpretation vpa: resource_families "vpaMetricFamilies" VerticalPodAutoscaler_obj "vpa_ok"
proof
  show "distinct (map gen_Name (vpaMetricFamilies))"
    unfolding vpaMetricFamilies_def list.map FamilyGenerator.simps by code_simp
  show "list_all (\<lambda>g. header_ok (gen_Name g) (gen_Help g) (gen_Type g)) (vpaMetricFamilies)"
    unfolding vpaMetricFamilies_def list.pred_inject FamilyGenerator.simps by code_simp
  show "list_all (\<lambda>g. gen_sound g (VerticalPodAutoscaler_obj r)) (vpaMetricFamilies)" if "vpa_ok r" for r
    using that by (simp add: vpaMetricFamilies_def wrapVPAFunc_sound vpa_families_sound)
qed

subsection \<open>Properties\<close>

lemma target_metrics_isl: "isl (target_metrics m) \<longleftrightarrow> \<not> metric_spec_ok m"
  by (auto simp: target_metrics_def metric_spec_ok_def go_bind_isl)

text \<open>
  C16. Generating the metrics of a horizontal pod autoscaler panics unless its minimum is set and every
  metric specification has the source that its type names; those of a vertical pod autoscaler unless
  it has a target reference.
\<close>

theorem autoscaler_generation_returns_iff:
  "(returns (ComposeMetricGenFuncs hpaMetricFamilies (HorizontalPodAutoscaler_obj a)) \<longleftrightarrow> hpa_ok a) \<and>
   (returns (ComposeMetricGenFuncs vpaMetricFamilies (VerticalPodAutoscaler_obj v)) \<longleftrightarrow> vpa_ok v)"
proof
  show "returns (ComposeMetricGenFuncs hpaMetricFamilies (HorizontalPodAutoscaler_obj a)) \<longleftrightarrow> hpa_ok a"
    by (auto simp: Compose_returns_iff hpaMetricFamilies_def wrapHPAFunc_def hpa_family_defs hpa_ok_def go_bind_isl
        kube_horizontalpodautoscaler_spec_target_metric_def
        go_mapM_isl target_metrics_isl list_all_iff)
  show "returns (ComposeMetricGenFuncs vpaMetricFamilies (VerticalPodAutoscaler_obj v)) \<longleftrightarrow> vpa_ok v"
  proof
    assume "returns (ComposeMetricGenFuncs vpaMetricFamilies (VerticalPodAutoscaler_obj v))"
    then have "returns (wrapVPAFunc kube_verticalpodautoscaler_labels (VerticalPodAutoscaler_obj v))"
      by (simp add: Compose_returns_iff vpaMetricFamilies_def)
    then show "vpa_ok v"
      by (auto simp: wrapVPAFunc_def kube_verticalpodautoscaler_labels_def vpa_ok_def labels_metrics_def go_bind_isl
          split: option.splits prod.splits)
  next
    show "returns (ComposeMetricGenFuncs vpaMetricFamilies (VerticalPodAutoscaler_obj v))" if "vpa_ok v"
      using Compose_sound[OF vpa.sound[OF that]] by auto
  qed
qed

end
