(* ===== verification/Metrics_Store.thy ===== *)
theory Metrics_Store
  imports Generator K8s_Objects
begin

text \<open>
  \<open>pkg/metrics_store\<close>: the store that keeps, for every object's UID, the text of the object's
  metric families, and writes them out under the family headers. The contract of
  client-go's \<open>cache.Store\<close> that the reflector relies on is the locale \<open>cache_store\<close>;
  \<open>MetricsStore\<close> is interpreted as one.

  An operation returns the Go \<open>error\<close> (\<open>None\<close> is nil) and the new state; the outcome type
  makes the panics of the generators visible.
\<close>

subsection \<open>The store\<close>

record MetricsStore =
  metrics :: "(string, string list) gomap"
  headers :: "string list"
  generateMetricsFunc :: "kobject \<Rightarrow> Family list go"

definition NewMetricsStore :: "string list \<Rightarrow> (kobject \<Rightarrow> Family list go) \<Rightarrow> MetricsStore" where
  "NewMetricsStore hs generateFunc = \<lparr>metrics = [], headers = hs, generateMetricsFunc = generateFunc\<rparr>"

definition no_meta_err :: err where
  "no_meta_err = Err ''object does not implement the Object interfaces''"

definition Add :: "MetricsStore \<Rightarrow> kobject \<Rightarrow> (err option \<times> MetricsStore) go" where
  "Add s obj =
     (case Accessor obj of
        None \<Rightarrow> Inr (Some no_meta_err, s)
      | Some ob \<Rightarrow>
          go_bind (generateMetricsFunc s obj) (\<lambda>families.
          go_bind (go_mapM ByteSlice families) (\<lambda>familyStrings.
          Inr (None, s\<lparr>metrics := AList.update (UID ob) familyStrings (metrics s)\<rparr>))))"

definition Update :: "MetricsStore \<Rightarrow> kobject \<Rightarrow> (err option \<times> MetricsStore) go" where
  "Update s obj = Add s obj"

definition Delete :: "MetricsStore \<Rightarrow> kobject \<Rightarrow> (err option \<times> MetricsStore) go" where
  "Delete s obj =
     (case Accessor obj of
        None \<Rightarrow> Inr (Some no_meta_err, s)
      | Some ob \<Rightarrow> Inr (None, s\<lparr>metrics := AList.delete (UID ob) (metrics s)\<rparr>))"

definition List_store :: "MetricsStore \<Rightarrow> kobject list" where
  "List_store s = []"

definition ListKeys :: "MetricsStore \<Rightarrow> string list" where
  "ListKeys s = []"

definition Get :: "MetricsStore \<Rightarrow> kobject \<Rightarrow> kobject option \<times> bool \<times> err option" where
  "Get s obj = (None, False, None)"

definition GetByKey :: "MetricsStore \<Rightarrow> string \<Rightarrow> kobject option \<times> bool \<times> err option" where
  "GetByKey s key = (None, False, None)"

fun add_all :: "MetricsStore \<Rightarrow> kobject list \<Rightarrow> (err option \<times> MetricsStore) go" where
  "add_all s [] = Inr (None, s)"
| "add_all s (ob # list) =
     go_bind (Add s ob)
       (\<lambda>(e, s'). case e of Some er \<Rightarrow> Inr (Some er, s') | None \<Rightarrow> add_all s' list)"

definition Replace :: "MetricsStore \<Rightarrow> kobject list \<Rightarrow> string \<Rightarrow> (err option \<times> MetricsStore) go" where
  "Replace s list rv = add_all (s\<lparr>metrics := []\<rparr>) list"

definition Resync :: "MetricsStore \<Rightarrow> err option" where
  "Resync s = None"

text \<open>
  \<open>WriteAll\<close> ranges over the map once per header. Each of these loops may visit the entries in an
  order of its own: \<open>order i\<close> gives the order of the loop for header \<open>i\<close>.
\<close>

type_synonym map_order = "nat \<Rightarrow> (string, string list) gomap \<Rightarrow> (string, string list) gomap"

definition order_ok :: "map_order \<Rightarrow> bool" where
  "order_ok order \<longleftrightarrow> (\<forall>i m. mset (order i m) = mset m)"

definition write_family :: "nat \<Rightarrow> (string, string list) gomap \<Rightarrow> string go" where
  "write_family i entries =
     go_bind (go_mapM (\<lambda>(uid, metricFamilies). index_slice metricFamilies i) entries)
       (\<lambda>bs. Inr (concat bs))"

fun write_headers :: "map_order \<Rightarrow> MetricsStore \<Rightarrow> nat \<Rightarrow> string list \<Rightarrow> string go" where
  "write_headers order s i [] = Inr []"
| "write_headers order s i (help # hs) =
     go_bind (write_family i (order i (metrics s))) (\<lambda>body.
     go_bind (write_headers order s (Suc i) hs) (\<lambda>rest.
     Inr (help @ [newline] @ body @ rest)))"

definition WriteAll :: "map_order \<Rightarrow> MetricsStore \<Rightarrow> string go" where
  "WriteAll order s = write_headers order s 0 (headers s)"

subsection \<open>Invariant\<close>

text \<open>
  Every entry has one text per header; the generator function always yields one family per header.
\<close>

definition store_ok :: "MetricsStore \<Rightarrow> bool" where
  "store_ok s \<longleftrightarrow> gomap_ok (metrics s) \<and> (\<forall>(uid, fs) \<in> set (metrics s). length fs = length (headers s))"

definition arity_ok :: "MetricsStore \<Rightarrow> bool" where
  "arity_ok s \<longleftrightarrow> (\<forall>obj fams. generateMetricsFunc s obj = Inr fams \<longrightarrow> length fams = length (headers s))"

lemma store_ok_New [simp]: "store_ok (NewMetricsStore hs g)"
  by (simp add: store_ok_def NewMetricsStore_def)

lemma arity_ok_Compose:
  "arity_ok (NewMetricsStore (ExtractMetricFamilyHeaders fs) (ComposeMetricGenFuncs fs))"
  by (auto simp: arity_ok_def NewMetricsStore_def dest: Compose_length)

lemma set_AList_update: "set (AList.update k v m) \<subseteq> insert (k, v) (set m)"
  by (induction m) auto

lemma set_AList_delete: "set (AList.delete k m) \<subseteq> set m"
  by (auto simp: AList.delete_eq)

text \<open>What \<open>Add\<close> can do to the state.\<close>

lemma Add_cases:
  assumes "Add s obj = Inr (e, s')"
  obtains (no_meta) "Accessor obj = None" "e = Some no_meta_err" "s' = s"
  | (added) ob fams fs where "Accessor obj = Some ob" "e = None" "generateMetricsFunc s obj = Inr fams"
      "go_mapM ByteSlice fams = Inr fs" "s' = s\<lparr>metrics := AList.update (UID ob) fs (metrics s)\<rparr>"
  using assms by (auto simp: Add_def go_bind_Inr_iff split: option.splits)

lemma Add_frame: "Add s obj = Inr (e, s') \<Longrightarrow> headers s' = headers s \<and> generateMetricsFunc s' = generateMetricsFunc s"
  by (erule Add_cases) auto

lemma Add_store_ok:
  assumes "Add s obj = Inr (e, s')" "store_ok s" "arity_ok s"
  shows "store_ok s' \<and> arity_ok s'"
  using assms(1)
proof (cases rule: Add_cases)
  case no_meta
  then show ?thesis using assms by simp
next
  case (added ob fams fs)
  have "length fs = length (headers s)"
    using added assms(3) by (auto simp: arity_ok_def dest: go_mapM_length)
  then show ?thesis
    using assms(2,3) added set_AList_update[of "UID ob" fs "metrics s"]
    by (auto simp: store_ok_def arity_ok_def)
qed

lemma Delete_store_ok:
  assumes "Delete s obj = Inr (e, s')" "store_ok s" "arity_ok s"
  shows "store_ok s' \<and> arity_ok s'"
  using assms set_AList_delete[of _ "metrics s"]
  by (fastforce simp: Delete_def store_ok_def arity_ok_def split: option.splits)

lemma add_all_store_ok:
  "add_all s list = Inr (e, s') \<Longrightarrow> store_ok s \<Longrightarrow> arity_ok s \<Longrightarrow> store_ok s' \<and> arity_ok s'"
proof (induction list arbitrary: s)
  case (Cons ob list)
  then obtain e1 s1 where s1: "Add s ob = Inr (e1, s1)"
    by (auto simp: go_bind_Inr_iff)
  note ok = Add_store_ok[OF s1 Cons.prems(2,3)]
  show ?case
    using Cons.prems(1) Cons.IH[of s1] s1 ok by (cases e1) auto
qed simp

lemma Replace_store_ok:
  assumes "Replace s list rv = Inr (e, s')" "arity_ok s"
  shows "store_ok s' \<and> arity_ok s'"
proof -
  have "store_ok (s\<lparr>metrics := []\<rparr>)" "arity_ok (s\<lparr>metrics := []\<rparr>)"
    using assms(2) by (auto simp: store_ok_def arity_ok_def)
  with assms(1) show ?thesis unfolding Replace_def by (rule add_all_store_ok)
qed

subsection \<open>Writing the store\<close>

text \<open>The text of one family: the entries' texts for that family, in the order of the loop.\<close>

definition family_text :: "nat \<Rightarrow> (string, string list) gomap \<Rightarrow> string" where
  "family_text i entries = concat (map (\<lambda>(uid, fs). fs ! i) entries)"

lemma write_family_ok:
  assumes "\<forall>(uid, fs) \<in> set entries. i < length fs"
  shows "write_family i entries = Inr (family_text i entries)"
proof -
  have "go_mapM (\<lambda>(uid, fs). index_slice fs i) entries = Inr (map (\<lambda>(uid, fs). fs ! i) entries)"
    using assms by (intro go_mapM_total) (auto simp: index_slice_def)
  then show ?thesis by (simp add: write_family_def family_text_def)
qed

lemma write_headers_ok:
  assumes "\<And>i. i < n + length hs \<Longrightarrow> \<forall>(uid, fs) \<in> set (order i (metrics s)). i < length fs"
  shows "write_headers order s n hs =
    Inr (concat (map (\<lambda>(i, h). h @ [newline] @ family_text i (order i (metrics s))) (enumerate n hs)))"
  using assms
proof (induction hs arbitrary: n)
  case (Cons h hs)
  have "write_family n (order n (metrics s)) = Inr (family_text n (order n (metrics s)))"
    using Cons.prems[of n] by (intro write_family_ok) simp
  moreover have "write_headers order s (Suc n) hs =
    Inr (concat (map (\<lambda>(i, h). h @ [newline] @ family_text i (order i (metrics s))) (enumerate (Suc n) hs)))"
    using Cons.prems by (intro Cons.IH) simp
  ultimately show ?case by simp
qed simp

lemma order_ok_set: "order_ok order \<Longrightarrow> set (order i m) = set m"
  unfolding order_ok_def by (metis set_mset_mset)

lemma WriteAll_text:
  assumes "store_ok s" "order_ok order"
  shows "WriteAll order s =
    Inr (concat (map (\<lambda>(i, h). h @ [newline] @ family_text i (order i (metrics s))) (enumerate 0 (headers s))))"
  unfolding WriteAll_def using assms
  by (intro write_headers_ok) (auto simp: store_ok_def order_ok_set)

subsection \<open>Runs of store operations\<close>

datatype store_op = Op_Add kobject | Op_Update kobject | Op_Delete kobject | Op_Replace "kobject list" string

fun apply_op :: "MetricsStore \<Rightarrow> store_op \<Rightarrow> (err option \<times> MetricsStore) go" where
  "apply_op s (Op_Add obj) = Add s obj"
| "apply_op s (Op_Update obj) = Update s obj"
| "apply_op s (Op_Delete obj) = Delete s obj"
| "apply_op s (Op_Replace list rv) = Replace s list rv"

text \<open>
  The write lock makes every operation one step, \<open>Replace\<close> apart, which takes the lock once per
  object: a reader can see the store between two of its steps. \<open>Clear\<close> and the following
  \<open>Add\<close> steps are therefore steps of their own.
\<close>

inductive store_step :: "MetricsStore \<Rightarrow> MetricsStore \<Rightarrow> bool" where
  step_op: "apply_op s p = Inr (e, s') \<Longrightarrow> store_step s s'"
| step_clear: "store_step s (s\<lparr>metrics := []\<rparr>)"

inductive store_reachable :: "MetricsStore \<Rightarrow> MetricsStore \<Rightarrow> bool" for s0 where
  reach_init: "store_reachable s0 s0"
| reach_step: "store_reachable s0 s \<Longrightarrow> store_step s s' \<Longrightarrow> store_reachable s0 s'"

inductive_cases store_stepE: "store_step s s'"

lemma apply_op_store_ok:
  "apply_op s p = Inr (e, s') \<Longrightarrow> store_ok s \<Longrightarrow> arity_ok s \<Longrightarrow> store_ok s' \<and> arity_ok s'"
  by (cases p) (auto simp: Update_def dest: Add_store_ok Delete_store_ok Replace_store_ok)

lemma store_step_ok: "store_step s s' \<Longrightarrow> store_ok s \<Longrightarrow> arity_ok s \<Longrightarrow> store_ok s' \<and> arity_ok s'"
proof (erule store_stepE)
  assume "s' = s\<lparr>metrics := []\<rparr>" "arity_ok s"
  then show "store_ok s' \<and> arity_ok s'" by (simp add: store_ok_def arity_ok_def)
qed (rule apply_op_store_ok)

lemma store_reachable_ok:
  "store_reachable s0 s \<Longrightarrow> store_ok s0 \<Longrightarrow> arity_ok s0 \<Longrightarrow> store_ok s \<and> arity_ok s"
  by (induction rule: store_reachable.induct) (auto dest: store_step_ok)

subsection \<open>What the store holds of an object\<close>

text \<open>The texts that \<open>Add\<close> stores for an object; \<open>accepts\<close> says that it gets that far.\<close>

definition render :: "MetricsStore \<Rightarrow> kobject \<Rightarrow> string list go" where
  "render s obj = go_bind (generateMetricsFunc s obj) (go_mapM ByteSlice)"

definition accepts :: "MetricsStore \<Rightarrow> kobject \<Rightarrow> bool" where
  "accepts s obj \<longleftrightarrow> Accessor obj \<noteq> None \<and> returns (render s obj)"

definition obj_uid :: "kobject \<Rightarrow> string" where
  "obj_uid obj = UID (the (Accessor obj))"

lemma Add_accepts:
  assumes "accepts s obj"
  shows "Add s obj = Inr (None, s\<lparr>metrics := AList.update (obj_uid obj) (projr (render s obj)) (metrics s)\<rparr>)"
  using assms
  by (cases "generateMetricsFunc s obj") (auto simp: accepts_def Add_def render_def obj_uid_def returns_iff)

text \<open>
  The store mirrors a set of objects, given by their UIDs: its entries are exactly the texts of
  these objects.
\<close>

definition mirrors :: "MetricsStore \<Rightarrow> (string \<rightharpoonup> kobject) \<Rightarrow> bool" where
  "mirrors s objs \<longleftrightarrow>
     gomap_ok (metrics s) \<and> (\<forall>uid obj. objs uid = Some obj \<longrightarrow> accepts s obj) \<and>
     (\<forall>uid. map_of (metrics s) uid = map_option (\<lambda>obj. projr (render s obj)) (objs uid))"

text \<open>The objects of a list by UID; a later one with the same UID wins.\<close>

definition put_obj :: "kobject \<Rightarrow> (string \<rightharpoonup> kobject) \<Rightarrow> (string \<rightharpoonup> kobject)" where
  "put_obj obj m = m(obj_uid obj \<mapsto> obj)"

definition del_obj :: "kobject \<Rightarrow> (string \<rightharpoonup> kobject) \<Rightarrow> (string \<rightharpoonup> kobject)" where
  "del_obj obj m = m(obj_uid obj := None)"

definition objects_of :: "kobject list \<Rightarrow> (string \<rightharpoonup> kobject)" where
  "objects_of list = fold put_obj list Map.empty"

lemma render_metrics_update [simp]: "render (s\<lparr>metrics := m\<rparr>) = render s"
  by (rule ext) (simp add: render_def)

lemma accepts_metrics_update [simp]: "accepts (s\<lparr>metrics := m\<rparr>) = accepts s"
  by (rule ext) (simp add: accepts_def)

lemma mirrors_empty: "mirrors (s\<lparr>metrics := []\<rparr>) Map.empty"
  by (simp add: mirrors_def)

lemma mirrors_put:
  "mirrors s objs \<Longrightarrow> accepts s obj \<Longrightarrow>
   mirrors (s\<lparr>metrics := AList.update (obj_uid obj) (projr (render s obj)) (metrics s)\<rparr>) (put_obj obj objs)"
  by (auto simp: mirrors_def put_obj_def)

lemma mirrors_del:
  "mirrors s objs \<Longrightarrow> mirrors (s\<lparr>metrics := AList.delete (obj_uid obj) (metrics s)\<rparr>) (del_obj obj objs)"
  by (auto simp: mirrors_def del_obj_def)

lemma fold_put_obj:
  "distinct (map obj_uid objs) \<Longrightarrow>
   fold put_obj objs m u = (case find (\<lambda>x. obj_uid x = u) objs of None \<Rightarrow> m u | Some x \<Rightarrow> Some x)"
proof (induction objs arbitrary: m)
  case (Cons x objs)
  have "find (\<lambda>x. obj_uid x = u) objs = None" if "obj_uid x = u"
    unfolding find_None_iff using that Cons.prems by (metis distinct.simps(2) image_eqI list.set_map list.simps(9))
  then show ?case using Cons by (auto simp: put_obj_def split: option.split)
qed simp

lemma objects_of_filter:
  assumes "distinct (map obj_uid objs)" "obj \<in> set objs"
  shows "objects_of (filter p objs) (obj_uid obj) = (if p obj then Some obj else None)"
proof -
  have uniq: "x = obj" if "x \<in> set objs" "obj_uid x = obj_uid obj" for x
    using that assms by (meson distinct_map inj_onD)
  have "find (\<lambda>x. obj_uid x = obj_uid obj) (filter p objs) = (if p obj then Some obj else None)"
  proof (cases "find (\<lambda>x. obj_uid x = obj_uid obj) (filter p objs)")
    case None
    then show ?thesis using assms(2) by (auto simp: find_None_iff)
  next
    case (Some x)
    then have "x \<in> set objs" "p x" "obj_uid x = obj_uid obj" by (auto simp: find_Some_iff dest: nth_mem)
    then show ?thesis using uniq Some by auto
  qed
  then show ?thesis
    using fold_put_obj[of "filter p objs" Map.empty "obj_uid obj"] distinct_map_filter[OF assms(1), of p]
    by (simp add: objects_of_def split: if_splits)
qed

subsection \<open>The interface cache.Store\<close>

text \<open>
  The part of client-go's \<open>cache.Store\<close> that a reflector uses, on an abstract state. \<open>holds s
  objs\<close> relates the state to the objects it stands for, \<open>takes\<close> is the set of objects the store
  can process.
\<close>

locale cache_store =
  fixes add upd del :: "'s \<Rightarrow> kobject \<Rightarrow> (err option \<times> 's) go"
    and repl :: "'s \<Rightarrow> kobject list \<Rightarrow> string \<Rightarrow> (err option \<times> 's) go"
    and takes :: "'s \<Rightarrow> kobject \<Rightarrow> bool"
    and holds :: "'s \<Rightarrow> (string \<rightharpoonup> kobject) \<Rightarrow> bool"
  assumes takes_meta: "takes s obj \<Longrightarrow> Accessor obj \<noteq> None"
    and add_law: "holds s objs \<Longrightarrow> takes s obj \<Longrightarrow>
      \<exists>s'. add s obj = Inr (None, s') \<and> holds s' (put_obj obj objs) \<and> takes s' = takes s"
    and upd_law: "holds s objs \<Longrightarrow> takes s obj \<Longrightarrow>
      \<exists>s'. upd s obj = Inr (None, s') \<and> holds s' (put_obj obj objs) \<and> takes s' = takes s"
    and del_law: "holds s objs \<Longrightarrow> Accessor obj \<noteq> None \<Longrightarrow>
      \<exists>s'. del s obj = Inr (None, s') \<and> holds s' (del_obj obj objs) \<and> takes s' = takes s"
    and repl_law: "list_all (takes s) list \<Longrightarrow>
      \<exists>s'. repl s list rv = Inr (None, s') \<and>
           holds s' (objects_of list) \<and> takes s' = takes s"

lemma add_all_mirrors:
  "mirrors s objs \<Longrightarrow> list_all (accepts s) list \<Longrightarrow>
   \<exists>s'. add_all s list = Inr (None, s') \<and>
        mirrors s' (fold put_obj list objs) \<and> accepts s' = accepts s"
proof (induction list arbitrary: s objs)
  case (Cons ob list)
  let ?s = "s\<lparr>metrics := AList.update (obj_uid ob) (projr (render s ob)) (metrics s)\<rparr>"
  have "mirrors ?s (put_obj ob objs)" "list_all (accepts ?s) list"
    using Cons.prems by (auto intro: mirrors_put)
  from Cons.IH[OF this] obtain s' where
    "add_all ?s list = Inr (None, s')"
    "mirrors s' (fold put_obj list (put_obj ob objs))"
    "accepts s' = accepts s" by auto
  then show ?case using Cons.prems by (simp add: Add_accepts)
qed auto

interpretation metrics_store: cache_store Add Update Delete Replace accepts mirrors
proof
  show "Accessor obj \<noteq> None" if "accepts s obj" for s obj
    using that by (simp add: accepts_def)
  show add: "\<exists>s'. Add s obj = Inr (None, s') \<and> mirrors s' (put_obj obj objs) \<and> accepts s' = accepts s"
    if "mirrors s objs" "accepts s obj" for s objs obj
    using that by (simp add: Add_accepts mirrors_put)
  show "\<exists>s'. Update s obj = Inr (None, s') \<and> mirrors s' (put_obj obj objs) \<and> accepts s' = accepts s"
    if "mirrors s objs" "accepts s obj" for s objs obj
    using add[OF that] by (simp add: Update_def)
  show "\<exists>s'. Delete s obj = Inr (None, s') \<and> mirrors s' (del_obj obj objs) \<and> accepts s' = accepts s"
    if "mirrors s objs" "Accessor obj \<noteq> None" for s objs obj
    using that mirrors_del[of s objs obj] by (auto simp: Delete_def obj_uid_def)
  show "\<exists>s'. Replace s list rv = Inr (None, s') \<and>
      mirrors s' (objects_of list) \<and> accepts s' = accepts s"
    if "list_all (accepts s) list" for s list rv
    using add_all_mirrors[OF mirrors_empty, of s list] that by (simp add: Replace_def objects_of_def)
qed

subsection \<open>Properties\<close>

lemma enumerate_map_headers:
  "map (\<lambda>(i, h). F i h) (enumerate n (map g xs)) = map (\<lambda>(i, x). F i (g x)) (enumerate n xs)"
  by (induction xs arbitrary: n) auto

text \<open>No operation touches the headers or the generator function.\<close>

definition same_frame :: "MetricsStore \<Rightarrow> MetricsStore \<Rightarrow> bool" where
  "same_frame s s' \<longleftrightarrow> headers s' = headers s \<and> generateMetricsFunc s' = generateMetricsFunc s"

lemma add_all_frame: "add_all s list = Inr (e, s') \<Longrightarrow> same_frame s s'"
proof (induction list arbitrary: s)
  case (Cons ob list)
  obtain e1 s1 where s1: "Add s ob = Inr (e1, s1)" using Cons.prems by (auto simp: go_bind_Inr_iff)
  then show ?case using Cons.prems Cons.IH[of s1] Add_frame[OF s1] by (cases e1) (auto simp: same_frame_def)
qed (simp add: same_frame_def)

lemma store_step_frame: "store_step s s' \<Longrightarrow> same_frame s s'"
proof (erule store_stepE)
  fix p e assume "apply_op s p = Inr (e, s')"
  then show "same_frame s s'"
    using add_all_frame[of "s\<lparr>metrics := []\<rparr>"]
    by (cases p) (auto simp: same_frame_def Update_def Delete_def Replace_def dest: Add_frame split: option.splits)
qed (simp add: same_frame_def)

lemma store_reachable_frame: "store_reachable s0 s \<Longrightarrow> same_frame s0 s"
  by (induction rule: store_reachable.induct) (auto simp: same_frame_def dest!: store_step_frame)

text \<open>
  C18. \<open>Add\<close> and \<open>Update\<close> of an object that can be rendered replace the entry of the object's UID by
  the object's texts and leave every other entry, the headers and the generator function alone;
  \<open>Delete\<close> removes exactly that entry.
\<close>

theorem Add_Delete_lookup:
  assumes "accepts s obj"
  shows "\<exists>s'. Add s obj = Inr (None, s') \<and> Update s obj = Inr (None, s') \<and>
      map_of (metrics s') = (map_of (metrics s))(obj_uid obj \<mapsto> projr (render s obj)) \<and>
      headers s' = headers s \<and> generateMetricsFunc s' = generateMetricsFunc s \<and>
      (\<exists>s''. Delete s' obj = Inr (None, s'') \<and> map_of (metrics s'') = (map_of (metrics s))(obj_uid obj := None))"
proof -
  let ?s = "s\<lparr>metrics := AList.update (obj_uid obj) (projr (render s obj)) (metrics s)\<rparr>"
  have del: "\<exists>s''. Delete ?s obj = Inr (None, s'') \<and> map_of (metrics s'') = (map_of (metrics s))(obj_uid obj := None)"
    using assms by (auto simp: accepts_def Delete_def obj_uid_def AList.delete_conv' AList.update_conv')
  show ?thesis
    using assms del by (intro exI[of _ ?s]) (simp add: Add_accepts Update_def AList.update_conv')
qed

text \<open>A store of one family that prints a line per object, and objects for it.\<close>

definition demo_gen :: "kobject FamilyGenerator" where
  "demo_gen = \<lparr>gen_Name = ''m'', gen_Help = ''help'', gen_Type = Gauge, GenerateFunc = (\<lambda>obj.
     Inr \<lparr>fam_Name = [], fam_Type = [], Metrics = [\<lparr>LabelKeys = [], LabelValues = [], Value = Fin 1\<rparr>]\<rparr>)\<rparr>"

definition demo_store :: MetricsStore where
  "demo_store = NewMetricsStore (ExtractMetricFamilyHeaders [demo_gen]) (ComposeMetricGenFuncs [demo_gen])"

definition demo_obj :: "string \<Rightarrow> kobject" where
  "demo_obj uid = Other_obj (Ptr_to [] ''T'') (empty_meta\<lparr>UID := uid\<rparr>)"

lemma demo_render: "render demo_store obj = Inr [''m 1'' @ [newline]]"
  by (simp add: demo_store_def demo_gen_def NewMetricsStore_def render_def ComposeMetricGenFuncs_def Generate_def
      ByteSlice_def Write_def labelsToString_def writeFloat_def)

lemma demo_accepts: "accepts demo_store (demo_obj u)"
  by (simp add: accepts_def demo_render demo_obj_def)

lemma demo_Add: "Add demo_store (demo_obj u) = Inr (None, demo_store\<lparr>metrics := [(u, [''m 1'' @ [newline]])]\<rparr>)"
  unfolding Add_accepts[OF demo_accepts] demo_render
  by (simp add: obj_uid_def demo_obj_def demo_store_def NewMetricsStore_def)

theorem Add_Delete_lookup_witness:
  "\<exists>s'. Add demo_store (demo_obj ''u'') = Inr (None, s') \<and> map_of (metrics s') ''u'' = Some [''m 1'' @ [newline]]"
  using Add_Delete_lookup[OF demo_accepts[of "''u''"]] by (auto simp: demo_render obj_uid_def demo_obj_def)

text \<open>
  C19. An object without metadata is refused by \<open>Add\<close>, \<open>Update\<close> and \<open>Delete\<close> with an error and
  without any change; \<open>Replace\<close> stops at the first such object and leaves the objects before it in
  the store, and nothing else.
\<close>

theorem Replace_stops_at_error:
  assumes "list_all (accepts s) objs" "Accessor bad = None"
  shows "Add s bad = Inr (Some no_meta_err, s) \<and> Update s bad = Inr (Some no_meta_err, s) \<and>
    Delete s bad = Inr (Some no_meta_err, s) \<and>
    (\<exists>s'. Replace s (objs @ bad # rest) rv = Inr (Some no_meta_err, s') \<and> mirrors s' (objects_of objs))"
proof -
  have prefix: "add_all s1 (objs @ bad # rest) = Inr (Some no_meta_err, s2)"
    if "add_all s1 objs = Inr (None, s2)" for s1 s2
    using that
  proof (induction objs arbitrary: s1)
    case Nil
    then show ?case using assms(2) by (simp add: Add_def)
  next
    case (Cons ob obs)
    obtain e s3 where "Add s1 ob = Inr (e, s3)" using Cons.prems by (auto simp: go_bind_Inr_iff)
    then show ?case using Cons by (cases e) auto
  qed
  obtain s' where "Replace s objs rv = Inr (None, s')" "mirrors s' (objects_of objs)"
    using metrics_store.repl_law[OF assms(1)] by blast
  then show ?thesis using prefix assms(2) by (auto simp: Replace_def Add_def Update_def Delete_def)
qed

theorem Replace_stops_at_error_witness:
  "\<exists>s'. Replace demo_store [demo_obj ''a'', Status_obj ''gone'', demo_obj ''b''] ''7'' = Inr (Some no_meta_err, s') \<and>
    mirrors s' (objects_of [demo_obj ''a''])"
  using Replace_stops_at_error[of demo_store "[demo_obj ''a'']" "Status_obj ''gone''" "[demo_obj ''b'']" "''7''"]
    demo_accepts by simp

text \<open>
  C4. \<open>WriteAll\<close> never indexes out of range and prints the headers in their order; under each header
  come the texts of that family of all stored objects, each exactly once, whatever order the map is
  visited in.
\<close>

theorem WriteAll_families:
  assumes "store_reachable (NewMetricsStore (ExtractMetricFamilyHeaders gens) (ComposeMetricGenFuncs gens)) s"
    "order_ok order"
  shows "\<exists>ts. WriteAll order s =
      Inr (concat (map (\<lambda>(i, g). generateHeader g @ [newline] @ concat (ts i)) (enumerate 0 gens))) \<and>
    (\<forall>i. mset (ts i) = image_mset (\<lambda>(uid, fs). fs ! i) (mset (metrics s)))"
proof -
  let ?s0 = "NewMetricsStore (ExtractMetricFamilyHeaders gens) (ComposeMetricGenFuncs gens)"
  have ok: "store_ok s" using store_reachable_ok[OF assms(1)] arity_ok_Compose by auto
  have "headers s = headers ?s0" using store_reachable_frame[OF assms(1)] by (simp add: same_frame_def)
  then have hs: "headers s = map generateHeader gens"
    by (simp add: NewMetricsStore_def ExtractMetricFamilyHeaders_def)
  let ?ts = "\<lambda>i. map (\<lambda>(uid, fs). fs ! i) (order i (metrics s))"
  have "WriteAll order s =
      Inr (concat (map (\<lambda>(i, g). generateHeader g @ [newline] @ concat (?ts i)) (enumerate 0 gens)))"
    using WriteAll_text[OF ok assms(2)] by (simp add: hs enumerate_map_headers family_text_def)
  moreover have "mset (?ts i) = image_mset (\<lambda>(uid, fs). fs ! i) (mset (metrics s))" for i
    using assms(2) unfolding order_ok_def mset_map by metis
  ultimately show ?thesis by (intro exI[of _ ?ts]) simp
qed

theorem WriteAll_families_witness:
  "\<exists>ts. WriteAll (\<lambda>i m. rev m) (demo_store\<lparr>metrics := [(''a'', [''m 1'' @ [newline]])]\<rparr>) =
      Inr (generateHeader demo_gen @ [newline] @ concat (ts 0)) \<and> mset (ts 0) = {#''m 1'' @ [newline]#}"
proof -
  have "store_step demo_store (demo_store\<lparr>metrics := [(''a'', [''m 1'' @ [newline]])]\<rparr>)"
    by (rule store_step.step_op[where p = "Op_Add (demo_obj ''a'')"]) (simp add: demo_Add)
  then have "store_reachable (NewMetricsStore (ExtractMetricFamilyHeaders [demo_gen]) (ComposeMetricGenFuncs [demo_gen]))
      (demo_store\<lparr>metrics := [(''a'', [''m 1'' @ [newline]])]\<rparr>)"
    using store_reachable.reach_step[OF store_reachable.reach_init] by (simp add: demo_store_def)
  from WriteAll_families[OF this, of "\<lambda>i m. rev m"] show ?thesis by (fastforce simp: order_ok_def)
qed

end
