(* ===== verification/Lister_Watcher.thy ===== *)
theory Lister_Watcher
  imports Metrics_Store
begin

text \<open>
  The interface \<open>cache.ListerWatcher\<close> of client-go and the lists and watch events that go
  through it. A call may change the world \<open>'w\<close> (the API server seen through the client, and the
  counters of the program), so it takes the world and returns the new one. A watch is the sequence
  of events it delivers until its channel is closed.
\<close>

record ListOptions =
  opt_ResourceVersion :: string
  FieldSelector :: string

text \<open>A list as \<open>meta.ExtractList\<close> and \<open>meta.ListAccessor\<close> see it: its items and its resource version.\<close>

record ObjectList =
  list_ResourceVersion :: string
  Items :: "kobject list"

datatype event_type = Added | Modified | Deleted | Bookmark | Error

record Event =
  ev_Type :: event_type
  ev_Object :: kobject

type_synonym watch = "Event list"

record 'w ListerWatcher =
  lw_List :: "ListOptions \<Rightarrow> 'w \<Rightarrow> (err + ObjectList) \<times> 'w"
  lw_Watch :: "ListOptions \<Rightarrow> 'w \<Rightarrow> (err + watch) \<times> 'w"

text \<open>The events of a watch whose object has metadata; others are API status objects.\<close>

definition has_meta :: "kobject \<Rightarrow> bool" where
  "has_meta obj \<longleftrightarrow> Accessor obj \<noteq> None"

definition events_meta :: "watch \<Rightarrow> bool" where
  "events_meta evs \<longleftrightarrow> list_all (\<lambda>e. has_meta (ev_Object e)) evs"

subsection \<open>Filtering lister watchers\<close>

text \<open>
  The contract shared by the wrappers that hide some objects from the reflector: an error of the
  wrapped lister watcher is passed on, the items of a list and the events of a watch are those with
  the property \<open>p\<close>, in the same order.
\<close>

locale filtering_lister_watcher =
  fixes wrap :: "'w ListerWatcher \<Rightarrow> 'w ListerWatcher"
    and p :: "kobject \<Rightarrow> bool"
  assumes list_error: "lw_List lw opts w = (Inl e, w') \<Longrightarrow> lw_List (wrap lw) opts w = (Inl e, w')"
    and list_items: "lw_List lw opts w = (Inr l, w') \<Longrightarrow> list_all has_meta (Items l) \<Longrightarrow>
      \<exists>l'. lw_List (wrap lw) opts w = (Inr l', w') \<and> Items l' = filter p (Items l)"
    and watch_error: "lw_Watch lw opts w = (Inl e, w') \<Longrightarrow> lw_Watch (wrap lw) opts w = (Inl e, w')"
    and watch_events: "lw_Watch lw opts w = (Inr evs, w') \<Longrightarrow> events_meta evs \<Longrightarrow>
      lw_Watch (wrap lw) opts w = (Inr (filter (\<lambda>e. p (ev_Object e)) evs), w')"
begin

lemma list_returns_iff:
  assumes "lw_List lw opts w = (r, w')" "\<And>l. r = Inr l \<Longrightarrow> list_all has_meta (Items l)"
  shows "isl (fst (lw_List (wrap lw) opts w)) \<longleftrightarrow> isl r"
proof (cases r)
  case (Inl e)
  then show ?thesis using list_error assms(1) by simp
next
  case (Inr l)
  then obtain l' where "lw_List (wrap lw) opts w = (Inr l', w')"
    using list_items assms by blast
  then show ?thesis using Inr by simp
qed

lemma list_hides: "lw_List lw opts w = (Inr l, w') \<Longrightarrow> list_all has_meta (Items l) \<Longrightarrow>
    lw_List (wrap lw) opts w = (Inr l', w'') \<Longrightarrow> obj \<in> set (Items l') \<Longrightarrow> p obj \<and> obj \<in> set (Items l)"
  using list_items by fastforce

end

text \<open>A lister watcher with a fixed list and fixed events, for concrete examples.\<close>

definition fixed_list :: "kobject list \<Rightarrow> string \<Rightarrow> watch \<Rightarrow> unit ListerWatcher" where
  "fixed_list objs rv evs =
     \<lparr>lw_List = (\<lambda>opts w. (Inr \<lparr>list_ResourceVersion = rv, Items = objs\<rparr>, w)), lw_Watch = (\<lambda>opts w. (Inr evs, w))\<rparr>"

end
