(* ===== verification/Allowdenylist.thy ===== *)
theory Allowdenylist
  imports Generator Lister_Watcher
begin

text \<open>
  \<open>pkg/allowdenylist\<close>. Regular expressions are Go's \<open>regexp\<close>: \<open>Compile\<close> is a parameter that
  gives an error or the match predicate of the compiled expression. A Go map used as a set is a
  list of its keys without duplicates.
\<close>

record AllowDenyList =
  adl_list :: "string list"
  rList :: "(string \<Rightarrow> bool) list"
  isAllowList :: bool

type_synonym regexp_compiler = "string \<Rightarrow> err + (string \<Rightarrow> bool)"

definition copyList :: "string list \<Rightarrow> string list" where
  "copyList l = foldl (\<lambda>new k. List.insert k new) [] l"

definition New :: "string list \<Rightarrow> string list \<Rightarrow> err + AllowDenyList" where
  "New allow deny =
     (if length allow \<noteq> 0 \<and> length deny \<noteq> 0
      then Inl (Err ''allowlist and denylist are both set, they are mutually exclusive, only one of them can be set'')
      else if length allow \<noteq> 0 then Inr \<lparr>adl_list = copyList allow, rList = [], isAllowList = True\<rparr>
      else Inr \<lparr>adl_list = copyList deny, rList = [], isAllowList = False\<rparr>)"

fun compile_all :: "regexp_compiler \<Rightarrow> string list \<Rightarrow> err + (string \<Rightarrow> bool) list" where
  "compile_all Compile [] = Inr []"
| "compile_all Compile (item # items) =
     (case Compile item of
        Inl e \<Rightarrow> Inl e
      | Inr r \<Rightarrow> (case compile_all Compile items of Inl e \<Rightarrow> Inl e | Inr rs \<Rightarrow> Inr (r # rs)))"

text \<open>An error leaves the compiled expressions as they were.\<close>

definition Parse :: "regexp_compiler \<Rightarrow> AllowDenyList \<Rightarrow> err option \<times> AllowDenyList" where
  "Parse Compile l =
     (case compile_all Compile (adl_list l) of
        Inl e \<Rightarrow> (Some e, l)
      | Inr regexes \<Rightarrow> (None, l\<lparr>rList := regexes\<rparr>))"

definition put_items :: "string list \<Rightarrow> string list \<Rightarrow> string list" where
  "put_items items l = foldl (\<lambda>acc item. List.insert item acc) l items"

definition delete_items :: "string list \<Rightarrow> string list \<Rightarrow> string list" where
  "delete_items items l = foldl (\<lambda>acc item. removeAll item acc) l items"

definition Include :: "string list \<Rightarrow> AllowDenyList \<Rightarrow> AllowDenyList" where
  "Include items l =
     (if isAllowList l then l\<lparr>adl_list := put_items items (adl_list l)\<rparr>
      else l\<lparr>adl_list := delete_items items (adl_list l)\<rparr>)"

definition Exclude :: "string list \<Rightarrow> AllowDenyList \<Rightarrow> AllowDenyList" where
  "Exclude items l =
     (if isAllowList l then l\<lparr>adl_list := delete_items items (adl_list l)\<rparr>
      else l\<lparr>adl_list := put_items items (adl_list l)\<rparr>)"

text \<open>The loop that stops at the first match.\<close>

fun any_match :: "(string \<Rightarrow> bool) list \<Rightarrow> string \<Rightarrow> bool" where
  "any_match [] item = False"
| "any_match (r # rs) item = (if r item then True else any_match rs item)"

definition IsIncluded :: "AllowDenyList \<Rightarrow> string \<Rightarrow> bool" where
  "IsIncluded l item = (let matched = any_match (rList l) item in if isAllowList l then matched else \<not> matched)"

definition IsExcluded :: "AllowDenyList \<Rightarrow> string \<Rightarrow> bool" where
  "IsExcluded l item = (\<not> IsIncluded l item)"

definition Status :: "AllowDenyList \<Rightarrow> string" where
  "Status l =
     (if isAllowList l then ''Including the following lists that were on allowlist: '' @ Join (adl_list l) '', ''
      else ''Excluding the following lists that were on denylist: '' @ Join (adl_list l) '', '')"

subsection \<open>The interface AllowDenyLister\<close>

text \<open>What the builder and the family filter rely on (\<open>pkg/builder/types\<close>).\<close>

locale allow_deny_lister =
  fixes isIncluded isExcluded :: "string \<Rightarrow> bool"
  assumes excluded_iff: "isExcluded item \<longleftrightarrow> \<not> isIncluded item"
begin

lemma filter_keeps_included:
  "set (FilterMetricFamilies isIncluded fs) = {f \<in> set fs. \<not> isExcluded (gen_Name f)}"
  by (auto simp: FilterMetricFamilies_filter excluded_iff)

lemma filter_idem:
  "FilterMetricFamilies isIncluded (FilterMetricFamilies isIncluded fs) = FilterMetricFamilies isIncluded fs"
  by (simp add: FilterMetricFamilies_filter)

end

interpretation adl: allow_deny_lister "IsIncluded l" "IsExcluded l"
  by unfold_locales (simp add: IsExcluded_def)

subsection \<open>Lemmas\<close>

lemma set_put_items [simp]: "set (put_items items l) = set l \<union> set items"
  by (induction items arbitrary: l) (auto simp: put_items_def)

lemma set_delete_items [simp]: "set (delete_items items l) = set l - set items"
  by (induction items arbitrary: l) (auto simp: delete_items_def)

lemma copyList_put: "copyList l = put_items l []"
  by (simp add: copyList_def put_items_def)

lemma set_copyList [simp]: "set (copyList l) = set l"
  by (simp add: copyList_put)

lemma any_match_iff: "any_match rs item \<longleftrightarrow> (\<exists>r \<in> set rs. r item)"
  by (induction rs) auto

lemma compile_all_Inr_iff: "compile_all C items = Inr rs \<longleftrightarrow> list_all2 (\<lambda>i r. C i = Inr r) items rs"
proof (induction items arbitrary: rs)
  case Nil
  then show ?case by (cases rs) auto
next
  case (Cons i items)
  show ?case by (cases rs) (auto simp: Cons.IH[symmetric] split: sum.splits)
qed

lemma Parse_matches:
  assumes "Parse C l = (None, l')"
  shows "any_match (rList l') item \<longleftrightarrow> (\<exists>i \<in> set (adl_list l). \<exists>r. C i = Inr r \<and> r item)"
proof -
  obtain rs where rs: "list_all2 (\<lambda>i r. C i = Inr r) (adl_list l) rs" "rList l' = rs"
    using assms by (auto simp: Parse_def compile_all_Inr_iff split: sum.splits)
  have "(\<exists>r \<in> set rs. r item) \<longleftrightarrow> (\<exists>i \<in> set (adl_list l). \<exists>r. C i = Inr r \<and> r item)"
    using rs(1) by (induction rule: list_all2_induct) auto
  then show ?thesis by (simp add: any_match_iff rs(2))
qed

lemma Parse_keeps: "Parse C l = (e, l') \<Longrightarrow> adl_list l' = adl_list l \<and> isAllowList l' = isAllowList l"
  by (auto simp: Parse_def split: sum.splits)

lemma compile_all_Inl: "compile_all C items = Inl e \<Longrightarrow> \<exists>i \<in> set items. C i = Inl e"
  by (induction items) (auto split: sum.splits)

subsection \<open>Properties\<close>

text \<open>
  C36. With an allowlist a metric name is included exactly when one of the allowlisted expressions
  matches it, with a denylist exactly when none of the denied ones does; without either list
  everything is included; both lists together are refused.
\<close>

theorem allowdenylist_semantics:
  "case New allow deny of
     Inl e \<Rightarrow> allow \<noteq> [] \<and> deny \<noteq> []
   | Inr l \<Rightarrow> (allow = [] \<or> deny = []) \<and>
       (case Parse Compile l of
          (Some e, l') \<Rightarrow> \<exists>i \<in> set (allow @ deny). Compile i = Inl e
        | (None, l') \<Rightarrow> \<forall>item.
            (IsIncluded l' item \<longleftrightarrow>
              (if allow \<noteq> [] then \<exists>i \<in> set allow. \<exists>r. Compile i = Inr r \<and> r item
               else \<not> (\<exists>i \<in> set deny. \<exists>r. Compile i = Inr r \<and> r item))) \<and>
            (IsExcluded l' item \<longleftrightarrow> \<not> IsIncluded l' item))"
proof (cases "New allow deny")
  case (Inl e)
  then show ?thesis by (auto simp: New_def split: if_splits)
next
  case (Inr l)
  have l: "allow = [] \<or> deny = []" "set (adl_list l) = set (allow @ deny)" "isAllowList l \<longleftrightarrow> allow \<noteq> []"
    using Inr by (auto simp: New_def split: if_splits)
  show ?thesis
  proof (cases "Parse Compile l")
    case (Pair e l')
    show ?thesis
    proof (cases e)
      case (Some er)
      then have "compile_all Compile (adl_list l) = Inl er" using Pair by (auto simp: Parse_def split: sum.splits)
      then show ?thesis using Inr l Pair Some by (auto dest!: compile_all_Inl)
    next
      case None
      then show ?thesis
        using Inr l Pair Parse_matches[of Compile l l'] Parse_keeps[of Compile l e l']
        by (cases "allow = []") (simp_all add: IsIncluded_def IsExcluded_def Let_def)
    qed
  qed
qed

text \<open>
  \<open>Include\<close> and \<open>Exclude\<close> change what is included only when \<open>Parse\<close> runs again: until then the
  answers stay as they were; afterwards, for an expression that compiles and matches itself, \<open>Include\<close>
  has made it included on an allowlist and \<open>Exclude\<close> has made it excluded on a denylist.
\<close>

lemma Include_Exclude_need_Parse:
  assumes "Parse Compile (Include items a) = (None, a')" "Parse Compile (Exclude items d) = (None, d')"
    "isAllowList a" "\<not> isAllowList d" "item \<in> set items" "Compile item = Inr r" "r item"
  shows "IsIncluded (Include items l) n = IsIncluded l n \<and> IsIncluded (Exclude items l) n = IsIncluded l n \<and>
    IsIncluded a' item \<and> IsExcluded d' item"
proof -
  have "IsIncluded (Include items l) n = IsIncluded l n" "IsIncluded (Exclude items l) n = IsIncluded l n"
    by (simp_all add: IsIncluded_def Include_def Exclude_def)
  moreover have "IsIncluded a' item"
    using Parse_matches[OF assms(1), of item] Parse_keeps[OF assms(1)] assms(3,5-) by (auto simp: IsIncluded_def Include_def)
  moreover have "IsExcluded d' item"
    using Parse_matches[OF assms(2), of item] Parse_keeps[OF assms(2)] assms(4-)
    by (auto simp: IsIncluded_def IsExcluded_def Exclude_def)
  ultimately show ?thesis by simp
qed

text \<open>
  The lists hold regular expressions that are not anchored: for a compiler that treats an
  expression without special characters as a search for it, which is what Go's \<open>regexp\<close> does, allowing
  or denying one metric by its exact name also allows or denies every metric whose name contains it.
\<close>

lemma exact_name_selects_longer_names:
  assumes "Compile name = Inr (\<lambda>s. Contains s name)" "Contains longer name"
  shows "\<exists>a d a' d'. New [name] [] = Inr a \<and> Parse Compile a = (None, a') \<and> IsIncluded a' longer \<and>
    New [] [name] = Inr d \<and> Parse Compile d = (None, d') \<and> IsExcluded d' longer"
  using assms by (auto simp: New_def copyList_def Parse_def IsIncluded_def IsExcluded_def)

lemma exact_name_selects_longer_names_witness:
  "\<exists>d d'. New [] [''kube_pod_container_status_terminated''] = Inr d \<and>
     Parse (\<lambda>i. Inr (\<lambda>s. Contains s i)) d = (None, d') \<and> IsExcluded d' ''kube_pod_container_status_terminated_reason''"
proof -
  have "Contains ''kube_pod_container_status_terminated_reason'' ''kube_pod_container_status_terminated''"
    by simp
  from exact_name_selects_longer_names[where Compile = "\<lambda>i. Inr (\<lambda>s. Contains s i)", OF _ this]
  show ?thesis by blast
qed

end
