(* ===== verification/Options.thy ===== *)
theory Options
  imports Go_Strings K8s_Meta
begin

text \<open>
  \<open>pkg/options\<close>: the values of the command line flags. A set is the list of its keys, without
  duplicates; \<open>asSlice\<close> returns them in the order of the list, which stands for the order in which
  Go visits the map.
\<close>

subsection \<open>Flag values (types.go)\<close>

definition asSlice :: "string list \<Rightarrow> string list" where
  "asSlice ms = ms"

definition MetricSet_String :: "string list \<Rightarrow> string" where
  "MetricSet_String ms = Join (sort (asSlice ms)) '',''"

definition add_trimmed :: "string list \<Rightarrow> string \<Rightarrow> string list" where
  "add_trimmed ms part = (let m = TrimSpace part in if length m \<noteq> 0 then List.insert m ms else ms)"

definition MetricSet_Set :: "string list \<Rightarrow> string \<Rightarrow> string list" where
  "MetricSet_Set ms value = foldl add_trimmed ms (Split (CHR '','') value)"

definition MetricSet_Type :: "string list \<Rightarrow> string" where
  "MetricSet_Type ms = ''string''"

definition ResourceSet_AsSlice :: "string list \<Rightarrow> string list" where
  "ResourceSet_AsSlice r = r"

definition ResourceSet_String :: "string list \<Rightarrow> string" where
  "ResourceSet_String r = Join (sort (ResourceSet_AsSlice r)) '',''"

definition ResourceSet_Set :: "string list \<Rightarrow> string \<Rightarrow> string list" where
  "ResourceSet_Set r value = foldl add_trimmed r (Split (CHR '','') value)"

definition ResourceSet_Type :: "string list \<Rightarrow> string" where
  "ResourceSet_Type r = ''string''"

definition NamespaceList_String :: "string list \<Rightarrow> string" where
  "NamespaceList_String n = Join n '',''"

definition NamespaceList_IsAllNamespaces :: "string list \<Rightarrow> bool" where
  "NamespaceList_IsAllNamespaces n \<longleftrightarrow> length n = 1 \<and> n ! 0 = NamespaceAll"

definition NamespaceList_Set :: "string list \<Rightarrow> string \<Rightarrow> string list" where
  "NamespaceList_Set n value =
     foldl (\<lambda>acc ns. let t = TrimSpace ns in if length t \<noteq> 0 then acc @ [t] else acc) n (Split (CHR '','') value)"

definition NamespaceList_Type :: "string list \<Rightarrow> string" where
  "NamespaceList_Type n = ''string''"

subsection \<open>Defaults (resource.go)\<close>

definition DefaultNamespaces :: "string list" where
  "DefaultNamespaces = [NamespaceAll]"

definition DefaultResources :: "string list" where
  "DefaultResources =
     [''certificatesigningrequests'', ''configmaps'', ''cronjobs'', ''daemonsets'', ''deployments'',
      ''endpoints'', ''horizontalpodautoscalers'', ''ingresses'', ''jobs'', ''leases'', ''limitranges'',
      ''mutatingwebhookconfigurations'', ''namespaces'', ''networkpolicies'', ''nodes'', ''persistentvolumes'',
      ''persistentvolumeclaims'', ''poddisruptionbudgets'', ''pods'', ''replicasets'', ''replicationcontrollers'',
      ''resourcequotas'', ''secrets'', ''services'', ''statefulsets'', ''storageclasses'',
      ''validatingwebhookconfigurations'', ''volumeattachments'']"

subsection \<open>Options (options.go)\<close>

record Options =
  Apiserver :: string
  Kubeconfig :: string
  Help :: bool
  opts_Port :: int
  opts_Host :: string
  TelemetryPort :: int
  TelemetryHost :: string
  Resources :: "string list"
  Namespaces :: "string list"
  Shard :: int
  TotalShards :: int
  opts_Pod :: string
  opts_Namespace :: string
  MetricDenylist :: "string list"
  MetricAllowlist :: "string list"
  Version :: bool
  EnableGZIPEncoding :: bool

definition NewOptions :: Options where
  "NewOptions = \<lparr>Apiserver = [], Kubeconfig = [], Help = False, opts_Port = 0, opts_Host = [], TelemetryPort = 0,
     TelemetryHost = [], Resources = [], Namespaces = [], Shard = 0, TotalShards = 0, opts_Pod = [],
     opts_Namespace = [], MetricDenylist = [], MetricAllowlist = [], Version = False, EnableGZIPEncoding = False\<rparr>"

text \<open>
  \<open>AddFlags\<close> registers the flags, which stores each flag's default in its field; the set-valued
  flags keep their empty value.
\<close>

definition AddFlags :: "Options \<Rightarrow> Options" where
  "AddFlags opts = opts\<lparr>Apiserver := [], Kubeconfig := [], Help := False, opts_Port := 8080, opts_Host := ''0.0.0.0'',
     TelemetryPort := 8081, TelemetryHost := ''0.0.0.0'', Shard := 0, TotalShards := 1, opts_Pod := [],
     opts_Namespace := [], Version := False, EnableGZIPEncoding := False\<rparr>"

text \<open>
  The flags that \<open>AddFlags\<close> registers: which field a flag sets, and how. The flag library reads the
  command line as a sequence of assignments and parses numbers and truth values; its parsers are
  arguments. A flag that \<open>AddFlags\<close> does not register itself sets no option: it belongs to the logging
  library, or it is unknown and the flag library reports an error.
\<close>

record flag_parsers =
  parse_int :: "string \<Rightarrow> err + int"
  parse_int32 :: "string \<Rightarrow> err + int"
  parse_bool :: "string \<Rightarrow> err + bool"
  set_other :: "string \<Rightarrow> string \<Rightarrow> err option"

fun set_parsed :: "err + 'a \<Rightarrow> ('a \<Rightarrow> Options) \<Rightarrow> err + Options" where
  "set_parsed (Inl e) f = Inl e"
| "set_parsed (Inr v) f = Inr (f v)"

definition set_flag :: "flag_parsers \<Rightarrow> Options \<Rightarrow> string \<times> string \<Rightarrow> err + Options" where
  "set_flag ps opts = (\<lambda>(name, value).
     if name = ''apiserver'' then Inr (opts\<lparr>Apiserver := value\<rparr>)
     else if name = ''kubeconfig'' then Inr (opts\<lparr>Kubeconfig := value\<rparr>)
     else if name = ''help'' then set_parsed (parse_bool ps value) (\<lambda>v. opts\<lparr>Help := v\<rparr>)
     else if name = ''port'' then set_parsed (parse_int ps value) (\<lambda>v. opts\<lparr>opts_Port := v\<rparr>)
     else if name = ''host'' then Inr (opts\<lparr>opts_Host := value\<rparr>)
     else if name = ''telemetry-port'' then set_parsed (parse_int ps value) (\<lambda>v. opts\<lparr>TelemetryPort := v\<rparr>)
     else if name = ''telemetry-host'' then Inr (opts\<lparr>TelemetryHost := value\<rparr>)
     else if name = ''resources'' then Inr (opts\<lparr>Resources := ResourceSet_Set (Resources opts) value\<rparr>)
     else if name = ''namespace'' then Inr (opts\<lparr>Namespaces := NamespaceList_Set (Namespaces opts) value\<rparr>)
     else if name = ''metric-allowlist'' then Inr (opts\<lparr>MetricAllowlist := MetricSet_Set (MetricAllowlist opts) value\<rparr>)
     else if name = ''metric-denylist'' then Inr (opts\<lparr>MetricDenylist := MetricSet_Set (MetricDenylist opts) value\<rparr>)
     else if name = ''shard'' then set_parsed (parse_int32 ps value) (\<lambda>v. opts\<lparr>Shard := v\<rparr>)
     else if name = ''total-shards'' then set_parsed (parse_int ps value) (\<lambda>v. opts\<lparr>TotalShards := v\<rparr>)
     else if name = ''pod'' then Inr (opts\<lparr>opts_Pod := value\<rparr>)
     else if name = ''pod-namespace'' then Inr (opts\<lparr>opts_Namespace := value\<rparr>)
     else if name = ''version'' then set_parsed (parse_bool ps value) (\<lambda>v. opts\<lparr>Version := v\<rparr>)
     else if name = ''enable-gzip-encoding'' then set_parsed (parse_bool ps value) (\<lambda>v. opts\<lparr>EnableGZIPEncoding := v\<rparr>)
     else (case set_other ps name value of None \<Rightarrow> Inr opts | Some e \<Rightarrow> Inl e))"

text \<open>\<open>Parse\<close>: the assignments in their order, up to the first one that fails.\<close>

fun parse_assignments :: "flag_parsers \<Rightarrow> Options \<Rightarrow> (string \<times> string) list \<Rightarrow> err + Options" where
  "parse_assignments ps opts [] = Inr opts"
| "parse_assignments ps opts (a # as) =
     (case set_flag ps opts a of Inl e \<Rightarrow> Inl e | Inr opts' \<Rightarrow> parse_assignments ps opts' as)"

subsection \<open>Flag values round-trip\<close>

text \<open>An entry that \<open>Set\<close> can produce: not empty, without comma, without surrounding white space.\<close>

definition entry_ok :: "string \<Rightarrow> bool" where
  "entry_ok e \<longleftrightarrow> e \<noteq> [] \<and> CHR '','' \<notin> set e \<and> TrimSpace e = e"

lemma TrimSpace_Nil [simp]: "TrimSpace [] = []"
  using set_TrimSpace[of "[]"] by simp

lemma set_add_trimmed_fold:
  "set (foldl add_trimmed ms parts) = set ms \<union> {TrimSpace p | p. p \<in> set parts \<and> TrimSpace p \<noteq> []}"
  by (induction parts arbitrary: ms) (auto simp: add_trimmed_def Let_def)

lemma distinct_add_trimmed_fold: "distinct ms \<Longrightarrow> distinct (foldl add_trimmed ms parts)"
  by (induction parts arbitrary: ms) (auto simp: add_trimmed_def Let_def)

lemma entry_ok_TrimSpace: "p \<in> set (Split (CHR '','') v) \<Longrightarrow> TrimSpace p \<noteq> [] \<Longrightarrow> entry_ok (TrimSpace p)"
  using set_TrimSpace[of p] Split_no_sep[of p "CHR '',''" v] by (auto simp: entry_ok_def)

lemma MetricSet_Set_ok:
  "list_all entry_ok ms \<Longrightarrow> list_all entry_ok (MetricSet_Set ms v)"
  by (auto simp: list_all_iff MetricSet_Set_def set_add_trimmed_fold entry_ok_TrimSpace)

lemma MetricSet_roundtrip:
  assumes "list_all entry_ok ms"
  shows "set (MetricSet_Set [] (MetricSet_String ms)) = set ms"
proof (cases "ms = []")
  case True
  then show ?thesis by (simp add: MetricSet_Set_def MetricSet_String_def asSlice_def add_trimmed_def)
next
  case False
  have "sort ms \<noteq> []" using False by (metis set_empty set_sort)
  then have "Split (CHR '','') (Join (sort ms) '','') = sort ms"
    using assms by (intro Split_Join) (auto simp: list_all_iff entry_ok_def)
  then show ?thesis
    using assms
    by (auto simp: MetricSet_Set_def MetricSet_String_def asSlice_def set_add_trimmed_fold list_all_iff entry_ok_def)
       metis
qed

lemma foldl_append_trimmed:
  "foldl (\<lambda>acc ns. let t = TrimSpace ns in if length t \<noteq> 0 then acc @ [t] else acc) n parts =
   n @ filter (\<lambda>t. t \<noteq> []) (map TrimSpace parts)"
  by (induction parts arbitrary: n) (auto simp: Let_def)

lemma NamespaceList_Set_eq:
  "NamespaceList_Set n v = n @ filter (\<lambda>t. t \<noteq> []) (map TrimSpace (Split (CHR '','') v))"
  unfolding NamespaceList_Set_def by (rule foldl_append_trimmed)

lemma NamespaceList_roundtrip:
  assumes "list_all entry_ok ns" "ns \<noteq> []"
  shows "NamespaceList_Set [] (NamespaceList_String ns) = ns"
proof -
  have "Split (CHR '','') (Join ns '','') = ns"
    using assms by (intro Split_Join) (auto simp: list_all_iff entry_ok_def)
  moreover have "map TrimSpace ns = ns" "filter (\<lambda>t. t \<noteq> []) ns = ns"
    using assms(1) by (auto simp: list_all_iff entry_ok_def intro: map_idI filter_True)
  ultimately show ?thesis by (simp add: NamespaceList_Set_eq NamespaceList_String_def)
qed

subsection \<open>Repeated flags\<close>

text \<open>The values that a list of assignments gives to a flag.\<close>

definition flag_values :: "string \<Rightarrow> (string \<times> string) list \<Rightarrow> string list" where
  "flag_values name as = map snd (filter (\<lambda>a. fst a = name) as)"

text \<open>The non-empty parts of a list value.\<close>

definition flag_entries :: "string \<Rightarrow> string list" where
  "flag_entries value = filter (\<lambda>t. t \<noteq> []) (map TrimSpace (Split (CHR '','') value))"

lemma set_flag_entries: "set (flag_entries value) = {TrimSpace p | p. p \<in> set (Split (CHR '','') value) \<and> TrimSpace p \<noteq> []}"
  by (auto simp: flag_entries_def)

lemma set_MetricSet_Set: "set (MetricSet_Set ms value) = set ms \<union> set (flag_entries value)"
  unfolding MetricSet_Set_def set_add_trimmed_fold set_flag_entries ..

lemma set_ResourceSet_Set: "set (ResourceSet_Set ms value) = set ms \<union> set (flag_entries value)"
  unfolding ResourceSet_Set_def set_add_trimmed_fold set_flag_entries ..

lemma set_parsed_Inr_iff: "set_parsed r f = Inr opts \<longleftrightarrow> (\<exists>v. r = Inr v \<and> opts = f v)"
  by (cases r) auto

text \<open>What one assignment does to the flags that hold lists.\<close>

lemma set_flag_lists:
  assumes "set_flag ps opts (name, value) = Inr opts'"
  shows "set (Resources opts') = set (Resources opts) \<union> (if name = ''resources'' then set (flag_entries value) else {}) \<and>
    Namespaces opts' = Namespaces opts @ (if name = ''namespace'' then flag_entries value else []) \<and>
    set (MetricAllowlist opts') = set (MetricAllowlist opts) \<union> (if name = ''metric-allowlist'' then set (flag_entries value) else {}) \<and>
    set (MetricDenylist opts') = set (MetricDenylist opts) \<union> (if name = ''metric-denylist'' then set (flag_entries value) else {})"
  using assms
  by (auto simp: set_flag_def set_parsed_Inr_iff set_MetricSet_Set set_ResourceSet_Set NamespaceList_Set_eq flag_entries_def
      split: if_splits option.splits)

subsection \<open>Properties\<close>

text \<open>
  The flag values round-trip through their text: setting a metric set from the text of a set gives
  the same set again, and likewise for a list of namespaces, order and repetitions included; every
  entry that \<open>Set\<close> accepts has this form, so it holds for every value a flag can have.
\<close>

lemma flag_values_roundtrip:
  assumes "list_all entry_ok ms" "list_all entry_ok ns" "ns \<noteq> []"
  shows "set (MetricSet_Set [] (MetricSet_String ms)) = set ms \<and>
    set (ResourceSet_Set [] (ResourceSet_String ms)) = set ms \<and>
    NamespaceList_Set [] (NamespaceList_String ns) = ns \<and>
    list_all entry_ok (MetricSet_Set ms v) \<and> list_all entry_ok (NamespaceList_Set ns v)"
proof -
  have "set (ResourceSet_Set [] (ResourceSet_String ms)) = set (MetricSet_Set [] (MetricSet_String ms))"
    by (simp add: ResourceSet_Set_def ResourceSet_String_def ResourceSet_AsSlice_def MetricSet_Set_def MetricSet_String_def asSlice_def)
  moreover have "list_all entry_ok (NamespaceList_Set ns v)"
    using assms(2) entry_ok_TrimSpace by (auto simp: NamespaceList_Set_eq list_all_iff)
  ultimately show ?thesis
    using MetricSet_roundtrip[OF assms(1)] NamespaceList_roundtrip[OF assms(2,3)] MetricSet_Set_ok[OF assms(1)] by simp
qed

lemma flag_values_roundtrip_witness:
  "NamespaceList_Set [] (NamespaceList_String [''kube-system'', ''default'']) = [''kube-system'', ''default'']"
proof -
  have "list_all entry_ok [''kube-system'', ''default'']" by code_simp
  from flag_values_roundtrip[OF this this] show ?thesis by simp
qed

text \<open>
  Flags that hold lists accumulate: after any sequence of assignments the resources and the metric lists
  are the entries of all their assignments together, and the namespaces are those of all assignments
  one after the other, in order and with repetitions.
\<close>

lemma list_flags_accumulate:
  assumes "parse_assignments ps opts as = Inr opts'"
  shows "set (Resources opts') = set (Resources opts) \<union> (\<Union>v \<in> set (flag_values ''resources'' as). set (flag_entries v)) \<and>
    Namespaces opts' = Namespaces opts @ concat (map flag_entries (flag_values ''namespace'' as)) \<and>
    set (MetricAllowlist opts') = set (MetricAllowlist opts) \<union> (\<Union>v \<in> set (flag_values ''metric-allowlist'' as). set (flag_entries v)) \<and>
    set (MetricDenylist opts') = set (MetricDenylist opts) \<union> (\<Union>v \<in> set (flag_values ''metric-denylist'' as). set (flag_entries v))"
  using assms
proof (induction as arbitrary: opts)
  case Nil
  then show ?case by (simp add: flag_values_def)
next
  case (Cons a as)
  obtain name v where a: "a = (name, v)" by (cases a)
  obtain opts1 where o: "set_flag ps opts (name, v) = Inr opts1" "parse_assignments ps opts1 as = Inr opts'"
    using Cons.prems a by (auto split: sum.splits)
  show ?case using Cons.IH[OF o(2)] set_flag_lists[OF o(1)] a by (auto simp: flag_values_def split: if_splits)
qed

end
