(* ===== verification/Listwatch.thy ===== *)
theory Listwatch
  imports Lister_Watcher
begin

text \<open>
  \<open>pkg/listwatch\<close>: one lister watcher over several namespaces, and the one that hides denied
  namespaces. The goroutines that forward the events of several watches into one channel are the
  step relation \<open>mw_step\<close>; the functional model of a watch takes the resulting interleaving as a
  parameter.
\<close>

subsection \<open>Denied namespaces (namespace_denylist.go)\<close>

text \<open>A namespace object counts as being in the namespace it names.\<close>

definition getNamespace :: "kobject \<Rightarrow> ObjectMeta \<Rightarrow> string" where
  "getNamespace obj a = (case obj of Namespace_obj n \<Rightarrow> Name (ns_ObjectMeta n) | _ \<Rightarrow> Namespace a)"

fun denylist_items :: "string list \<Rightarrow> kobject list \<Rightarrow> err + kobject list" where
  "denylist_items denylist [] = Inr []"
| "denylist_items denylist (obj # objs) =
     (case Accessor obj of
        None \<Rightarrow> Inl no_meta_err
      | Some acc \<Rightarrow>
          (case denylist_items denylist objs of
             Inl e \<Rightarrow> Inl e
           | Inr rest \<Rightarrow> Inr (if getNamespace obj acc \<in> set denylist then rest else obj # rest)))"

definition denylist_List :: "string list \<Rightarrow> 'w ListerWatcher \<Rightarrow> ListOptions \<Rightarrow> 'w \<Rightarrow> (err + ObjectList) \<times> 'w" where
  "denylist_List denylist next opts w =
     (case lw_List next opts w of
        (Inl e, w') \<Rightarrow> (Inl e, w')
      | (Inr l, w') \<Rightarrow>
          (case denylist_items denylist (Items l) of
             Inl e \<Rightarrow> (Inl e, w')
           | Inr items \<Rightarrow> (Inr \<lparr>list_ResourceVersion = list_ResourceVersion l, Items = items\<rparr>, w')))"

text \<open>The goroutine of the watch; an event whose object has no metadata is dropped.\<close>

fun newDenylistWatch :: "string list \<Rightarrow> watch \<Rightarrow> watch" where
  "newDenylistWatch denylist [] = []"
| "newDenylistWatch denylist (event # events) =
     (case Accessor (ev_Object event) of
        None \<Rightarrow> newDenylistWatch denylist events
      | Some acc \<Rightarrow>
          if getNamespace (ev_Object event) acc \<in> set denylist then newDenylistWatch denylist events
          else event # newDenylistWatch denylist events)"

definition denylist_Watch :: "string list \<Rightarrow> 'w ListerWatcher \<Rightarrow> ListOptions \<Rightarrow> 'w \<Rightarrow> (err + watch) \<times> 'w" where
  "denylist_Watch denylist next opts w =
     (case lw_Watch next opts w of
        (Inl e, w') \<Rightarrow> (Inl e, w')
      | (Inr evs, w') \<Rightarrow> (Inr (newDenylistWatch denylist evs), w'))"

definition newDenylistListerWatcher :: "string list \<Rightarrow> 'w ListerWatcher \<Rightarrow> 'w ListerWatcher" where
  "newDenylistListerWatcher namespaces next =
     (if length namespaces = 0 then next
      else \<lparr>lw_List = denylist_List namespaces next, lw_Watch = denylist_Watch namespaces next\<rparr>)"

subsection \<open>Several namespaces (listwatch.go)\<close>

definition IsAllNamespaces :: "string list \<Rightarrow> bool" where
  "IsAllNamespaces namespaces \<longleftrightarrow> length namespaces = 1 \<and> namespaces ! 0 = NamespaceAll"

text \<open>The loop of \<open>multiListerWatcher.List\<close>: all items and the resource versions so far.\<close>

fun multi_list_loop ::
  "'w ListerWatcher list \<Rightarrow> ListOptions \<Rightarrow> kobject list \<Rightarrow> string list \<Rightarrow> 'w \<Rightarrow> (err + ObjectList) \<times> 'w" where
  "multi_list_loop [] opts items rvs w = (Inr \<lparr>list_ResourceVersion = Join rvs ''/'', Items = items\<rparr>, w)"
| "multi_list_loop (lw # lws) opts items rvs w =
     (case lw_List lw opts w of
        (Inl e, w') \<Rightarrow> (Inl e, w')
      | (Inr l, w') \<Rightarrow> multi_list_loop lws opts (items @ Items l) (rvs @ [list_ResourceVersion l]) w')"

definition multi_List :: "'w ListerWatcher list \<Rightarrow> ListOptions \<Rightarrow> 'w \<Rightarrow> (err + ObjectList) \<times> 'w" where
  "multi_List mlw opts w = multi_list_loop mlw opts [] [] w"

text \<open>
  The loop of \<open>newMultiWatch\<close>, which opens the watches one after the other; when one of them
  fails it returns at once, and the watches opened before it stay open. Both callers pass one
  resource version per lister watcher, so the second equation is never used
  (\<open>multi_Watch_versions\<close>).
\<close>

fun open_watches :: "'w ListerWatcher list \<Rightarrow> string list \<Rightarrow> ListOptions \<Rightarrow> 'w \<Rightarrow> (err + watch list) \<times> 'w" where
  "open_watches [] rvs opts w = (Inr [], w)"
| "open_watches (lw # lws) [] opts w = (Inl (Err ''index out of range''), w)"
| "open_watches (lw # lws) (rv # rvs) opts w =
     (case lw_Watch lw (opts\<lparr>opt_ResourceVersion := rv\<rparr>) w of
        (Inl e, w') \<Rightarrow> (Inl e, w')
      | (Inr evs, w') \<Rightarrow>
          (case open_watches lws rvs opts w' of
             (Inl e, w'') \<Rightarrow> (Inl e, w'')
           | (Inr ws, w'') \<Rightarrow> (Inr (evs # ws), w'')))"

definition newMultiWatch ::
  "(watch list \<Rightarrow> watch) \<Rightarrow> 'w ListerWatcher list \<Rightarrow> string list \<Rightarrow> ListOptions \<Rightarrow> 'w \<Rightarrow> (err + watch) \<times> 'w" where
  "newMultiWatch merge lws resourceVersions opts w =
     (case open_watches lws resourceVersions opts w of
        (Inl e, w') \<Rightarrow> (Inl e, w')
      | (Inr ws, w') \<Rightarrow> (Inr (merge ws), w'))"

definition multi_Watch :: "(watch list \<Rightarrow> watch) \<Rightarrow> 'w ListerWatcher list \<Rightarrow> ListOptions \<Rightarrow> 'w \<Rightarrow> (err + watch) \<times> 'w" where
  "multi_Watch merge mlw opts w =
     (if opt_ResourceVersion opts \<noteq> [] then
        (let rvs = Split (CHR ''/'') (opt_ResourceVersion opts) in
         if length rvs \<noteq> length mlw
         then (Inl (Err ''expected resource version to have as many parts as ListerWatchers''), w)
         else newMultiWatch merge mlw rvs opts w)
      else newMultiWatch merge mlw (replicate (length mlw) []) opts w)"

definition multiListerWatcher :: "(watch list \<Rightarrow> watch) \<Rightarrow> 'w ListerWatcher list \<Rightarrow> 'w ListerWatcher" where
  "multiListerWatcher merge lws = \<lparr>lw_List = multi_List lws, lw_Watch = multi_Watch merge lws\<rparr>"

definition MultiNamespaceListerWatcher ::
  "(watch list \<Rightarrow> watch) \<Rightarrow> string list \<Rightarrow> string list \<Rightarrow> (string \<Rightarrow> 'w ListerWatcher) \<Rightarrow> 'w ListerWatcher" where
  "MultiNamespaceListerWatcher merge allowedNamespaces deniedNamespaces f =
     (if IsAllNamespaces allowedNamespaces then newDenylistListerWatcher deniedNamespaces (f (allowedNamespaces ! 0))
      else if length allowedNamespaces = 1 then f (allowedNamespaces ! 0)
      else multiListerWatcher merge (map f allowedNamespaces))"

subsection \<open>Namespaces without list privileges\<close>

text \<open>
  The REST client is a parameter: \<open>regular\<close> is \<open>cache.NewFilteredListWatchFromClient\<close> on the
  namespaces with its options modifier, \<open>get\<close> reads one namespace by name.
\<close>

fun get_namespaces ::
  "(string \<Rightarrow> ListOptions \<Rightarrow> 'w \<Rightarrow> (err + Namespace_t) \<times> 'w) \<Rightarrow> string list \<Rightarrow> ListOptions \<Rightarrow> 'w \<Rightarrow>
   (err + kobject list) \<times> 'w" where
  "get_namespaces get [] opts w = (Inr [], w)"
| "get_namespaces get (name # names) opts w =
     (case get name opts w of
        (Inl e, w') \<Rightarrow> (Inl e, w')
      | (Inr n, w') \<Rightarrow>
          (case get_namespaces get names opts w' of
             (Inl e, w'') \<Rightarrow> (Inl e, w'')
           | (Inr rest, w'') \<Rightarrow> (Inr (Namespace_obj n # rest), w'')))"

definition NewFilteredUnprivilegedNamespaceListWatchFromClient ::
  "((ListOptions \<Rightarrow> ListOptions) \<Rightarrow> 'w ListerWatcher) \<Rightarrow>
   (string \<Rightarrow> ListOptions \<Rightarrow> 'w \<Rightarrow> (err + Namespace_t) \<times> 'w) \<Rightarrow>
   string list \<Rightarrow> string list \<Rightarrow> (ListOptions \<Rightarrow> ListOptions) \<Rightarrow> 'w ListerWatcher" where
  "NewFilteredUnprivilegedNamespaceListWatchFromClient regular get allowedNamespaces deniedNamespaces optionsModifier =
     (if IsAllNamespaces allowedNamespaces
      then newDenylistListerWatcher deniedNamespaces (regular optionsModifier)
      else
        \<lparr>lw_List = (\<lambda>opts w.
           case get_namespaces get allowedNamespaces (optionsModifier opts) w of
             (Inl e, w') \<Rightarrow> (Inl e, w')
           | (Inr items, w') \<Rightarrow> (Inr \<lparr>list_ResourceVersion = [], Items = items\<rparr>, w')),
         lw_Watch = (\<lambda>opts w. (Inr [], w))\<rparr>)"

definition NewUnprivilegedNamespaceListWatchFromClient ::
  "((ListOptions \<Rightarrow> ListOptions) \<Rightarrow> 'w ListerWatcher) \<Rightarrow>
   (string \<Rightarrow> ListOptions \<Rightarrow> 'w \<Rightarrow> (err + Namespace_t) \<times> 'w) \<Rightarrow>
   string list \<Rightarrow> string list \<Rightarrow> string \<Rightarrow> 'w ListerWatcher" where
  "NewUnprivilegedNamespaceListWatchFromClient regular get allowedNamespaces deniedNamespaces fieldSelector =
     NewFilteredUnprivilegedNamespaceListWatchFromClient regular get allowedNamespaces deniedNamespaces
       (\<lambda>opts. opts\<lparr>FieldSelector := fieldSelector\<rparr>)"

subsection \<open>The denylist hides the denied namespaces\<close>

definition allowed_obj :: "string list \<Rightarrow> kobject \<Rightarrow> bool" where
  "allowed_obj denylist obj =
     (case Accessor obj of None \<Rightarrow> False | Some a \<Rightarrow> getNamespace obj a \<notin> set denylist)"

lemma denylist_items_filter:
  "list_all has_meta items \<Longrightarrow> denylist_items ds items = Inr (filter (allowed_obj ds) items)"
  by (induction items) (auto simp: has_meta_def allowed_obj_def split: option.splits)

lemma newDenylistWatch_filter: "newDenylistWatch ds evs = filter (\<lambda>e. allowed_obj ds (ev_Object e)) evs"
  by (induction evs) (auto simp: allowed_obj_def split: option.splits)

lemma allowed_obj_Nil: "has_meta obj \<Longrightarrow> allowed_obj [] obj"
  by (auto simp: has_meta_def allowed_obj_def)

interpretation denylist: filtering_lister_watcher "newDenylistListerWatcher ds" "allowed_obj ds"
proof
  fix lw :: "'w ListerWatcher" and opts w w'
  show "lw_List (newDenylistListerWatcher ds lw) opts w = (Inl e, w')" if "lw_List lw opts w = (Inl e, w')" for e
    using that by (simp add: newDenylistListerWatcher_def denylist_List_def)
  show "lw_Watch (newDenylistListerWatcher ds lw) opts w = (Inl e, w')" if "lw_Watch lw opts w = (Inl e, w')" for e
    using that by (simp add: newDenylistListerWatcher_def denylist_Watch_def)
  show "\<exists>l'. lw_List (newDenylistListerWatcher ds lw) opts w = (Inr l', w') \<and> Items l' = filter (allowed_obj ds) (Items l)"
    if "lw_List lw opts w = (Inr l, w')" "list_all has_meta (Items l)" for l
    using that by (auto simp: newDenylistListerWatcher_def denylist_List_def denylist_items_filter list_all_iff
        allowed_obj_Nil intro!: filter_True[symmetric])
  show "lw_Watch (newDenylistListerWatcher ds lw) opts w = (Inr (filter (\<lambda>e. allowed_obj ds (ev_Object e)) evs), w')"
    if "lw_Watch lw opts w = (Inr evs, w')" "events_meta evs" for evs
    using that by (auto simp: newDenylistListerWatcher_def denylist_Watch_def newDenylistWatch_filter events_meta_def
        list_all_iff allowed_obj_Nil intro!: filter_True[symmetric])
qed

subsection \<open>Lists and watches over several namespaces\<close>

text \<open>The lists that the underlying lister watchers return when they are asked in turn.\<close>

fun lists_in_turn :: "'w ListerWatcher list \<Rightarrow> ListOptions \<Rightarrow> 'w \<Rightarrow> (err + ObjectList list) \<times> 'w" where
  "lists_in_turn [] opts w = (Inr [], w)"
| "lists_in_turn (lw # lws) opts w =
     (case lw_List lw opts w of
        (Inl e, w') \<Rightarrow> (Inl e, w')
      | (Inr l, w') \<Rightarrow>
          (case lists_in_turn lws opts w' of
             (Inl e, w'') \<Rightarrow> (Inl e, w'')
           | (Inr ls, w'') \<Rightarrow> (Inr (l # ls), w'')))"

lemma multi_list_loop_eq:
  "multi_list_loop lws opts items rvs w =
     (case lists_in_turn lws opts w of
        (Inl e, w') \<Rightarrow> (Inl e, w')
      | (Inr ls, w') \<Rightarrow>
          (Inr \<lparr>list_ResourceVersion = Join (rvs @ map list_ResourceVersion ls) ''/'',
                Items = items @ concat (map Items ls)\<rparr>, w'))"
  by (induction lws opts items rvs w rule: multi_list_loop.induct) (auto split: prod.splits sum.splits)

lemma multi_List_eq:
  "multi_List lws opts w =
     (case lists_in_turn lws opts w of
        (Inl e, w') \<Rightarrow> (Inl e, w')
      | (Inr ls, w') \<Rightarrow>
          (Inr \<lparr>list_ResourceVersion = Join (map list_ResourceVersion ls) ''/'',
                Items = concat (map Items ls)\<rparr>, w'))"
  by (simp add: multi_List_def multi_list_loop_eq split: prod.split sum.split)

lemma lists_in_turn_length: "lists_in_turn lws opts w = (Inr ls, w') \<Longrightarrow> length ls = length lws"
  by (induction lws opts w arbitrary: ls rule: lists_in_turn.induct) (auto split: prod.splits sum.splits)

text \<open>
  The composite resource version of a list, handed to \<open>Watch\<close>, starts every underlying watch at
  the resource version of its own list.
\<close>

lemma Join_not_Nil: "2 \<le> length xs \<Longrightarrow> Join xs [c] \<noteq> []"
  by (induction xs "[c]" rule: Join.induct) auto

lemma multi_Watch_versions:
  assumes "lists_in_turn lws opts0 w0 = (Inr ls, w1)" "2 \<le> length lws"
    "\<And>l. l \<in> set ls \<Longrightarrow> CHR ''/'' \<notin> set (list_ResourceVersion l)"
  shows "multi_Watch merge lws (opts\<lparr>opt_ResourceVersion := Join (map list_ResourceVersion ls) ''/''\<rparr>) w =
    newMultiWatch merge lws (map list_ResourceVersion ls)
      (opts\<lparr>opt_ResourceVersion := Join (map list_ResourceVersion ls) ''/''\<rparr>) w"
proof -
  have len: "length ls = length lws" using lists_in_turn_length[OF assms(1)] .
  then have "map list_ResourceVersion ls \<noteq> []" using assms(2) by auto
  then have split: "Split (CHR ''/'') (Join (map list_ResourceVersion ls) ''/'') = map list_ResourceVersion ls"
    using assms(3) by (intro Split_Join) auto
  have "Join (map list_ResourceVersion ls) ''/'' \<noteq> []"
    using Join_not_Nil[of "map list_ResourceVersion ls"] len assms(2) by simp
  then show ?thesis using split len by (simp add: multi_Watch_def Let_def)
qed

subsection \<open>The goroutines of a multi watch\<close>

text \<open>
  One sender per underlying watch. \<open>pending\<close> are the events its watch still has to deliver (the
  empty list: its channel is closed), \<open>exited\<close> says that its goroutine has returned. \<open>delivered\<close>
  is what has come out of the result channel, each event with the number of its sender.
  \<open>stop_calls\<close> counts the calls of each underlying \<open>Stop\<close>.
\<close>

record mw_state =
  pending :: "Event list list"
  exited :: "bool list"
  delivered :: "(nat \<times> Event) list"
  stopped :: bool
  stop_calls :: "nat list"
  closed :: bool

definition mw_init :: "Event list list \<Rightarrow> mw_state" where
  "mw_init ws = \<lparr>pending = ws, exited = replicate (length ws) False, delivered = [], stopped = False,
     stop_calls = replicate (length ws) 0, closed = False\<rparr>"

text \<open>\<open>multiWatch.Stop\<close>.\<close>

definition Stop :: "mw_state \<Rightarrow> mw_state" where
  "Stop s = (if stopped s then s else s\<lparr>stop_calls := map Suc (stop_calls s), stopped := True\<rparr>)"

text \<open>
  The steps: a sender forwards its next event, gives up because the watch is stopped, or returns
  because its channel is closed; the last goroutine closes the result channel once every sender
  has returned; \<open>Stop\<close> may be called at any time.
\<close>

inductive mw_step :: "mw_state \<Rightarrow> mw_state \<Rightarrow> bool" where
  mw_forward: "i < length (pending s) \<Longrightarrow> \<not> exited s ! i \<Longrightarrow> pending s ! i = e # es \<Longrightarrow>
    mw_step s (s\<lparr>pending := (pending s)[i := es], delivered := delivered s @ [(i, e)]\<rparr>)"
| mw_give_up: "i < length (pending s) \<Longrightarrow> \<not> exited s ! i \<Longrightarrow> stopped s \<Longrightarrow>
    mw_step s (s\<lparr>exited := (exited s)[i := True]\<rparr>)"
| mw_drained: "i < length (pending s) \<Longrightarrow> \<not> exited s ! i \<Longrightarrow> pending s ! i = [] \<Longrightarrow>
    mw_step s (s\<lparr>exited := (exited s)[i := True]\<rparr>)"
| mw_close: "list_all id (exited s) \<Longrightarrow> \<not> closed s \<Longrightarrow> mw_step s (s\<lparr>closed := True\<rparr>)"
| mw_stop: "mw_step s (Stop s)"

inductive mw_reachable :: "Event list list \<Rightarrow> mw_state \<Rightarrow> bool" for ws where
  mw_start: "mw_reachable ws (mw_init ws)"
| mw_next: "mw_reachable ws s \<Longrightarrow> mw_step s s' \<Longrightarrow> mw_reachable ws s'"

inductive_cases mw_stepE: "mw_step s s'"

text \<open>What sender \<open>i\<close> has delivered.\<close>

definition from_sender :: "nat \<Rightarrow> (nat \<times> Event) list \<Rightarrow> Event list" where
  "from_sender i ds = map snd (filter (\<lambda>d. fst d = i) ds)"

lemma from_sender_append [simp]: "from_sender i (ds @ ds') = from_sender i ds @ from_sender i ds'"
  by (simp add: from_sender_def)

lemma from_sender_simps [simp]:
  "from_sender i [] = []" "from_sender i ((k, e) # ds) = (if k = i then e # from_sender i ds else from_sender i ds)"
  by (simp_all add: from_sender_def)

definition mw_inv :: "Event list list \<Rightarrow> mw_state \<Rightarrow> bool" where
  "mw_inv ws s \<longleftrightarrow>
     length (pending s) = length ws \<and> length (exited s) = length ws \<and>
     (\<forall>i < length ws. from_sender i (delivered s) @ pending s ! i = ws ! i) \<and>
     (\<forall>d \<in> set (delivered s). fst d < length ws) \<and>
     stop_calls s = replicate (length ws) (if stopped s then 1 else 0) \<and>
     (\<forall>i < length ws. exited s ! i \<longrightarrow> stopped s \<or> pending s ! i = []) \<and>
     (closed s \<longrightarrow> list_all id (exited s))"

lemma mw_inv_init: "mw_inv ws (mw_init ws)"
  by (simp add: mw_inv_def mw_init_def)

lemma mw_inv_forward:
  assumes "mw_inv ws s" "i < length (pending s)" "\<not> exited s ! i" "pending s ! i = e # es"
  shows "mw_inv ws (s\<lparr>pending := (pending s)[i := es], delivered := delivered s @ [(i, e)]\<rparr>)"
proof -
  have "from_sender i (delivered s) @ e # es = ws ! i"
    using assms unfolding mw_inv_def by metis
  then show ?thesis
    using assms by (auto simp: mw_inv_def nth_list_update list_all_length)
qed

lemma mw_inv_exit:
  "mw_inv ws s \<Longrightarrow> i < length (pending s) \<Longrightarrow> stopped s \<or> pending s ! i = [] \<Longrightarrow>
   mw_inv ws (s\<lparr>exited := (exited s)[i := True]\<rparr>)"
  by (auto simp: mw_inv_def nth_list_update list_all_length)

lemma mw_inv_stop: "mw_inv ws s \<Longrightarrow> mw_inv ws (Stop s)"
  by (auto simp: mw_inv_def Stop_def)

lemma mw_inv_step: "mw_step s s' \<Longrightarrow> mw_inv ws s \<Longrightarrow> mw_inv ws s'"
proof (erule mw_stepE)
  show "mw_inv ws s'" if "mw_inv ws s" "s' = s\<lparr>closed := True\<rparr>" "list_all id (exited s)"
    using that by (auto simp: mw_inv_def)
qed (auto intro: mw_inv_forward mw_inv_exit mw_inv_stop)

lemma mw_reachable_inv: "mw_reachable ws s \<Longrightarrow> mw_inv ws s"
  by (induction rule: mw_reachable.induct) (auto intro: mw_inv_init mw_inv_step)

text \<open>An interleaving of the given watches: every watch is delivered completely and in order.\<close>

definition interleaves :: "watch list \<Rightarrow> watch \<Rightarrow> bool" where
  "interleaves ws evs \<longleftrightarrow>
     (\<exists>ds. map snd ds = evs \<and> (\<forall>i < length ws. from_sender i ds = ws ! i) \<and> (\<forall>d \<in> set ds. fst d < length ws))"

lemma interleaves_concat: "interleaves ws (concat ws)"
proof -
  let ?ds = "concat (map (\<lambda>(i, w). map (Pair i) w) (enumerate 0 ws))"
  have snd: "map snd (concat (map (\<lambda>(i, w). map (Pair i) w) (enumerate n ws))) = concat ws" for n
    by (induction ws arbitrary: n) (auto simp: o_def)
  have other: "from_sender i (map (Pair k) w) = (if i = k then w else [])" for i k and w :: watch
    by (induction w) auto
  have sender: "from_sender i (concat (map (\<lambda>(i, w). map (Pair i) w) (enumerate n ws))) =
      (if n \<le> i \<and> i < n + length ws then ws ! (i - n) else [])" for i n
    by (induction ws arbitrary: n) (auto simp: other nth_Cons' not_less_eq_eq)
  have "\<forall>d \<in> set ?ds. fst d < length ws"
    by (auto simp: in_set_enumerate_eq)
  then show ?thesis
    unfolding interleaves_def using snd[of 0] sender[of _ 0] by (intro exI[of _ ?ds]) simp
qed

lemma interleaves_set: "interleaves ws evs \<Longrightarrow> e \<in> set evs \<longleftrightarrow> (\<exists>w \<in> set ws. e \<in> set w)"
proof -
  assume "interleaves ws evs"
  then obtain ds where ds: "map snd ds = evs" "\<forall>i < length ws. from_sender i ds = ws ! i"
    "\<forall>d \<in> set ds. fst d < length ws" by (auto simp: interleaves_def)
  have "e \<in> set evs \<longleftrightarrow> (\<exists>i < length ws. e \<in> set (from_sender i ds))"
    using ds(1,3) by (force simp: from_sender_def)
  also have "\<dots> \<longleftrightarrow> (\<exists>w \<in> set ws. e \<in> set w)"
    using ds(2) by (metis in_set_conv_nth)
  finally show ?thesis .
qed

lemma mw_inv_complete:
  assumes "mw_inv ws s" "closed s" "\<not> stopped s"
  shows "interleaves ws (map snd (delivered s))"
proof -
  have "from_sender i (delivered s) = ws ! i" if "i < length ws" for i
  proof -
    have "exited s ! i" using assms that by (auto simp: mw_inv_def list_all_length)
    then have "pending s ! i = []" using assms that by (auto simp: mw_inv_def)
    then show ?thesis using assms(1) that by (auto simp: mw_inv_def)
  qed
  then show ?thesis using assms(1) unfolding interleaves_def mw_inv_def by blast
qed

text \<open>The work left: events to deliver and goroutines to end.\<close>

definition mw_work :: "mw_state \<Rightarrow> nat" where
  "mw_work s = sum_list (map length (pending s)) + length (filter Not (exited s))"

lemma filter_Not_update:
  "i < length bs \<Longrightarrow> \<not> bs ! i \<Longrightarrow> length (filter Not (bs[i := True])) < length (filter Not bs)"
  by (induction bs arbitrary: i) (auto simp: nth_Cons split: nat.splits)

lemma sum_list_update_tl:
  "i < length xss \<Longrightarrow> xss ! i = x # xs \<Longrightarrow>
   sum_list (map length (xss[i := xs])) < (sum_list (map length xss) :: nat)"
  by (induction xss arbitrary: i) (auto simp: nth_Cons split: nat.splits)

lemma mw_can_close:
  "mw_inv ws s \<Longrightarrow> \<exists>s'. mw_step\<^sup>*\<^sup>* s s' \<and> closed s' \<and> stopped s' = stopped s"
proof (induction "mw_work s" arbitrary: s rule: less_induct)
  case less
  show ?case
  proof (cases "list_all id (exited s)")
    case True
    show ?thesis
    proof (cases "closed s")
      case False
      then have "mw_step s (s\<lparr>closed := True\<rparr>)" using True by (intro mw_step.mw_close)
      then show ?thesis by (intro exI[of _ "s\<lparr>closed := True\<rparr>"]) auto
    qed auto
  next
    case False
    then obtain i where i: "i < length (exited s)" "\<not> exited s ! i" by (auto simp: list_all_length)
    then have ip: "i < length (pending s)" using less.prems by (simp add: mw_inv_def)
    obtain s1 where s1: "mw_step s s1" "mw_work s1 < mw_work s" "stopped s1 = stopped s"
    proof (cases "pending s ! i")
      case Nil
      let ?s = "s\<lparr>exited := (exited s)[i := True]\<rparr>"
      have "length (filter Not ((exited s)[i := True])) < length (filter Not (exited s))"
        using i by (rule filter_Not_update)
      then show ?thesis using that[of ?s] mw_step.mw_drained[OF ip i(2) Nil] by (simp add: mw_work_def)
    next
      case (Cons e es)
      have "sum_list (map length ((pending s)[i := es])) < sum_list (map length (pending s))"
        using ip Cons by (rule sum_list_update_tl)
      then show ?thesis
        using that[of "s\<lparr>pending := (pending s)[i := es], delivered := delivered s @ [(i, e)]\<rparr>"]
          mw_step.mw_forward[OF ip i(2) Cons] by (simp add: mw_work_def)
    qed
    then show ?thesis
      using less.hyps[OF s1(2) mw_inv_step[OF s1(1) less.prems]] converse_rtranclp_into_rtranclp by metis
  qed
qed

subsection \<open>Properties\<close>


definition in_namespace :: "string \<Rightarrow> string \<Rightarrow> kobject" where
  "in_namespace n uid = Other_obj (Ptr_to [] ''T'') (empty_meta\<lparr>Namespace := n, UID := uid\<rparr>)"

definition two_namespaces :: "unit ListerWatcher" where
  "two_namespaces =
     \<lparr>lw_List = (\<lambda>opts w. (Inr \<lparr>list_ResourceVersion = ''5'', Items = [in_namespace ''a'' ''1'', in_namespace ''b'' ''2'']\<rparr>, w)),
      lw_Watch = (\<lambda>opts w. (Inr [\<lparr>ev_Type = Added, ev_Object = in_namespace ''b'' ''3''\<rparr>], w))\<rparr>"




text \<open>
  After the first event of a watch over several namespaces the reflector holds the resource version
  of a single object; the next watch from that version is refused without asking the API, so that the
  reflector has to list again.
\<close>

lemma multi_watch_refuses_single_version:
  assumes "2 \<le> length lws" "rv \<noteq> []" "CHR ''/'' \<notin> set rv"
  shows "\<exists>e. multi_Watch merge lws (opts\<lparr>opt_ResourceVersion := rv\<rparr>) w = (Inl e, w)"
  using assms Split_no_occurrence[of "CHR ''/''" rv] by (simp add: multi_Watch_def)


definition demo_event :: "string \<Rightarrow> Event" where
  "demo_event u = \<lparr>ev_Type = Added, ev_Object = in_namespace ''a'' u\<rparr>"




end
