(* ===== verification/Watch_Metrics.thy ===== *)
theory Watch_Metrics
  imports Lister_Watcher
begin

text \<open>
  \<open>pkg/watch\<close>: the lister watcher that counts its calls in the counters
  \<open>kube_state_metrics_list_total\<close> and \<open>kube_state_metrics_watch_total\<close>, by result and resource.
  The counters are part of the world. A counter vector of the Prometheus client is the map from
  label values to counts; a counter that has not been used is not in the map.
\<close>

type_synonym counter_vec = "(string \<times> string, int) gomap"

record ListWatchMetrics =
  WatchTotal :: counter_vec
  ListTotal :: counter_vec

text \<open>\<open>vec.WithLabelValues(result, resource).Inc()\<close>\<close>

definition Inc :: "string \<Rightarrow> string \<Rightarrow> counter_vec \<Rightarrow> counter_vec" where
  "Inc result resource vec =
     AList.update (result, resource) (case map_of vec (result, resource) of Some n \<Rightarrow> n + 1 | None \<Rightarrow> 1) vec"

definition counter :: "string \<Rightarrow> string \<Rightarrow> counter_vec \<Rightarrow> int" where
  "counter result resource vec = (case map_of vec (result, resource) of Some n \<Rightarrow> n | None \<Rightarrow> 0)"

text \<open>The registry is the list of the names registered with it; a nil registry is \<open>None\<close>.\<close>

definition NewListWatchMetrics :: "string list option \<Rightarrow> ListWatchMetrics \<times> string list option" where
  "NewListWatchMetrics r =
     (\<lparr>WatchTotal = [], ListTotal = []\<rparr>,
      case r of None \<Rightarrow> None
      | Some names \<Rightarrow> Some (names @ [''kube_state_metrics_list_total'', ''kube_state_metrics_watch_total'']))"

definition instrumented_List ::
  "('w \<times> ListWatchMetrics) ListerWatcher \<Rightarrow> string \<Rightarrow> ListOptions \<Rightarrow> 'w \<times> ListWatchMetrics \<Rightarrow>
   (err + ObjectList) \<times> 'w \<times> ListWatchMetrics" where
  "instrumented_List lw resource opts w =
     (case lw_List lw opts w of
        (Inl e, (w', m)) \<Rightarrow> (Inl e, (w', m\<lparr>ListTotal := Inc ''error'' resource (ListTotal m)\<rparr>))
      | (Inr l, (w', m)) \<Rightarrow> (Inr l, (w', m\<lparr>ListTotal := Inc ''success'' resource (ListTotal m)\<rparr>)))"

definition instrumented_Watch ::
  "('w \<times> ListWatchMetrics) ListerWatcher \<Rightarrow> string \<Rightarrow> ListOptions \<Rightarrow> 'w \<times> ListWatchMetrics \<Rightarrow>
   (err + watch) \<times> 'w \<times> ListWatchMetrics" where
  "instrumented_Watch lw resource opts w =
     (case lw_Watch lw opts w of
        (Inl e, (w', m)) \<Rightarrow> (Inl e, (w', m\<lparr>WatchTotal := Inc ''error'' resource (WatchTotal m)\<rparr>))
      | (Inr evs, (w', m)) \<Rightarrow> (Inr evs, (w', m\<lparr>WatchTotal := Inc ''success'' resource (WatchTotal m)\<rparr>)))"

definition NewInstrumentedListerWatcher ::
  "('w \<times> ListWatchMetrics) ListerWatcher \<Rightarrow> string \<Rightarrow> ('w \<times> ListWatchMetrics) ListerWatcher" where
  "NewInstrumentedListerWatcher lw resource =
     \<lparr>lw_List = instrumented_List lw resource, lw_Watch = instrumented_Watch lw resource\<rparr>"

subsection \<open>Lemmas\<close>

lemma counter_Inc:
  "counter r s (Inc r' s' vec) = (if r = r' \<and> s = s' then counter r s vec + 1 else counter r s vec)"
  by (auto simp: counter_def Inc_def split: option.splits)

text \<open>A sequence of list calls.\<close>

fun list_calls :: "'w ListerWatcher \<Rightarrow> ListOptions list \<Rightarrow> 'w \<Rightarrow> (err + ObjectList) list \<times> 'w" where
  "list_calls lw [] w = ([], w)"
| "list_calls lw (opts # os) w =
     (case lw_List lw opts w of (r, w') \<Rightarrow> case list_calls lw os w' of (rs, w'') \<Rightarrow> (r # rs, w''))"

text \<open>The lister watcher underneath does not touch the program's own counters.\<close>

definition metrics_untouched :: "('w \<times> ListWatchMetrics) ListerWatcher \<Rightarrow> bool" where
  "metrics_untouched lw \<longleftrightarrow>
     (\<forall>opts w m. snd (snd (lw_List lw opts (w, m))) = m \<and> snd (snd (lw_Watch lw opts (w, m))) = m)"

lemma instrumented_List_counts:
  assumes "metrics_untouched lw" "instrumented_List lw resource opts (w, m) = (r, (w', m'))"
  shows "WatchTotal m' = WatchTotal m \<and>
    counter ''success'' resource (ListTotal m') = counter ''success'' resource (ListTotal m) + (if isl r then 0 else 1) \<and>
    counter ''error'' resource (ListTotal m') = counter ''error'' resource (ListTotal m) + (if isl r then 1 else 0)"
proof -
  obtain r0 w0 m0 where c: "lw_List lw opts (w, m) = (r0, (w0, m0))" by (metis prod.exhaust)
  then have "m0 = m" using assms(1) by (metis metrics_untouched_def snd_conv)
  then show ?thesis
    using assms(2) c by (cases r0) (auto simp: instrumented_List_def counter_Inc)
qed

lemma list_calls_count:
  assumes "metrics_untouched lw"
  shows "list_calls (NewInstrumentedListerWatcher lw resource) os (w, m) = (rs, (w', m')) \<Longrightarrow>
    counter ''success'' resource (ListTotal m') =
      counter ''success'' resource (ListTotal m) + int (length (filter (\<lambda>r. \<not> isl r) rs)) \<and>
    counter ''error'' resource (ListTotal m') =
      counter ''error'' resource (ListTotal m) + int (length (filter isl rs)) \<and>
    length rs = length os"
proof (induction os arbitrary: w m rs)
  case (Cons opts os)
  obtain r w1 m1 where c1: "instrumented_List lw resource opts (w, m) = (r, (w1, m1))" by (metis prod.exhaust)
  obtain rs' where c2: "list_calls (NewInstrumentedListerWatcher lw resource) os (w1, m1) = (rs', (w', m'))"
    and rs: "rs = r # rs'"
    using Cons.prems c1 by (auto simp: NewInstrumentedListerWatcher_def split: prod.splits)
  show ?case
    using instrumented_List_counts[OF assms c1] Cons.IH[OF c2] by (auto simp: rs)
qed simp

subsection \<open>Properties\<close>

text \<open>
  The program's own counters are exact: after any sequence of list calls the success and error
  counters of the resource have grown by the number of calls that returned a list and an error, and
  the results are those of the wrapped lister watcher.
\<close>

lemma list_counters_exact:
  assumes "metrics_untouched lw" "list_calls (NewInstrumentedListerWatcher lw resource) os (w, m) = (rs, (w', m'))"
  shows "counter ''success'' resource (ListTotal m') =
      counter ''success'' resource (ListTotal m) + int (length (filter (\<lambda>r. \<not> isl r) rs)) \<and>
    counter ''error'' resource (ListTotal m') =
      counter ''error'' resource (ListTotal m) + int (length (filter isl rs)) \<and>
    length rs = length os"
  using list_calls_count[OF assms] .

definition failing_lw :: "(unit \<times> ListWatchMetrics) ListerWatcher" where
  "failing_lw = \<lparr>lw_List = (\<lambda>opts w. (Inl (Err ''no''), w)), lw_Watch = (\<lambda>opts w. (Inl (Err ''no''), w))\<rparr>"

lemma list_counters_exact_witness:
  "counter ''error'' ''*v1.Pod'' (ListTotal (snd (snd (list_calls (NewInstrumentedListerWatcher failing_lw ''*v1.Pod'')
     [\<lparr>opt_ResourceVersion = [], FieldSelector = []\<rparr>, \<lparr>opt_ResourceVersion = [], FieldSelector = []\<rparr>]
     ((), \<lparr>WatchTotal = [], ListTotal = []\<rparr>))))) = 2"
proof -
  let ?o = "\<lparr>opt_ResourceVersion = [], FieldSelector = []\<rparr>" and ?m = "\<lparr>WatchTotal = [], ListTotal = []\<rparr>"
  have r: "list_calls (NewInstrumentedListerWatcher failing_lw ''*v1.Pod'') [?o, ?o] ((), ?m) =
     ([Inl (Err ''no''), Inl (Err ''no'')], ((), \<lparr>WatchTotal = [], ListTotal = [((''error'', ''*v1.Pod''), 2)]\<rparr>))"
    by (simp add: failing_lw_def NewInstrumentedListerWatcher_def instrumented_List_def Inc_def)
  have "metrics_untouched failing_lw" by (simp add: metrics_untouched_def failing_lw_def)
  from list_counters_exact[OF this r] show ?thesis unfolding r by (simp add: counter_def)
qed

end
