(* ===== verification/Sharding.thy ===== *)
theory Sharding
  imports Lister_Watcher "HOL-Library.Word"
begin

unbundle bit_operations_syntax

text \<open>
  \<open>pkg/sharding\<close>: an object belongs to the shard that the jump consistent hash of its UID names.
  The hash functions are \<open>hash/fnv\<close> (FNV-1a, 64 bits) and the vendored \<open>dgryski/go-jump\<close>,
  which computes with float64.
\<close>

subsection \<open>Hash functions\<close>

definition fnv64a :: "string \<Rightarrow> 64 word" where
  "fnv64a s = foldl (\<lambda>h c. (h XOR word_of_int (of_char c)) * 1099511628211) 14695981039346656037 s"

text \<open>
  One round of jump hash: the next key, and the next bucket to jump to after \<open>b\<close>.
\<close>

definition jump_key :: "64 word \<Rightarrow> 64 word" where
  "jump_key key = key * 2862933555777941757 + 1"

definition jump_to :: "64 word \<Rightarrow> int \<Rightarrow> int" where
  "jump_to key b =
     int64_of_f64 (f64_mult (float64_of_int (b + 1))
       (f64_div_fin (float64_of_int (2 ^ 31)) (of_int (uint (drop_bit 33 key) + 1))))"

text \<open>
  The loop \<open>for j < numBuckets\<close> with the variables \<open>key, b, j\<close>; that it ends is a theorem, not
  part of the definition.
\<close>

partial_function (option) jump_loop :: "64 word \<Rightarrow> int \<Rightarrow> int \<Rightarrow> int \<Rightarrow> int option" where
  "jump_loop key b j numBuckets =
     (if j < numBuckets
      then (let key' = jump_key key in jump_loop key' j (jump_to key' j) numBuckets)
      else Some b)"

declare jump_loop.simps [code]

definition Hash :: "64 word \<Rightarrow> int \<Rightarrow> int option" where
  "Hash key numBuckets = map_option wrap32 (jump_loop key (- 1) 0 numBuckets)"

subsection \<open>Sharded lister watcher\<close>

definition keep :: "int \<Rightarrow> int \<Rightarrow> ObjectMeta \<Rightarrow> bool" where
  "keep shard totalShards ob \<longleftrightarrow> Hash (fnv64a (UID ob)) totalShards = Some shard"

text \<open>The loop over the items, which stops at an item without metadata.\<close>

fun shard_items :: "int \<Rightarrow> int \<Rightarrow> kobject list \<Rightarrow> err + kobject list" where
  "shard_items shard totalShards [] = Inr []"
| "shard_items shard totalShards (item # items) =
     (case Accessor item of
        None \<Rightarrow> Inl no_meta_err
      | Some a \<Rightarrow>
          (case shard_items shard totalShards items of
             Inl e \<Rightarrow> Inl e
           | Inr rest \<Rightarrow> Inr (if keep shard totalShards a then item # rest else rest)))"

text \<open>The result is a fresh \<open>metav1.List\<close>: its resource version is empty.\<close>

definition sharded_List :: "int \<Rightarrow> int \<Rightarrow> 'w ListerWatcher \<Rightarrow> ListOptions \<Rightarrow> 'w \<Rightarrow> (err + ObjectList) \<times> 'w" where
  "sharded_List shard totalShards lw opts w =
     (case lw_List lw opts w of
        (Inl e, w') \<Rightarrow> (Inl e, w')
      | (Inr l, w') \<Rightarrow>
          (case shard_items shard totalShards (Items l) of
             Inl e \<Rightarrow> (Inl e, w')
           | Inr items \<Rightarrow> (Inr \<lparr>list_ResourceVersion = [], Items = items\<rparr>, w')))"

definition keep_event :: "int \<Rightarrow> int \<Rightarrow> Event \<Rightarrow> bool" where
  "keep_event shard totalShards ev =
     (case Accessor (ev_Object ev) of None \<Rightarrow> True | Some a \<Rightarrow> keep shard totalShards a)"

definition sharded_Watch :: "int \<Rightarrow> int \<Rightarrow> 'w ListerWatcher \<Rightarrow> ListOptions \<Rightarrow> 'w \<Rightarrow> (err + watch) \<times> 'w" where
  "sharded_Watch shard totalShards lw opts w =
     (case lw_Watch lw opts w of
        (Inl e, w') \<Rightarrow> (Inl e, w')
      | (Inr evs, w') \<Rightarrow> (Inr (filter (keep_event shard totalShards) evs), w'))"

definition NewShardedListWatch :: "int \<Rightarrow> int \<Rightarrow> 'w ListerWatcher \<Rightarrow> 'w ListerWatcher" where
  "NewShardedListWatch shard totalShards lw =
     (if shard = 0 \<and> totalShards = 1 then lw
      else \<lparr>lw_List = sharded_List shard totalShards lw, lw_Watch = sharded_Watch shard totalShards lw\<rparr>)"

subsection \<open>The jump loop makes progress\<close>

lemma jump_divisor: "1 \<le> uint (drop_bit 33 (key :: 64 word)) + 1" "uint (drop_bit 33 (key :: 64 word)) + 1 \<le> 2 ^ 31"
proof -
  have lt: "uint key < 2 ^ 64" using uint_lt2p[of key] by simp
  then have "uint key div 2 ^ 33 < 2 ^ 31" by (simp add: div_less_iff_less_mult flip: power_add)
  moreover have "uint (drop_bit 33 key) = uint key div 2 ^ 33"
    unfolding unsigned_drop_bit_eq using lt by (simp add: drop_bit_eq_div take_bit_int_eq_self)
  ultimately show "uint (drop_bit 33 key) + 1 \<le> 2 ^ 31" by linarith
  show "1 \<le> uint (drop_bit 33 key) + 1" by simp
qed

lemma jump_to_bounds:
  assumes "0 \<le> b" "b < 2 ^ 31"
  shows "b < jump_to key b" "jump_to key b \<le> 2 ^ 62"
proof -
  define d :: rat where "d = of_int (uint (drop_bit 33 key) + 1)"
  have d: "1 \<le> d" "d \<le> 2 ^ 31"
    using jump_divisor[of key] unfolding d_def
    by (metis of_int_1_le_iff) (metis jump_divisor(2) of_int_le_iff of_int_numeral of_int_power)
  let ?N = "2 ^ 31 :: rat"
  have rep1: "rep_f64 1" using rep_f64_int[of 1] by simp
  have repN: "rep_f64 ?N" using rep_f64_int[of "2 ^ 31"] by simp
  have q: "1 \<le> ?N / d" "?N / d \<le> ?N" using d by (simp_all add: field_simps)
  obtain v where v: "round_f64 (?N / d) = Fin v" "1 \<le> v" "v \<le> ?N"
    using round_f64_between[OF rep1 repN _ q] by auto
  have repb: "rep_f64 (of_int (b + 1))" using assms by (intro rep_f64_int) simp
  have repM: "rep_f64 (2 ^ 62)" using rep_f64_pow2[of 62] by (simp add: pow2_def)
  have bN: "of_int (b + 1) \<le> ?N"
    using assms(2) by (metis add1_zle_eq of_int_le_iff of_int_numeral of_int_power)
  have p: "of_int (b + 1) \<le> of_int (b + 1) * v" "of_int (b + 1) * v \<le> ?N * ?N"
    using assms v(2) by (simp add: mult_le_cancel_left1) (use assms v bN in \<open>intro mult_mono; simp\<close>)
  have "of_int (b + 1) * v \<le> 2 ^ 62" using p(2) by simp
  then obtain u where u: "round_f64 (of_int (b + 1) * v) = Fin u" "of_int (b + 1) \<le> u" "u \<le> 2 ^ 62"
    using round_f64_between[OF repb repM _ p(1)] assms by auto
  have "jump_to key b = int64_of_f64 (Fin u)"
    using u(1) v(1) assms
    by (simp add: jump_to_def float64_of_int_exact d_def[symmetric] del: of_int_add)
  moreover have "b + 1 \<le> \<lfloor>u\<rfloor>" "\<lfloor>u\<rfloor> \<le> 2 ^ 62"
    using u(2,3) by (simp_all add: le_floor_iff floor_le_iff)
  moreover have "\<not> u < 0" using u(2) assms by simp
  ultimately show "b < jump_to key b" "jump_to key b \<le> 2 ^ 62"
    using assms by (simp_all add: Let_def)
qed

lemma jump_loop_exit: "numBuckets \<le> j \<Longrightarrow> jump_loop key b j numBuckets = Some b"
  by (subst jump_loop.simps) simp

lemma jump_loop_step:
  "j < numBuckets \<Longrightarrow>
   jump_loop key b j numBuckets = jump_loop (jump_key key) j (jump_to (jump_key key) j) numBuckets"
  by (subst jump_loop.simps) (simp add: Let_def)

text \<open>
  The loop returns a bucket in range, and a larger number of buckets moves a key only to the new
  bucket.
\<close>

lemma jump_loop_returns:
  assumes "b < n" "b < j" "0 \<le> j" "n \<le> 2 ^ 31" "0 \<le> b \<or> j < n"
  shows "\<exists>r. jump_loop key b j n = Some r \<and> 0 \<le> r \<and> r < n"
  using assms
proof (induction "nat (n - j)" arbitrary: key b j rule: less_induct)
  case less
  show ?case
  proof (cases "j < n")
    case True
    let ?k = "jump_key key"
    have "j < jump_to ?k j" using jump_to_bounds(1)[of j ?k] less.prems True by simp
    then show ?thesis
      using less.hyps[of "jump_to ?k j" j ?k] less.prems True by (simp add: jump_loop_step)
  next
    case False
    then show ?thesis using less.prems by (simp add: jump_loop_exit)
  qed
qed

lemma jump_loop_consistent:
  assumes "b < j" "0 \<le> j" "n < 2 ^ 31"
  shows "jump_loop key b j (n + 1) = jump_loop key b j n \<or> jump_loop key b j (n + 1) = Some n"
  using assms
proof (induction "nat (n - j)" arbitrary: key b j rule: less_induct)
  case less
  let ?k = "jump_key key"
  consider "n + 1 \<le> j" | "j = n" | "j < n" by linarith
  then show ?case
  proof cases
    case 1
    then show ?thesis by (simp add: jump_loop_exit)
  next
    case 2
    then have "n + 1 \<le> jump_to ?k n" using jump_to_bounds(1)[of n ?k] less.prems by simp
    then show ?thesis using 2 by (simp add: jump_loop_step jump_loop_exit)
  next
    case 3
    then have "j < jump_to ?k j" using jump_to_bounds(1)[of j ?k] less.prems by simp
    then show ?thesis
      using less.hyps[of "jump_to ?k j" j ?k] less.prems 3 by (simp add: jump_loop_step)
  qed
qed

lemma Hash_returns:
  assumes "1 \<le> n" "n < 2 ^ 31"
  shows "\<exists>r. Hash key n = Some r \<and> 0 \<le> r \<and> r < n"
proof -
  obtain r where r: "jump_loop key (- 1) 0 n = Some r" "0 \<le> r" "r < n"
    using jump_loop_returns[of "- 1" n 0 key] assms by auto
  then have "wrap32 r = r" using assms by (intro wrap32_id) auto
  then show ?thesis using r by (simp add: Hash_def)
qed

lemma Hash_consistent:
  assumes "1 \<le> n" "n + 1 < 2 ^ 31"
  shows "Hash key (n + 1) = Hash key n \<or> Hash key (n + 1) = Some n"
proof -
  have "wrap32 n = n" using assms by (intro wrap32_id) auto
  then show ?thesis
    using jump_loop_consistent[of "- 1" 0 n key] assms by (auto simp: Hash_def)
qed

subsection \<open>Shards partition the objects\<close>

text \<open>The shard of an object under a number of shards.\<close>

definition keep_obj :: "int \<Rightarrow> int \<Rightarrow> kobject \<Rightarrow> bool" where
  "keep_obj shard totalShards obj = (case Accessor obj of None \<Rightarrow> False | Some a \<Rightarrow> keep shard totalShards a)"

lemma shard_items_filter:
  "list_all has_meta items \<Longrightarrow> shard_items s n items = Inr (filter (keep_obj s n) items)"
  by (induction items) (auto simp: has_meta_def keep_obj_def split: option.splits)

lemma shard_items_error:
  "\<not> list_all has_meta items \<Longrightarrow> shard_items s n items = Inl no_meta_err"
  by (induction items) (auto simp: has_meta_def split: option.splits sum.splits)

lemma keep_event_obj: "has_meta (ev_Object e) \<Longrightarrow> keep_event s n e = keep_obj s n (ev_Object e)"
  by (auto simp: keep_event_def keep_obj_def has_meta_def)

lemma filter_cong_meta:
  "events_meta evs \<Longrightarrow> filter (keep_event s n) evs = filter (\<lambda>e. keep_obj s n (ev_Object e)) evs"
  by (intro filter_cong) (auto simp: events_meta_def list_all_iff keep_event_obj)

lemma exactly_one_keeps:
  assumes "1 \<le> n" "n < 2 ^ 31"
  shows "\<exists>!s. 0 \<le> s \<and> s < n \<and> keep s n ob"
proof -
  obtain r where r: "Hash (fnv64a (UID ob)) n = Some r" "0 \<le> r" "r < n"
    using Hash_returns[OF assms] by blast
  show ?thesis
  proof (rule ex1I[of _ r])
    show "0 \<le> r \<and> r < n \<and> keep r n ob" using r by (simp add: keep_def)
    show "s = r" if "0 \<le> s \<and> s < n \<and> keep s n ob" for s
      using that r by (simp add: keep_def)
  qed
qed

text \<open>
  With one shard every object stays, so the shortcut of \<open>NewShardedListWatch\<close> for shard 0 of 1
  is the same lister watcher up to the resource version of a list.
\<close>

lemma keep_single: "keep 0 1 ob"
proof -
  obtain s where s: "0 \<le> s" "s < 1" "keep s 1 ob" using exactly_one_keeps[of 1 ob] by auto
  then have "s = 0" by linarith
  with s show ?thesis by simp
qed

interpretation sharded: filtering_lister_watcher "NewShardedListWatch s n" "keep_obj s n"
proof
  fix lw :: "'w ListerWatcher" and opts w w'
  show "lw_List (NewShardedListWatch s n lw) opts w = (Inl e, w')" if "lw_List lw opts w = (Inl e, w')" for e
    using that by (simp add: NewShardedListWatch_def sharded_List_def)
  show "lw_Watch (NewShardedListWatch s n lw) opts w = (Inl e, w')" if "lw_Watch lw opts w = (Inl e, w')" for e
    using that by (simp add: NewShardedListWatch_def sharded_Watch_def)
  have all: "keep_obj 0 1 obj" if "has_meta obj" for obj
    using that keep_single by (auto simp: has_meta_def keep_obj_def)
  show "\<exists>l'. lw_List (NewShardedListWatch s n lw) opts w = (Inr l', w') \<and> Items l' = filter (keep_obj s n) (Items l)"
    if "lw_List lw opts w = (Inr l, w')" "list_all has_meta (Items l)" for l
    using that all by (auto simp: NewShardedListWatch_def sharded_List_def shard_items_filter list_all_iff
        intro!: filter_True[symmetric])
  show "lw_Watch (NewShardedListWatch s n lw) opts w = (Inr (filter (\<lambda>e. keep_obj s n (ev_Object e)) evs), w')"
    if "lw_Watch lw opts w = (Inr evs, w')" "events_meta evs" for evs
    using that all
    by (auto simp: NewShardedListWatch_def sharded_Watch_def filter_cong_meta events_meta_def list_all_iff
        intro!: filter_True[symmetric])
qed

lemma filter_partition_mset:
  assumes "\<And>x. x \<in> set xs \<Longrightarrow> \<exists>!i. i \<in> set is \<and> P i x" "distinct is"
  shows "mset (concat (map (\<lambda>i. filter (P i) xs) is)) = mset xs"
  using assms(1)
proof (induction xs)
  case Nil
  then show ?case by (simp add: concat_map_Nil)
next
  case (Cons x xs)
  obtain i where i: "i \<in> set is" "P i x" "\<And>k. k \<in> set is \<Longrightarrow> P k x \<Longrightarrow> k = i"
    using Cons.prems[of x] by auto
  have "mset (concat (map (\<lambda>i. filter (P i) (x # xs)) is)) =
    mset (concat (map (\<lambda>k. if P k x then [x] else []) is)) + mset (concat (map (\<lambda>i. filter (P i) xs) is))"
    by (induction "is") (simp_all add: ac_simps)
  moreover have "concat (map (\<lambda>k. if P k x then [x] else []) is) = map (\<lambda>_. x) (filter (\<lambda>k. P k x) is)"
    by (induction "is") auto
  moreover have "filter (\<lambda>k. P k x) is = filter (\<lambda>k. k = i) is"
    by (rule filter_cong[OF refl]) (use i in blast)
  ultimately show ?case
    using Cons i(1) assms(2) by (simp add: filter_eq_single)
qed

subsection \<open>Properties\<close>

text \<open>
  C11. The jump hash returns: for every key and every number of buckets that an int32 can hold, its loop
  of float64 computations ends, with a bucket in range.
\<close>

theorem Hash_terminates_in_range:
  assumes "1 \<le> n" "n < 2 ^ 31"
  shows "\<exists>r. Hash key n = Some r \<and> 0 \<le> r \<and> r < n"
  using Hash_returns[OF assms] .

theorem Hash_terminates_in_range_witness: "\<exists>r. Hash (fnv64a ''uid'') 5 = Some r \<and> 0 \<le> r \<and> r < 5"
  using Hash_terminates_in_range[of 5 "fnv64a ''uid''"] by simp

text \<open>
  C12. Consistency of the hash: with one more shard, an object stays on its shard or moves to the new
  one, never between old shards.
\<close>

theorem resharding_moves_to_new_shard:
  assumes "1 \<le> n" "n + 1 < 2 ^ 31" "0 \<le> s" "s < n" "keep s n ob"
  shows "\<exists>t. keep t (n + 1) ob \<and> (t = s \<or> t = n)"
  using Hash_consistent[OF assms(1,2), of "fnv64a (UID ob)"] assms(5) by (auto simp: keep_def)

theorem resharding_moves_to_new_shard_witness:
  "\<exists>t. keep t 3 (empty_meta\<lparr>UID := ''test_uid''\<rparr>) \<and> (t = 0 \<or> t = 2)"
proof -
  have "Hash (fnv64a ''test_uid'') 2 = Some 0" by code_simp
  then show ?thesis
    using resharding_moves_to_new_shard[of 2 0 "empty_meta\<lparr>UID := ''test_uid''\<rparr>"] by (simp add: keep_def)
qed

text \<open>
  Exactly one of the shards \<open>0 .. n - 1\<close> keeps an object, and a shard number outside this range
  keeps none; so neither does any shard of a deployment with no shards.
\<close>

lemma shard_of_object_unique:
  assumes "1 \<le> n" "n < 2 ^ 31"
  shows "(\<exists>!s. keep s n ob) \<and> (\<forall>s. keep s n ob \<longrightarrow> 0 \<le> s \<and> s < n)"
  using Hash_returns[OF assms, of "fnv64a (UID ob)"] by (auto simp: keep_def)

text \<open>
  C9. The shards partition a list: put together, the lists that the shards \<open>0 .. n - 1\<close> return are
  the objects of the API's list, each exactly as often as the API lists it.
\<close>

theorem shards_partition_list:
  assumes "1 \<le> n" "n < 2 ^ 31" "lw_List lw opts w = (Inr l, w')" "list_all has_meta (Items l)"
  shows "\<exists>ls. (\<forall>s. 0 \<le> s \<and> s < n \<longrightarrow> lw_List (NewShardedListWatch s n lw) opts w = (Inr (ls s), w')) \<and>
    mset (concat (map (\<lambda>s. Items (ls s)) [0..n - 1])) = mset (Items l)"
proof -
  have one: "\<exists>!s. s \<in> set [0..n - 1] \<and> keep_obj s n obj" if "obj \<in> set (Items l)" for obj
  proof -
    have "has_meta obj" using that assms(4) by (simp add: list_all_iff)
    then obtain a where "Accessor obj = Some a" by (auto simp: has_meta_def)
    then show ?thesis using exactly_one_keeps[OF assms(1,2), of a] by (auto simp: keep_obj_def)
  qed
  have "\<forall>s. \<exists>l'. lw_List (NewShardedListWatch s n lw) opts w = (Inr l', w') \<and> Items l' = filter (keep_obj s n) (Items l)"
    using sharded.list_items[OF assms(3,4)] by blast
  then obtain ls where ls: "\<And>s. lw_List (NewShardedListWatch s n lw) opts w = (Inr (ls s), w')"
    "\<And>s. Items (ls s) = filter (keep_obj s n) (Items l)" by metis
  have "mset (concat (map (\<lambda>s. filter (keep_obj s n) (Items l)) [0..n - 1])) = mset (Items l)"
    using one by (intro filter_partition_mset) auto
  then show ?thesis using ls by (intro exI[of _ ls]) simp
qed

theorem shards_partition_list_witness:
  "\<exists>ls. (\<forall>s. 0 \<le> s \<and> s < 3 \<longrightarrow>
       lw_List (NewShardedListWatch s 3 (fixed_list [demo_obj ''a'', demo_obj ''b''] ''7'' []))
         \<lparr>opt_ResourceVersion = ''0'', FieldSelector = []\<rparr> () = (Inr (ls s), ())) \<and>
     mset (concat (map (\<lambda>s. Items (ls s)) [0..2])) = {#demo_obj ''a'', demo_obj ''b''#}"
  using shards_partition_list[of 3 "fixed_list [demo_obj ''a'', demo_obj ''b''] ''7'' []"
      "\<lparr>opt_ResourceVersion = ''0'', FieldSelector = []\<rparr>" "()"
      "\<lparr>list_ResourceVersion = ''7'', Items = [demo_obj ''a'', demo_obj ''b'']\<rparr>" "()"]
  by (simp add: fixed_list_def has_meta_def demo_obj_def)

text \<open>
  C10. Watches are sharded the same way: for every UID there is one shard whose watch has all the events
  on objects with this UID, in the order of the API, and the watches of the other shards have none of
  them. No shard sees a creation without the deletion that follows it.
\<close>

theorem shards_partition_watch:
  assumes "1 \<le> n" "n < 2 ^ 31" "lw_Watch lw opts w = (Inr evs, w')" "events_meta evs"
  shows "\<exists>ws. (\<forall>s. lw_Watch (NewShardedListWatch s n lw) opts w = (Inr (ws s), w')) \<and>
    (\<forall>u. \<exists>s. 0 \<le> s \<and> s < n \<and> (\<forall>t.
       filter (\<lambda>e. obj_uid (ev_Object e) = u) (ws t) =
         (if t = s then filter (\<lambda>e. obj_uid (ev_Object e) = u) evs else [])))"
proof -
  let ?ws = "\<lambda>s. filter (\<lambda>e. keep_obj s n (ev_Object e)) evs"
  have keeps: "keep_obj t n (ev_Object e) \<longleftrightarrow> Hash (fnv64a u) n = Some t"
    if "e \<in> set evs" "obj_uid (ev_Object e) = u" for t e u
  proof -
    have "has_meta (ev_Object e)" using that(1) assms(4) by (simp add: events_meta_def list_all_iff)
    then obtain a where "Accessor (ev_Object e) = Some a" by (auto simp: has_meta_def)
    then show ?thesis using that(2) by (simp add: keep_obj_def keep_def obj_uid_def)
  qed
  have "\<exists>s. 0 \<le> s \<and> s < n \<and> (\<forall>t. filter (\<lambda>e. obj_uid (ev_Object e) = u) (?ws t) =
         (if t = s then filter (\<lambda>e. obj_uid (ev_Object e) = u) evs else []))" for u
  proof -
    obtain s where s: "Hash (fnv64a u) n = Some s" "0 \<le> s" "s < n" using Hash_returns[OF assms(1,2)] by blast
    have "filter (\<lambda>e. obj_uid (ev_Object e) = u) (?ws t) =
         (if t = s then filter (\<lambda>e. obj_uid (ev_Object e) = u) evs else [])" for t
      using s(1) keeps by (auto simp: filter_empty_conv intro!: filter_cong)
    then show ?thesis using s(2,3) by blast
  qed
  then show ?thesis using sharded.watch_events[OF assms(3,4)] by (intro exI[of _ ?ws]) simp
qed

theorem shards_partition_watch_witness:
  "\<exists>ws. (\<forall>s. lw_Watch (NewShardedListWatch s 4 (fixed_list [] ''7'' [\<lparr>ev_Type = Added, ev_Object = demo_obj ''a''\<rparr>]))
       \<lparr>opt_ResourceVersion = ''7'', FieldSelector = []\<rparr> () = (Inr (ws s), ())) \<and>
     (\<exists>s. 0 \<le> s \<and> s < 4 \<and> filter (\<lambda>e. obj_uid (ev_Object e) = ''a'') (ws s) = [\<lparr>ev_Type = Added, ev_Object = demo_obj ''a''\<rparr>])"
proof -
  let ?ev = "\<lparr>ev_Type = Added, ev_Object = demo_obj ''a''\<rparr>" and ?o = "\<lparr>opt_ResourceVersion = ''7'', FieldSelector = []\<rparr>"
  have uid: "obj_uid (demo_obj ''a'') = ''a''" by (simp add: obj_uid_def demo_obj_def)
  have pre: "lw_Watch (fixed_list [] ''7'' [?ev]) ?o () = (Inr [?ev], ())" "events_meta [?ev]"
    by (simp_all add: fixed_list_def events_meta_def has_meta_def demo_obj_def)
  obtain ws where ws: "\<forall>s. lw_Watch (NewShardedListWatch s 4 (fixed_list [] ''7'' [?ev])) ?o () = (Inr (ws s), ())"
    "\<forall>u. \<exists>s. 0 \<le> s \<and> s < 4 \<and> (\<forall>t. filter (\<lambda>e. obj_uid (ev_Object e) = u) (ws t) =
       (if t = s then filter (\<lambda>e. obj_uid (ev_Object e) = u) [?ev] else []))"
    using shards_partition_watch[OF _ _ pre, of 4] by auto
  obtain s where "0 \<le> s" "s < 4" "filter (\<lambda>e. obj_uid (ev_Object e) = ''a'') (ws s) = [?ev]"
    using spec[OF ws(2), of "''a''"] uid by auto
  then show ?thesis using ws(1) by blast
qed

text \<open>
  A sharded list loses the resource version of the API's list, so the watch that follows it starts
  at an unspecified version instead of at the list (except for the single shard 0 of 1, which does not
  filter).
\<close>

lemma sharded_List_drops_version:
  assumes "lw_List lw opts w = (Inr l, w')" "list_all has_meta (Items l)"
  shows "\<exists>l'. lw_List (NewShardedListWatch s n lw) opts w = (Inr l', w') \<and>
    list_ResourceVersion l' = (if s = 0 \<and> n = 1 then list_ResourceVersion l else [])"
  using assms by (auto simp: NewShardedListWatch_def sharded_List_def shard_items_filter)

end
