(* ===== verification/Reflector.thy ===== *)
theory Reflector
  imports Lister_Watcher
begin

text \<open>
  client-go's reflector (vendored), the loop that drives a store: it lists all objects into the
  store with \<open>Replace\<close> and then applies the events of a watch, skipping events whose object is not
  of the expected type. The store is a record of the operations of \<open>cache.Store\<close>. The functions
  are proved correct once, for every store that satisfies the contract \<open>cache_store\<close>.
\<close>

subsection \<open>Types of objects\<close>

abbreviation core_v1 :: string where
  "core_v1 \<equiv> ''k8s.io/api/core/v1''"

abbreviation apps_v1 :: string where
  "apps_v1 \<equiv> ''k8s.io/api/apps/v1''"

text \<open>\<open>reflect.TypeOf\<close>.\<close>

fun TypeOf :: "kobject \<Rightarrow> gotype" where
  "TypeOf (Pod_obj x) = Ptr_to core_v1 ''Pod''"
| "TypeOf (Node_obj x) = Ptr_to core_v1 ''Node''"
| "TypeOf (ConfigMap_obj x) = Ptr_to core_v1 ''ConfigMap''"
| "TypeOf (Secret_obj x) = Ptr_to core_v1 ''Secret''"
| "TypeOf (Service_obj x) = Ptr_to core_v1 ''Service''"
| "TypeOf (Endpoints_obj x) = Ptr_to core_v1 ''Endpoints''"
| "TypeOf (Namespace_obj x) = Ptr_to core_v1 ''Namespace''"
| "TypeOf (LimitRange_obj x) = Ptr_to core_v1 ''LimitRange''"
| "TypeOf (ResourceQuota_obj x) = Ptr_to core_v1 ''ResourceQuota''"
| "TypeOf (PersistentVolume_obj x) = Ptr_to core_v1 ''PersistentVolume''"
| "TypeOf (PersistentVolumeClaim_obj x) = Ptr_to core_v1 ''PersistentVolumeClaim''"
| "TypeOf (ReplicationController_obj x) = Ptr_to core_v1 ''ReplicationController''"
| "TypeOf (Deployment_obj x) = Ptr_to apps_v1 ''Deployment''"
| "TypeOf (DaemonSet_obj x) = Ptr_to apps_v1 ''DaemonSet''"
| "TypeOf (ReplicaSet_obj x) = Ptr_to apps_v1 ''ReplicaSet''"
| "TypeOf (StatefulSet_obj x) = Ptr_to apps_v1 ''StatefulSet''"
| "TypeOf (Job_obj x) = Ptr_to ''k8s.io/api/batch/v1'' ''Job''"
| "TypeOf (CronJob_obj x) = Ptr_to ''k8s.io/api/batch/v1beta1'' ''CronJob''"
| "TypeOf (HorizontalPodAutoscaler_obj x) = Ptr_to ''k8s.io/api/autoscaling/v2beta1'' ''HorizontalPodAutoscaler''"
| "TypeOf (VerticalPodAutoscaler_obj x) =
     Ptr_to ''k8s.io/autoscaler/vertical-pod-autoscaler/pkg/apis/autoscaling.k8s.io/v1beta2'' ''VerticalPodAutoscaler''"
| "TypeOf (CertificateSigningRequest_obj x) =
     Ptr_to ''k8s.io/api/certificates/v1beta1'' ''CertificateSigningRequest''"
| "TypeOf (Ingress_obj x) = Ptr_to ''k8s.io/api/extensions/v1beta1'' ''Ingress''"
| "TypeOf (Lease_obj x) = Ptr_to ''k8s.io/api/coordination/v1'' ''Lease''"
| "TypeOf (MutatingWebhookConfiguration_v1beta1_obj x) =
     Ptr_to ''k8s.io/api/admissionregistration/v1beta1'' ''MutatingWebhookConfiguration''"
| "TypeOf (ValidatingWebhookConfiguration_obj x) =
     Ptr_to ''k8s.io/api/admissionregistration/v1'' ''ValidatingWebhookConfiguration''"
| "TypeOf (NetworkPolicy_obj x) = Ptr_to ''k8s.io/api/networking/v1'' ''NetworkPolicy''"
| "TypeOf (PodDisruptionBudget_obj x) = Ptr_to ''k8s.io/api/policy/v1beta1'' ''PodDisruptionBudget''"
| "TypeOf (StorageClass_obj x) = Ptr_to ''k8s.io/api/storage/v1'' ''StorageClass''"
| "TypeOf (VolumeAttachment_v1beta1_obj x) = Ptr_to ''k8s.io/api/storage/v1beta1'' ''VolumeAttachment''"
| "TypeOf (Other_obj t m) = t"
| "TypeOf (Status_obj s) = Ptr_to ''k8s.io/apimachinery/pkg/apis/meta/v1'' ''Status''"

subsection \<open>The reflector\<close>

record 's Store =
  st_Add :: "'s \<Rightarrow> kobject \<Rightarrow> (err option \<times> 's) go"
  st_Update :: "'s \<Rightarrow> kobject \<Rightarrow> (err option \<times> 's) go"
  st_Delete :: "'s \<Rightarrow> kobject \<Rightarrow> (err option \<times> 's) go"
  st_Replace :: "'s \<Rightarrow> kobject list \<Rightarrow> string \<Rightarrow> (err option \<times> 's) go"

definition metrics_store_ops :: "MetricsStore Store" where
  "metrics_store_ops = \<lparr>st_Add = Add, st_Update = Update, st_Delete = Delete, st_Replace = Replace\<rparr>"

text \<open>The switch on the event's type. An error of the store is logged only.\<close>

definition store_event :: "'s Store \<Rightarrow> 's \<Rightarrow> Event \<Rightarrow> 's go" where
  "store_event st s ev =
     (case ev_Type ev of
        Added \<Rightarrow> go_bind (st_Add st s (ev_Object ev)) (\<lambda>(e, s'). Inr s')
      | Modified \<Rightarrow> go_bind (st_Update st s (ev_Object ev)) (\<lambda>(e, s'). Inr s')
      | Deleted \<Rightarrow> go_bind (st_Delete st s (ev_Object ev)) (\<lambda>(e, s'). Inr s')
      | _ \<Rightarrow> Inr s)"

text \<open>
  The loop of \<open>watchHandler\<close> up to the end of the events: the error that ends it, the store, the
  resource version and the number of events handled.
\<close>

fun watch_loop :: "'s Store \<Rightarrow> gotype \<Rightarrow> 's \<Rightarrow> string \<Rightarrow> nat \<Rightarrow> watch \<Rightarrow> (err option \<times> 's \<times> string \<times> nat) go" where
  "watch_loop st expectedType s rv n [] = Inr (None, s, rv, n)"
| "watch_loop st expectedType s rv n (event # events) =
     (if ev_Type event = Error then Inr (Some (Err ''watch error event''), s, rv, n)
      else if TypeOf (ev_Object event) \<noteq> expectedType then watch_loop st expectedType s rv n events
      else (case Accessor (ev_Object event) of
              None \<Rightarrow> watch_loop st expectedType s rv n events
            | Some m \<Rightarrow>
                go_bind (store_event st s event)
                  (\<lambda>s'. watch_loop st expectedType s' (ResourceVersion m) (n + 1) events)))"

text \<open>\<open>short\<close>: the watch lasted less than a second.\<close>

definition watchHandler ::
  "'s Store \<Rightarrow> gotype \<Rightarrow> bool \<Rightarrow> 's \<Rightarrow> string \<Rightarrow> watch \<Rightarrow> (err option \<times> 's \<times> string) go" where
  "watchHandler st expectedType short s rv events =
     go_bind (watch_loop st expectedType s rv 0 events) (\<lambda>(e, s', rv', n).
       case e of
         Some er \<Rightarrow> Inr (Some er, s', rv')
       | None \<Rightarrow> Inr (if short \<and> n = 0 then Some (Err ''very short watch'') else None, s', rv'))"

text \<open>
  The loop of \<open>ListAndWatch\<close>: it opens a watch at the current resource version, handles it, and
  goes on until a watch fails or ends with an error. \<open>refused\<close> recognises a refused connection,
  after which the watch is retried; \<open>rounds\<close> bounds the rounds until a stop is requested.
\<close>

fun watch_rounds ::
  "'s Store \<Rightarrow> gotype \<Rightarrow> 'w ListerWatcher \<Rightarrow> (err \<Rightarrow> bool) \<Rightarrow> (nat \<Rightarrow> bool) \<Rightarrow> nat \<Rightarrow> 's \<Rightarrow> string \<Rightarrow> 'w \<Rightarrow> ('s \<times> string \<times> 'w) go" where
  "watch_rounds st expectedType lw refused short 0 s rv w = Inr (s, rv, w)"
| "watch_rounds st expectedType lw refused short (Suc rounds) s rv w =
     (case lw_Watch lw \<lparr>opt_ResourceVersion = rv, FieldSelector = []\<rparr> w of
        (Inl e, w') \<Rightarrow>
          if refused e then watch_rounds st expectedType lw refused short rounds s rv w' else Inr (s, rv, w')
      | (Inr events, w') \<Rightarrow>
          go_bind (watchHandler st expectedType (short rounds) s rv events) (\<lambda>(e, s', rv').
            case e of
              Some er \<Rightarrow> Inr (s', rv', w')
            | None \<Rightarrow> watch_rounds st expectedType lw refused short rounds s' rv' w'))"

definition ListAndWatch ::
  "'s Store \<Rightarrow> gotype \<Rightarrow> 'w ListerWatcher \<Rightarrow> (err \<Rightarrow> bool) \<Rightarrow> (nat \<Rightarrow> bool) \<Rightarrow> nat \<Rightarrow> 's \<Rightarrow> 'w \<Rightarrow>
   (err option \<times> 's \<times> 'w) go" where
  "ListAndWatch st expectedType lw refused short rounds s w =
     (case lw_List lw \<lparr>opt_ResourceVersion = ''0'', FieldSelector = []\<rparr> w of
        (Inl e, w') \<Rightarrow> Inr (Some e, s, w')
      | (Inr l, w') \<Rightarrow>
          go_bind (st_Replace st s (Items l) (list_ResourceVersion l)) (\<lambda>(e, s').
            case e of
              Some er \<Rightarrow> Inr (Some er, s', w')
            | None \<Rightarrow>
                go_bind (watch_rounds st expectedType lw refused short rounds s' (list_ResourceVersion l) w')
                  (\<lambda>(s'', rv, w''). Inr (None, s'', w''))))"

subsection \<open>What the events mean\<close>

text \<open>The objects that exist after an event, and after a sequence of events.\<close>

fun event_effect :: "(string \<rightharpoonup> kobject) \<Rightarrow> Event \<Rightarrow> (string \<rightharpoonup> kobject)" where
  "event_effect objs ev =
     (case ev_Type ev of
        Added \<Rightarrow> put_obj (ev_Object ev) objs
      | Modified \<Rightarrow> put_obj (ev_Object ev) objs
      | Deleted \<Rightarrow> del_obj (ev_Object ev) objs
      | _ \<Rightarrow> objs)"

definition events_effect :: "watch \<Rightarrow> (string \<rightharpoonup> kobject) \<Rightarrow> (string \<rightharpoonup> kobject)" where
  "events_effect evs objs = foldl event_effect objs evs"

text \<open>
  An event the reflector handles: not an error, of the expected type, with metadata, and, unless it
  is a deletion or a bookmark, with an object that the store can take.
\<close>

definition event_ok :: "gotype \<Rightarrow> (kobject \<Rightarrow> bool) \<Rightarrow> Event \<Rightarrow> bool" where
  "event_ok expectedType takes ev \<longleftrightarrow>
     ev_Type ev \<noteq> Error \<and> TypeOf (ev_Object ev) = expectedType \<and> has_meta (ev_Object ev) \<and>
     (ev_Type ev \<in> {Added, Modified} \<longrightarrow> takes (ev_Object ev))"

lemma watch_loop_wrong_type:
  assumes "\<And>ev. ev \<in> set evs \<Longrightarrow> ev_Type ev \<noteq> Error \<and> TypeOf (ev_Object ev) \<noteq> expectedType"
  shows "watch_loop st expectedType s rv n evs = Inr (None, s, rv, n)"
  using assms by (induction evs) auto

context cache_store
begin

abbreviation store_ops :: "'s Store" where
  "store_ops \<equiv> \<lparr>st_Add = add, st_Update = upd, st_Delete = del, st_Replace = repl\<rparr>"

lemma store_event_holds:
  assumes "holds s objs" "event_ok t (takes s) ev"
  shows "\<exists>s'. store_event store_ops s ev = Inr s' \<and> holds s' (event_effect objs ev) \<and> takes s' = takes s"
proof (cases "ev_Type ev")
  case Added
  then have "takes s (ev_Object ev)" using assms(2) by (simp add: event_ok_def)
  from add_law[OF assms(1) this] show ?thesis using Added by (auto simp: store_event_def)
next
  case Modified
  then have "takes s (ev_Object ev)" using assms(2) by (simp add: event_ok_def)
  from upd_law[OF assms(1) this] show ?thesis using Modified by (auto simp: store_event_def)
next
  case Deleted
  then have "Accessor (ev_Object ev) \<noteq> None" using assms(2) by (simp add: event_ok_def has_meta_def)
  from del_law[OF assms(1) this] show ?thesis using Deleted by (auto simp: store_event_def)
qed (use assms in \<open>auto simp: store_event_def event_ok_def\<close>)

lemma watch_loop_holds:
  "holds s objs \<Longrightarrow> list_all (event_ok t (takes s)) evs \<Longrightarrow>
   \<exists>s' rv'. watch_loop store_ops t s rv n evs = Inr (None, s', rv', n + length evs) \<and>
     holds s' (events_effect evs objs) \<and> takes s' = takes s"
proof (induction evs arbitrary: s objs rv n)
  case (Cons ev evs)
  from Cons.prems have ok: "event_ok t (takes s) ev" "list_all (event_ok t (takes s)) evs" by auto
  obtain s1 where s1: "store_event store_ops s ev = Inr s1" "holds s1 (event_effect objs ev)" "takes s1 = takes s"
    using store_event_holds[OF Cons.prems(1) ok(1)] by blast
  obtain m where "Accessor (ev_Object ev) = Some m" "ev_Type ev \<noteq> Error" "TypeOf (ev_Object ev) = t"
    using ok(1) by (auto simp: event_ok_def has_meta_def)
  then show ?case
    using Cons.IH[of s1 "event_effect objs ev" "ResourceVersion m" "n + 1"] s1 ok(2)
    by (auto simp: events_effect_def simp del: event_effect.simps)
qed (simp add: events_effect_def)

text \<open>A list followed by one watch leaves the store at the listed objects changed by the events.\<close>

lemma list_and_watch_holds:
  assumes "lw_List lw \<lparr>opt_ResourceVersion = ''0'', FieldSelector = []\<rparr> w = (Inr l, w1)"
    and "lw_Watch lw \<lparr>opt_ResourceVersion = list_ResourceVersion l, FieldSelector = []\<rparr> w1 = (Inr evs, w2)"
    and "list_all (takes s) (Items l)" "list_all (event_ok t (takes s)) evs"
  shows "\<exists>s'. ListAndWatch store_ops t lw refused short 1 s w = Inr (None, s', w2) \<and>
    holds s' (events_effect evs (objects_of (Items l)))"
proof -
  obtain s1 where s1: "repl s (Items l) (list_ResourceVersion l) = Inr (None, s1)"
    "holds s1 (objects_of (Items l))" "takes s1 = takes s"
    using repl_law[OF assms(3)] by blast
  obtain s2 rv2 where "watch_loop store_ops t s1 (list_ResourceVersion l) 0 evs = Inr (None, s2, rv2, 0 + length evs)"
    "holds s2 (events_effect evs (objects_of (Items l)))"
    using watch_loop_holds[OF s1(2)] assms(4) s1(3) by metis
  then show ?thesis using assms(1,2) s1(1) by (auto simp: ListAndWatch_def watchHandler_def)
qed

end

subsection \<open>Simulation of a store of objects\<close>

text \<open>
  The specification of a store: it holds the objects themselves, by UID. A reflector that drives a
  store with the contract \<open>cache_store\<close> does, step by step and for any number of rounds, what it
  does on this one.
\<close>

definition object_store_ops :: "(string \<rightharpoonup> kobject) Store" where
  "object_store_ops =
     (let put = (\<lambda>objs obj. Inr (if has_meta obj then (None, put_obj obj objs) else (Some no_meta_err, objs))) in
      \<lparr>st_Add = put, st_Update = put,
       st_Delete = (\<lambda>objs obj. Inr (if has_meta obj then (None, del_obj obj objs) else (Some no_meta_err, objs))),
       st_Replace = (\<lambda>objs list rv. Inr (None, objects_of list))\<rparr>)"

lemma object_store_Replace: "st_Replace object_store_ops objs list rv = Inr (None, objects_of list)"
  by (simp add: object_store_ops_def Let_def)

text \<open>The store can take the object of every addition and change of the expected type.\<close>

definition event_fine :: "gotype \<Rightarrow> (kobject \<Rightarrow> bool) \<Rightarrow> Event \<Rightarrow> bool" where
  "event_fine expectedType takes ev \<longleftrightarrow>
     (TypeOf (ev_Object ev) = expectedType \<and> ev_Type ev \<in> {Added, Modified} \<longrightarrow> takes (ev_Object ev))"

context cache_store
begin

lemma store_event_sim:
  assumes "holds s objs" "event_fine t (takes s) ev" "TypeOf (ev_Object ev) = t" "has_meta (ev_Object ev)"
  shows "\<exists>s' objs'. store_event store_ops s ev = Inr s' \<and> store_event object_store_ops objs ev = Inr objs' \<and>
    holds s' objs' \<and> takes s' = takes s"
proof (cases "ev_Type ev = Error")
  case False
  then have "event_ok t (takes s) ev" using assms by (auto simp: event_ok_def event_fine_def)
  from store_event_holds[OF assms(1) this] show ?thesis
    using assms(4) by (cases "ev_Type ev") (auto simp: store_event_def object_store_ops_def Let_def)
qed (use assms in \<open>simp add: store_event_def\<close>)

lemma watch_loop_sim:
  "holds s objs \<Longrightarrow> list_all (event_fine t (takes s)) evs \<Longrightarrow>
   \<exists>e s' objs' rv' n'. watch_loop store_ops t s rv n evs = Inr (e, s', rv', n') \<and>
     watch_loop object_store_ops t objs rv n evs = Inr (e, objs', rv', n') \<and> holds s' objs' \<and> takes s' = takes s"
proof (induction evs arbitrary: s objs rv n)
  case (Cons ev evs)
  show ?case
  proof (cases "ev_Type ev = Error \<or> TypeOf (ev_Object ev) \<noteq> t \<or> Accessor (ev_Object ev) = None")
    case True
    then show ?thesis using Cons.IH[OF Cons.prems(1), of rv n] Cons.prems by auto
  next
    case False
    then obtain m where m: "Accessor (ev_Object ev) = Some m" "ev_Type ev \<noteq> Error" "TypeOf (ev_Object ev) = t" by auto
    then obtain s1 objs1 where s1: "store_event store_ops s ev = Inr s1" "store_event object_store_ops objs ev = Inr objs1"
      "holds s1 objs1" "takes s1 = takes s"
      using store_event_sim[OF Cons.prems(1)] Cons.prems(2) by (fastforce simp: has_meta_def)
    show ?thesis
      using Cons.IH[of s1 objs1 "ResourceVersion m" "n + 1"] s1 m Cons.prems(2) by simp
  qed
qed simp

lemma watchHandler_sim:
  assumes "holds s objs" "list_all (event_fine t (takes s)) evs"
  shows "\<exists>e s' objs' rv'. watchHandler store_ops t short s rv evs = Inr (e, s', rv') \<and>
     watchHandler object_store_ops t short objs rv evs = Inr (e, objs', rv') \<and> holds s' objs' \<and> takes s' = takes s"
proof -
  obtain e s' objs' rv' n where "watch_loop store_ops t s rv 0 evs = Inr (e, s', rv', n)"
    "watch_loop object_store_ops t objs rv 0 evs = Inr (e, objs', rv', n)" "holds s' objs'" "takes s' = takes s"
    using watch_loop_sim[OF assms] by blast
  then show ?thesis by (cases e) (auto simp: watchHandler_def)
qed

lemma watch_rounds_sim:
  assumes "\<forall>opts w evs w'. lw_Watch lw opts w = (Inr evs, w') \<longrightarrow> list_all (event_fine t T) evs"
  shows "holds s objs \<Longrightarrow> takes s = T \<Longrightarrow>
   \<exists>s' objs' rv' w'. watch_rounds store_ops t lw refused short rounds s rv w = Inr (s', rv', w') \<and>
     watch_rounds object_store_ops t lw refused short rounds objs rv w = Inr (objs', rv', w') \<and> holds s' objs'"
proof (induction rounds arbitrary: s objs rv w)
  case (Suc rounds)
  let ?o = "\<lparr>opt_ResourceVersion = rv, FieldSelector = []\<rparr>"
  obtain r w1 where r: "lw_Watch lw ?o w = (r, w1)" by (cases "lw_Watch lw ?o w")
  show ?case
  proof (cases r)
    case (Inl e)
    then show ?thesis using Suc.IH[OF Suc.prems, of rv w1] Suc.prems r by auto
  next
    case (Inr evs)
    then have "list_all (event_fine t (takes s)) evs" using assms r Suc.prems(2) by blast
    from watchHandler_sim[OF Suc.prems(1) this, of "short rounds" rv] obtain e s1 objs1 rv1 where
      h: "watchHandler store_ops t (short rounds) s rv evs = Inr (e, s1, rv1)"
        "watchHandler object_store_ops t (short rounds) objs rv evs = Inr (e, objs1, rv1)"
        "holds s1 objs1" "takes s1 = takes s" by blast
    show ?thesis
      using h r Inr Suc.IH[of s1 objs1 rv1 w1] Suc.prems(2) by (cases e) auto
  qed
qed simp

lemma ListAndWatch_sim:
  assumes "\<And>opts w l w'. lw_List lw opts w = (Inr l, w') \<Longrightarrow> list_all (takes s) (Items l)"
    and "\<And>opts w evs w'. lw_Watch lw opts w = (Inr evs, w') \<Longrightarrow> list_all (event_fine t (takes s)) evs"
    and "holds s objs"
  shows "\<exists>e s' objs' w'. ListAndWatch store_ops t lw refused short rounds s w = Inr (e, s', w') \<and>
    ListAndWatch object_store_ops t lw refused short rounds objs w = Inr (e, objs', w') \<and> holds s' objs'"
proof -
  let ?o = "\<lparr>opt_ResourceVersion = ''0'', FieldSelector = []\<rparr>"
  obtain r w1 where r: "lw_List lw ?o w = (r, w1)" by (cases "lw_List lw ?o w")
  show ?thesis
  proof (cases r)
    case (Inl e)
    then show ?thesis using r assms(3) by (simp add: ListAndWatch_def)
  next
    case (Inr l)
    then obtain s1 where s1: "repl s (Items l) (list_ResourceVersion l) = Inr (None, s1)"
      "holds s1 (objects_of (Items l))" "takes s1 = takes s"
      using repl_law[OF assms(1)] r by blast
    have "\<forall>opts w evs w'. lw_Watch lw opts w = (Inr evs, w') \<longrightarrow> list_all (event_fine t (takes s)) evs"
      using assms(2) by blast
    from watch_rounds_sim[OF this s1(2,3)] obtain s2 objs2 rv2 w2 where
      "watch_rounds store_ops t lw refused short rounds s1 (list_ResourceVersion l) w1 = Inr (s2, rv2, w2)"
      "watch_rounds object_store_ops t lw refused short rounds (objects_of (Items l)) (list_ResourceVersion l) w1 =
        Inr (objs2, rv2, w2)" "holds s2 objs2" by blast
    then show ?thesis using r Inr s1(1) by (simp add: ListAndWatch_def object_store_Replace)
  qed
qed

end

subsection \<open>Invariants of the store\<close>

text \<open>
  What every operation of a store keeps, the reflector keeps, whatever the API returns: restarts,
  failing calls and errors of the store included.
\<close>

locale store_invariant =
  fixes st :: "'s Store"
    and inv :: "'s \<Rightarrow> bool"
  assumes inv_Add: "inv s \<Longrightarrow> st_Add st s obj = Inr (e, s') \<Longrightarrow> inv s'"
    and inv_Update: "inv s \<Longrightarrow> st_Update st s obj = Inr (e, s') \<Longrightarrow> inv s'"
    and inv_Delete: "inv s \<Longrightarrow> st_Delete st s obj = Inr (e, s') \<Longrightarrow> inv s'"
    and inv_Replace: "inv s \<Longrightarrow> st_Replace st s list rv = Inr (e, s') \<Longrightarrow> inv s'"
begin

lemma store_event_inv: "inv s \<Longrightarrow> store_event st s ev = Inr s' \<Longrightarrow> inv s'"
  by (auto simp: store_event_def go_bind_Inr_iff split: event_type.splits intro: inv_Add inv_Update inv_Delete)

lemma watch_loop_inv: "inv s \<Longrightarrow> watch_loop st t s rv n evs = Inr (e, s', rv', n') \<Longrightarrow> inv s'"
proof (induction evs arbitrary: s rv n)
  case (Cons ev evs)
  then show ?case
    by (auto simp: go_bind_Inr_iff split: if_splits option.splits dest: store_event_inv)
qed simp

lemma watchHandler_inv: "inv s \<Longrightarrow> watchHandler st t b s rv evs = Inr (e, s', rv') \<Longrightarrow> inv s'"
  by (auto simp: watchHandler_def go_bind_Inr_iff split: option.splits dest: watch_loop_inv)

lemma watch_rounds_inv: "inv s \<Longrightarrow> watch_rounds st t lw refused short rounds s rv w = Inr (s', rv', w') \<Longrightarrow> inv s'"
proof (induction rounds arbitrary: s rv w)
  case (Suc rounds)
  then show ?case
    by (auto simp: go_bind_Inr_iff split: prod.splits sum.splits option.splits if_splits dest: watchHandler_inv)
qed simp

lemma ListAndWatch_inv:
  assumes "inv s" "ListAndWatch st t lw refused short rounds s w = Inr (e, s', w')"
  shows "inv s'"
  using assms
  by (auto simp: ListAndWatch_def go_bind_Inr_iff split: prod.splits sum.splits option.splits
      dest: inv_Replace watch_rounds_inv)

end

text \<open>A reflector can only bring the metrics store into states that its operations reach.\<close>

interpretation reached: store_invariant metrics_store_ops "store_reachable s0"
proof
  show "store_reachable s0 s'" if "store_reachable s0 s" "st_Add metrics_store_ops s obj = Inr (e, s')" for s obj e s'
    using that store_step.step_op[of s "Op_Add obj"] by (auto simp: metrics_store_ops_def intro: reach_step)
  show "store_reachable s0 s'" if "store_reachable s0 s" "st_Update metrics_store_ops s obj = Inr (e, s')" for s obj e s'
    using that store_step.step_op[of s "Op_Update obj"] by (auto simp: metrics_store_ops_def intro: reach_step)
  show "store_reachable s0 s'" if "store_reachable s0 s" "st_Delete metrics_store_ops s obj = Inr (e, s')" for s obj e s'
    using that store_step.step_op[of s "Op_Delete obj"] by (auto simp: metrics_store_ops_def intro: reach_step)
  show "store_reachable s0 s'" if "store_reachable s0 s" "st_Replace metrics_store_ops s list rv = Inr (e, s')" for s list rv e s'
    using that store_step.step_op[of s "Op_Replace list rv"] by (auto simp: metrics_store_ops_def intro: reach_step)
qed

subsection \<open>Properties\<close>

text \<open>
  The store follows the cluster: after a list and the watch that follows it, the entries of the
  store are exactly the texts of the objects that exist then, the listed ones changed by the events,
  one entry per UID and nothing for deleted objects.
\<close>

lemma ListAndWatch_mirrors:
  assumes "lw_List lw \<lparr>opt_ResourceVersion = ''0'', FieldSelector = []\<rparr> w = (Inr l, w1)"
    and "lw_Watch lw \<lparr>opt_ResourceVersion = list_ResourceVersion l, FieldSelector = []\<rparr> w1 = (Inr evs, w2)"
    and "list_all (accepts s) (Items l)" "list_all (event_ok t (accepts s)) evs"
  shows "\<exists>s'. ListAndWatch metrics_store_ops t lw refused short 1 s w = Inr (None, s', w2) \<and>
    mirrors s' (events_effect evs (objects_of (Items l)))"
  using metrics_store.list_and_watch_holds[OF assms] by (simp add: metrics_store_ops_def)



text \<open>
  The reflector does not hand an event to the store unless its object has exactly the expected
  type: a watch whose events are all of other types leaves the store unchanged, and when it is short it
  even counts as an error.
\<close>

lemma watch_ignores_other_types:
  assumes "\<And>ev. ev \<in> set evs \<Longrightarrow> ev_Type ev \<noteq> Error \<and> TypeOf (ev_Object ev) \<noteq> t"
  shows "\<exists>e. watchHandler st t short s rv evs = Inr (e, s, rv) \<and> (e \<noteq> None \<longleftrightarrow> short)"
proof -
  have "watch_loop st t s rv 0 evs = Inr (None, s, rv, 0)" using assms by (rule watch_loop_wrong_type)
  then show ?thesis by (simp add: watchHandler_def)
qed

end
