(* ===== verification/Builder.thy ===== *)
theory Builder
  imports Store_Pod Store_Node Store_Workloads Store_Batch Store_Core Store_Misc Store_Autoscaling
    Allowdenylist Options Listwatch Watch_Metrics Sharding Reflector
begin

text \<open>
  \<open>internal/store/builder.go\<close> and the \<open>create...ListWatch\<close> functions of the stores: for every
  enabled resource a metrics store with the resource's filtered families, fed by a reflector whose
  lister watcher is the resource's client, over all selected namespaces, instrumented and sharded.

  The clients are parameters: \<open>'w client\<close> maps a call such as
  \<open>kubeClient.CoreV1().Pods(ns)\<close> to the lister watcher of its \<open>List\<close> and \<open>Watch\<close> methods.
  \<open>merge\<close> is the interleaving of the watches of several namespaces. A store together with the
  reflector that \<open>buildStore\<close> starts for it is a \<open>running\<close> record.
\<close>

subsection \<open>Clients and list watches\<close>

text \<open>Group version, resource and, for namespaced resources, the namespace.\<close>

datatype api_call = Api string string "string option"

type_synonym 'w world = "'w \<times> ListWatchMetrics"

type_synonym 'w client = "api_call \<Rightarrow> 'w ListerWatcher"

definition createCSRListWatch :: "'w client \<Rightarrow> string \<Rightarrow> 'w ListerWatcher" where
  "createCSRListWatch kubeClient ns = kubeClient (Api ''CertificatesV1beta1'' ''CertificateSigningRequests'' (None))"

definition createConfigMapListWatch :: "'w client \<Rightarrow> string \<Rightarrow> 'w ListerWatcher" where
  "createConfigMapListWatch kubeClient ns = kubeClient (Api ''CoreV1'' ''ConfigMaps'' (Some ns))"

definition createCronJobListWatch :: "'w client \<Rightarrow> string \<Rightarrow> 'w ListerWatcher" where
  "createCronJobListWatch kubeClient ns = kubeClient (Api ''BatchV1beta1'' ''CronJobs'' (Some ns))"

definition createDaemonSetListWatch :: "'w client \<Rightarrow> string \<Rightarrow> 'w ListerWatcher" where
  "createDaemonSetListWatch kubeClient ns = kubeClient (Api ''AppsV1'' ''DaemonSets'' (Some ns))"

definition createDeploymentListWatch :: "'w client \<Rightarrow> string \<Rightarrow> 'w ListerWatcher" where
  "createDeploymentListWatch kubeClient ns = kubeClient (Api ''AppsV1'' ''Deployments'' (Some ns))"

definition createEndpointsListWatch :: "'w client \<Rightarrow> string \<Rightarrow> 'w ListerWatcher" where
  "createEndpointsListWatch kubeClient ns = kubeClient (Api ''CoreV1'' ''Endpoints'' (Some ns))"

definition createHPAListWatch :: "'w client \<Rightarrow> string \<Rightarrow> 'w ListerWatcher" where
  "createHPAListWatch kubeClient ns = kubeClient (Api ''AutoscalingV2beta1'' ''HorizontalPodAutoscalers'' (Some ns))"

definition createIngressListWatch :: "'w client \<Rightarrow> string \<Rightarrow> 'w ListerWatcher" where
  "createIngressListWatch kubeClient ns = kubeClient (Api ''ExtensionsV1beta1'' ''Ingresses'' (Some ns))"

definition createJobListWatch :: "'w client \<Rightarrow> string \<Rightarrow> 'w ListerWatcher" where
  "createJobListWatch kubeClient ns = kubeClient (Api ''BatchV1'' ''Jobs'' (Some ns))"

definition createLeaseListWatch :: "'w client \<Rightarrow> string \<Rightarrow> 'w ListerWatcher" where
  "createLeaseListWatch kubeClient ns = kubeClient (Api ''CoordinationV1'' ''Leases'' (Some ''kube-node-lease''))"

definition createLimitRangeListWatch :: "'w client \<Rightarrow> string \<Rightarrow> 'w ListerWatcher" where
  "createLimitRangeListWatch kubeClient ns = kubeClient (Api ''CoreV1'' ''LimitRanges'' (Some ns))"

definition createMutatingWebhookConfigurationListWatch :: "'w client \<Rightarrow> string \<Rightarrow> 'w ListerWatcher" where
  "createMutatingWebhookConfigurationListWatch kubeClient ns = kubeClient (Api ''AdmissionregistrationV1beta1'' ''MutatingWebhookConfigurations'' (None))"

definition createNamespaceListWatch :: "'w client \<Rightarrow> string \<Rightarrow> 'w ListerWatcher" where
  "createNamespaceListWatch kubeClient ns = kubeClient (Api ''CoreV1'' ''Namespaces'' (None))"

definition createNetworkPolicyListWatch :: "'w client \<Rightarrow> string \<Rightarrow> 'w ListerWatcher" where
  "createNetworkPolicyListWatch kubeClient ns = kubeClient (Api ''NetworkingV1'' ''NetworkPolicies'' (Some ns))"

definition createNodeListWatch :: "'w client \<Rightarrow> string \<Rightarrow> 'w ListerWatcher" where
  "createNodeListWatch kubeClient ns = kubeClient (Api ''CoreV1'' ''Nodes'' (None))"

definition createPersistentVolumeListWatch :: "'w client \<Rightarrow> string \<Rightarrow> 'w ListerWatcher" where
  "createPersistentVolumeListWatch kubeClient ns = kubeClient (Api ''CoreV1'' ''PersistentVolumes'' (None))"

definition createPersistentVolumeClaimListWatch :: "'w client \<Rightarrow> string \<Rightarrow> 'w ListerWatcher" where
  "createPersistentVolumeClaimListWatch kubeClient ns = kubeClient (Api ''CoreV1'' ''PersistentVolumeClaims'' (Some ns))"

definition createPodListWatch :: "'w client \<Rightarrow> string \<Rightarrow> 'w ListerWatcher" where
  "createPodListWatch kubeClient ns = kubeClient (Api ''CoreV1'' ''Pods'' (Some ns))"

definition createPodDisruptionBudgetListWatch :: "'w client \<Rightarrow> string \<Rightarrow> 'w ListerWatcher" where
  "createPodDisruptionBudgetListWatch kubeClient ns = kubeClient (Api ''PolicyV1beta1'' ''PodDisruptionBudgets'' (Some ns))"

definition createReplicaSetListWatch :: "'w client \<Rightarrow> string \<Rightarrow> 'w ListerWatcher" where
  "createReplicaSetListWatch kubeClient ns = kubeClient (Api ''AppsV1'' ''ReplicaSets'' (Some ns))"

definition createReplicationControllerListWatch :: "'w client \<Rightarrow> string \<Rightarrow> 'w ListerWatcher" where
  "createReplicationControllerListWatch kubeClient ns = kubeClient (Api ''CoreV1'' ''ReplicationControllers'' (Some ns))"

definition createResourceQuotaListWatch :: "'w client \<Rightarrow> string \<Rightarrow> 'w ListerWatcher" where
  "createResourceQuotaListWatch kubeClient ns = kubeClient (Api ''CoreV1'' ''ResourceQuotas'' (Some ns))"

definition createSecretListWatch :: "'w client \<Rightarrow> string \<Rightarrow> 'w ListerWatcher" where
  "createSecretListWatch kubeClient ns = kubeClient (Api ''CoreV1'' ''Secrets'' (Some ns))"

definition createServiceListWatch :: "'w client \<Rightarrow> string \<Rightarrow> 'w ListerWatcher" where
  "createServiceListWatch kubeClient ns = kubeClient (Api ''CoreV1'' ''Services'' (Some ns))"

definition createStatefulSetListWatch :: "'w client \<Rightarrow> string \<Rightarrow> 'w ListerWatcher" where
  "createStatefulSetListWatch kubeClient ns = kubeClient (Api ''AppsV1'' ''StatefulSets'' (Some ns))"

definition createStorageClassListWatch :: "'w client \<Rightarrow> string \<Rightarrow> 'w ListerWatcher" where
  "createStorageClassListWatch kubeClient ns = kubeClient (Api ''StorageV1'' ''StorageClasses'' (None))"

definition createValidatingWebhookConfigurationListWatch :: "'w client \<Rightarrow> string \<Rightarrow> 'w ListerWatcher" where
  "createValidatingWebhookConfigurationListWatch kubeClient ns = kubeClient (Api ''AdmissionregistrationV1'' ''ValidatingWebhookConfigurations'' (None))"

definition createVPAListWatchFunc :: "'w client \<Rightarrow> 'w client \<Rightarrow> string \<Rightarrow> 'w ListerWatcher" where
  "createVPAListWatchFunc vpaClient kubeClient ns = vpaClient (Api ''AutoscalingV1beta2'' ''VerticalPodAutoscalers'' (Some ns))"

definition createVolumeAttachmentListWatch :: "'w client \<Rightarrow> string \<Rightarrow> 'w ListerWatcher" where
  "createVolumeAttachmentListWatch kubeClient ns = kubeClient (Api ''StorageV1beta1'' ''VolumeAttachments'' (None))"

subsection \<open>The builder\<close>

record 'w running =
  run_store :: MetricsStore
  run_type :: gotype
  run_lw :: "'w world ListerWatcher"
  run_ctx :: nat

text \<open>
  The store function of a builder. The default one is the method value \<open>b.buildStore\<close>, which reads
  the builder's fields when it is called.
\<close>

datatype 'w store_func =
    Default_store_func
  | Custom_store_func
      "kobject FamilyGenerator list \<Rightarrow> gotype \<Rightarrow> ('w world client \<Rightarrow> string \<Rightarrow> 'w world ListerWatcher) \<Rightarrow> 'w running"

record 'w Builder =
  kubeClient :: "'w world client"
  vpaClient :: "'w world client"
  b_namespaces :: "string list"
  ctx :: "nat option"
  enabledResources :: "string list"
  allowDenyList :: "AllowDenyList option"
  b_metrics :: "string list option"
  shard :: int
  totalShards :: int
  buildStoreFunc :: "'w store_func option"

text \<open>
  The zero value of the client fields. A call through a nil client panics in the goroutine of the
  reflector, which the result of a lister watcher cannot express; no theorem is about such a call.
\<close>

definition nil_client :: "'w client" where
  "nil_client c = \<lparr>lw_List = (\<lambda>opts w. (Inl (Err ''nil client''), w)), lw_Watch = (\<lambda>opts w. (Inl (Err ''nil client''), w))\<rparr>"

definition NewBuilder :: "'w Builder" where
  "NewBuilder = \<lparr>kubeClient = nil_client, vpaClient = nil_client, b_namespaces = [], ctx = None, enabledResources = [],
     allowDenyList = None, b_metrics = None, shard = 0, totalShards = 0, buildStoreFunc = None\<rparr>"

text \<open>The pointer to the counters is kept as the registry they were registered with.\<close>

definition WithMetrics :: "string list option \<Rightarrow> 'w Builder \<Rightarrow> 'w Builder" where
  "WithMetrics r b = b\<lparr>b_metrics := snd (NewListWatchMetrics r)\<rparr>"

definition WithNamespaces :: "string list \<Rightarrow> 'w Builder \<Rightarrow> 'w Builder" where
  "WithNamespaces n b = b\<lparr>b_namespaces := n\<rparr>"

definition WithSharding :: "int \<Rightarrow> int \<Rightarrow> 'w Builder \<Rightarrow> 'w Builder" where
  "WithSharding sh n b = b\<lparr>shard := sh, totalShards := n\<rparr>"

definition WithContext :: "nat \<Rightarrow> 'w Builder \<Rightarrow> 'w Builder" where
  "WithContext c b = b\<lparr>ctx := Some c\<rparr>"

definition WithKubeClient :: "'w world client \<Rightarrow> 'w Builder \<Rightarrow> 'w Builder" where
  "WithKubeClient c b = b\<lparr>kubeClient := c\<rparr>"

definition WithVPAClient :: "'w world client \<Rightarrow> 'w Builder \<Rightarrow> 'w Builder" where
  "WithVPAClient c b = b\<lparr>vpaClient := c\<rparr>"

definition WithAllowDenyList :: "AllowDenyList option \<Rightarrow> 'w Builder \<Rightarrow> 'w Builder" where
  "WithAllowDenyList l b = b\<lparr>allowDenyList := l\<rparr>"

definition WithGenerateStoreFunc :: "'w store_func \<Rightarrow> 'w Builder \<Rightarrow> 'w Builder" where
  "WithGenerateStoreFunc f b = b\<lparr>buildStoreFunc := Some f\<rparr>"

definition DefaultGenerateStoreFunc :: "'w Builder \<Rightarrow> 'w store_func" where
  "DefaultGenerateStoreFunc b = Default_store_func"

text \<open>
  The lister watcher of a store's reflector: the resource's client over the namespaces, counted,
  and restricted to the shard.
\<close>

definition reflector_lw ::
  "(watch list \<Rightarrow> watch) \<Rightarrow> 'w Builder \<Rightarrow> gotype \<Rightarrow> ('w world client \<Rightarrow> string \<Rightarrow> 'w world ListerWatcher) \<Rightarrow> 'w world ListerWatcher" where
  "reflector_lw merge b expectedType listWatchFunc =
     (let lwf = (\<lambda>ns. listWatchFunc (kubeClient b) ns);
          lw = MultiNamespaceListerWatcher merge (b_namespaces b) [] lwf;
          instrumentedListWatch = NewInstrumentedListerWatcher lw (type_String expectedType)
      in NewShardedListWatch (shard b) (totalShards b) instrumentedListWatch)"

text \<open>
  The filter calls the allow- and denylist; a builder without one panics in \<open>Build\<close> before it gets
  here.
\<close>

definition included_by :: "AllowDenyList option \<Rightarrow> string \<Rightarrow> bool" where
  "included_by l name = (case l of None \<Rightarrow> False | Some a \<Rightarrow> IsIncluded a name)"

definition filtered_store :: "AllowDenyList option \<Rightarrow> kobject FamilyGenerator list \<Rightarrow> MetricsStore" where
  "filtered_store l metricFamilies =
     (let filteredMetricFamilies = FilterMetricFamilies (included_by l) metricFamilies;
          composedMetricGenFuncs = ComposeMetricGenFuncs filteredMetricFamilies;
          familyHeaders = ExtractMetricFamilyHeaders filteredMetricFamilies
      in NewMetricsStore familyHeaders composedMetricGenFuncs)"

text \<open>The reflector is started with \<open>b.ctx.Done()\<close>, which panics on a builder without context.\<close>

definition buildStore ::
  "(watch list \<Rightarrow> watch) \<Rightarrow> 'w Builder \<Rightarrow> kobject FamilyGenerator list \<Rightarrow> gotype \<Rightarrow>
   ('w world client \<Rightarrow> string \<Rightarrow> 'w world ListerWatcher) \<Rightarrow> 'w running go" where
  "buildStore merge b metricFamilies expectedType listWatchFunc =
     (let store = filtered_store (allowDenyList b) metricFamilies in
      go_bind (deref (ctx b)) (\<lambda>c.
        Inr \<lparr>run_store = store, run_type = expectedType, run_lw = reflector_lw merge b expectedType listWatchFunc,
             run_ctx = c\<rparr>))"

definition call_buildStoreFunc ::
  "(watch list \<Rightarrow> watch) \<Rightarrow> 'w Builder \<Rightarrow> kobject FamilyGenerator list \<Rightarrow> gotype \<Rightarrow>
   ('w world client \<Rightarrow> string \<Rightarrow> 'w world ListerWatcher) \<Rightarrow> 'w running go" where
  "call_buildStoreFunc merge b metricFamilies expectedType listWatchFunc =
     (case buildStoreFunc b of
        None \<Rightarrow> Inl Nil_dereference
      | Some Default_store_func \<Rightarrow> buildStore merge b metricFamilies expectedType listWatchFunc
      | Some (Custom_store_func f) \<Rightarrow> Inr (f metricFamilies expectedType listWatchFunc))"

definition buildConfigMapStore :: "(watch list \<Rightarrow> watch) \<Rightarrow> 'w Builder \<Rightarrow> 'w running go" where
  "buildConfigMapStore merge b =
     call_buildStoreFunc merge b configMapMetricFamilies (Ptr_to core_v1 ''ConfigMap'') createConfigMapListWatch"

definition buildCronJobStore :: "schedule_parser \<Rightarrow> (watch list \<Rightarrow> watch) \<Rightarrow> 'w Builder \<Rightarrow> 'w running go" where
  "buildCronJobStore ParseStandard merge b =
     call_buildStoreFunc merge b (cronJobMetricFamilies ParseStandard) (Ptr_to ''k8s.io/api/batch/v1beta1'' ''CronJob'') createCronJobListWatch"

definition buildDaemonSetStore :: "(watch list \<Rightarrow> watch) \<Rightarrow> 'w Builder \<Rightarrow> 'w running go" where
  "buildDaemonSetStore merge b =
     call_buildStoreFunc merge b daemonSetMetricFamilies (Ptr_to apps_v1 ''DaemonSet'') createDaemonSetListWatch"

definition buildDeploymentStore :: "(watch list \<Rightarrow> watch) \<Rightarrow> 'w Builder \<Rightarrow> 'w running go" where
  "buildDeploymentStore merge b =
     call_buildStoreFunc merge b deploymentMetricFamilies (Ptr_to apps_v1 ''Deployment'') createDeploymentListWatch"

definition buildEndpointsStore :: "(watch list \<Rightarrow> watch) \<Rightarrow> 'w Builder \<Rightarrow> 'w running go" where
  "buildEndpointsStore merge b =
     call_buildStoreFunc merge b endpointMetricFamilies (Ptr_to core_v1 ''Endpoints'') createEndpointsListWatch"

definition buildHPAStore :: "(watch list \<Rightarrow> watch) \<Rightarrow> 'w Builder \<Rightarrow> 'w running go" where
  "buildHPAStore merge b =
     call_buildStoreFunc merge b hpaMetricFamilies (Ptr_to ''k8s.io/api/autoscaling/v2beta1'' ''HorizontalPodAutoscaler'') createHPAListWatch"

definition buildIngressStore :: "(watch list \<Rightarrow> watch) \<Rightarrow> 'w Builder \<Rightarrow> 'w running go" where
  "buildIngressStore merge b =
     call_buildStoreFunc merge b ingressMetricFamilies (Ptr_to ''k8s.io/api/extensions/v1beta1'' ''Ingress'') createIngressListWatch"

definition buildJobStore :: "(watch list \<Rightarrow> watch) \<Rightarrow> 'w Builder \<Rightarrow> 'w running go" where
  "buildJobStore merge b =
     call_buildStoreFunc merge b jobMetricFamilies (Ptr_to ''k8s.io/api/batch/v1'' ''Job'') createJobListWatch"

definition buildLimitRangeStore :: "(watch list \<Rightarrow> watch) \<Rightarrow> 'w Builder \<Rightarrow> 'w running go" where
  "buildLimitRangeStore merge b =
     call_buildStoreFunc merge b limitRangeMetricFamilies (Ptr_to core_v1 ''LimitRange'') createLimitRangeListWatch"

definition buildMutatingWebhookConfigurationStore :: "(watch list \<Rightarrow> watch) \<Rightarrow> 'w Builder \<Rightarrow> 'w running go" where
  "buildMutatingWebhookConfigurationStore merge b =
     call_buildStoreFunc merge b mutatingWebhookConfigurationMetricFamilies (Ptr_to ''k8s.io/api/admissionregistration/v1'' ''MutatingWebhookConfiguration'') createMutatingWebhookConfigurationListWatch"

definition buildNamespaceStore :: "(watch list \<Rightarrow> watch) \<Rightarrow> 'w Builder \<Rightarrow> 'w running go" where
  "buildNamespaceStore merge b =
     call_buildStoreFunc merge b namespaceMetricFamilies (Ptr_to core_v1 ''Namespace'') createNamespaceListWatch"

definition buildNetworkPolicyStore :: "(watch list \<Rightarrow> watch) \<Rightarrow> 'w Builder \<Rightarrow> 'w running go" where
  "buildNetworkPolicyStore merge b =
     buildStore merge b networkpolicyMetricFamilies (Ptr_to ''k8s.io/api/networking/v1'' ''NetworkPolicy'') createNetworkPolicyListWatch"

definition buildNodeStore :: "(watch list \<Rightarrow> watch) \<Rightarrow> 'w Builder \<Rightarrow> 'w running go" where
  "buildNodeStore merge b =
     buildStore merge b nodeMetricFamilies (Ptr_to core_v1 ''Node'') createNodeListWatch"

definition buildPersistentVolumeClaimStore :: "(watch list \<Rightarrow> watch) \<Rightarrow> 'w Builder \<Rightarrow> 'w running go" where
  "buildPersistentVolumeClaimStore merge b =
     call_buildStoreFunc merge b persistentVolumeClaimMetricFamilies (Ptr_to core_v1 ''PersistentVolumeClaim'') createPersistentVolumeClaimListWatch"

definition buildPersistentVolumeStore :: "(watch list \<Rightarrow> watch) \<Rightarrow> 'w Builder \<Rightarrow> 'w running go" where
  "buildPersistentVolumeStore merge b =
     call_buildStoreFunc merge b persistentVolumeMetricFamilies (Ptr_to core_v1 ''PersistentVolume'') createPersistentVolumeListWatch"

definition buildPodDisruptionBudgetStore :: "(watch list \<Rightarrow> watch) \<Rightarrow> 'w Builder \<Rightarrow> 'w running go" where
  "buildPodDisruptionBudgetStore merge b =
     call_buildStoreFunc merge b podDisruptionBudgetMetricFamilies (Ptr_to ''k8s.io/api/policy/v1beta1'' ''PodDisruptionBudget'') createPodDisruptionBudgetListWatch"

definition buildReplicaSetStore :: "(watch list \<Rightarrow> watch) \<Rightarrow> 'w Builder \<Rightarrow> 'w running go" where
  "buildReplicaSetStore merge b =
     call_buildStoreFunc merge b replicaSetMetricFamilies (Ptr_to apps_v1 ''ReplicaSet'') createReplicaSetListWatch"

definition buildReplicationControllerStore :: "(watch list \<Rightarrow> watch) \<Rightarrow> 'w Builder \<Rightarrow> 'w running go" where
  "buildReplicationControllerStore merge b =
     call_buildStoreFunc merge b replicationControllerMetricFamilies (Ptr_to core_v1 ''ReplicationController'') createReplicationControllerListWatch"

definition buildResourceQuotaStore :: "(watch list \<Rightarrow> watch) \<Rightarrow> 'w Builder \<Rightarrow> 'w running go" where
  "buildResourceQuotaStore merge b =
     call_buildStoreFunc merge b resourceQuotaMetricFamilies (Ptr_to core_v1 ''ResourceQuota'') createResourceQuotaListWatch"

definition buildSecretStore :: "(watch list \<Rightarrow> watch) \<Rightarrow> 'w Builder \<Rightarrow> 'w running go" where
  "buildSecretStore merge b =
     call_buildStoreFunc merge b secretMetricFamilies (Ptr_to core_v1 ''Secret'') createSecretListWatch"

definition buildServiceStore :: "(watch list \<Rightarrow> watch) \<Rightarrow> 'w Builder \<Rightarrow> 'w running go" where
  "buildServiceStore merge b =
     call_buildStoreFunc merge b serviceMetricFamilies (Ptr_to core_v1 ''Service'') createServiceListWatch"

definition buildStatefulSetStore :: "(watch list \<Rightarrow> watch) \<Rightarrow> 'w Builder \<Rightarrow> 'w running go" where
  "buildStatefulSetStore merge b =
     call_buildStoreFunc merge b statefulSetMetricFamilies (Ptr_to apps_v1 ''StatefulSet'') createStatefulSetListWatch"

definition buildStorageClassStore :: "(watch list \<Rightarrow> watch) \<Rightarrow> 'w Builder \<Rightarrow> 'w running go" where
  "buildStorageClassStore merge b =
     call_buildStoreFunc merge b storageClassMetricFamilies (Ptr_to ''k8s.io/api/storage/v1'' ''StorageClass'') createStorageClassListWatch"

definition buildPodStore :: "(watch list \<Rightarrow> watch) \<Rightarrow> 'w Builder \<Rightarrow> 'w running go" where
  "buildPodStore merge b =
     call_buildStoreFunc merge b podMetricFamilies (Ptr_to core_v1 ''Pod'') createPodListWatch"

definition buildCsrStore :: "(watch list \<Rightarrow> watch) \<Rightarrow> 'w Builder \<Rightarrow> 'w running go" where
  "buildCsrStore merge b =
     call_buildStoreFunc merge b csrMetricFamilies (Ptr_to ''k8s.io/api/certificates/v1beta1'' ''CertificateSigningRequest'') createCSRListWatch"

definition buildValidatingWebhookConfigurationStore :: "(watch list \<Rightarrow> watch) \<Rightarrow> 'w Builder \<Rightarrow> 'w running go" where
  "buildValidatingWebhookConfigurationStore merge b =
     call_buildStoreFunc merge b validatingWebhookConfigurationMetricFamilies (Ptr_to ''k8s.io/api/admissionregistration/v1'' ''ValidatingWebhookConfiguration'') createValidatingWebhookConfigurationListWatch"

definition buildVolumeAttachmentStore :: "(watch list \<Rightarrow> watch) \<Rightarrow> 'w Builder \<Rightarrow> 'w running go" where
  "buildVolumeAttachmentStore merge b =
     buildStore merge b volumeAttachmentMetricFamilies (Ptr_to ''k8s.io/api/storage/v1'' ''VolumeAttachment'') createVolumeAttachmentListWatch"

definition buildVPAStore :: "(watch list \<Rightarrow> watch) \<Rightarrow> 'w Builder \<Rightarrow> 'w running go" where
  "buildVPAStore merge b =
     buildStore merge b vpaMetricFamilies (Ptr_to ''k8s.io/autoscaler/vertical-pod-autoscaler/pkg/apis/autoscaling.k8s.io/v1beta2'' ''VerticalPodAutoscaler'') (createVPAListWatchFunc (vpaClient b))"

definition buildLeases :: "(watch list \<Rightarrow> watch) \<Rightarrow> 'w Builder \<Rightarrow> 'w running go" where
  "buildLeases merge b =
     buildStore merge b leaseMetricFamilies (Ptr_to ''k8s.io/api/coordination/v1'' ''Lease'') createLeaseListWatch"

definition availableStores ::
  "schedule_parser \<Rightarrow> (watch list \<Rightarrow> watch) \<Rightarrow> (string \<times> ('w Builder \<Rightarrow> 'w running go)) list" where
  "availableStores ParseStandard merge =
    [(''certificatesigningrequests'', buildCsrStore merge),
     (''configmaps'', buildConfigMapStore merge),
     (''cronjobs'', buildCronJobStore ParseStandard merge),
     (''daemonsets'', buildDaemonSetStore merge),
     (''deployments'', buildDeploymentStore merge),
     (''endpoints'', buildEndpointsStore merge),
     (''horizontalpodautoscalers'', buildHPAStore merge),
     (''ingresses'', buildIngressStore merge),
     (''jobs'', buildJobStore merge),
     (''leases'', buildLeases merge),
     (''limitranges'', buildLimitRangeStore merge),
     (''mutatingwebhookconfigurations'', buildMutatingWebhookConfigurationStore merge),
     (''namespaces'', buildNamespaceStore merge),
     (''networkpolicies'', buildNetworkPolicyStore merge),
     (''nodes'', buildNodeStore merge),
     (''persistentvolumeclaims'', buildPersistentVolumeClaimStore merge),
     (''persistentvolumes'', buildPersistentVolumeStore merge),
     (''poddisruptionbudgets'', buildPodDisruptionBudgetStore merge),
     (''pods'', buildPodStore merge),
     (''replicasets'', buildReplicaSetStore merge),
     (''replicationcontrollers'', buildReplicationControllerStore merge),
     (''resourcequotas'', buildResourceQuotaStore merge),
     (''secrets'', buildSecretStore merge),
     (''services'', buildServiceStore merge),
     (''statefulsets'', buildStatefulSetStore merge),
     (''storageclasses'', buildStorageClassStore merge),
     (''validatingwebhookconfigurations'', buildValidatingWebhookConfigurationStore merge),
     (''volumeattachments'', buildVolumeAttachmentStore merge),
     (''verticalpodautoscalers'', buildVPAStore merge)]"

definition resourceExists :: "string \<Rightarrow> bool" where
  "resourceExists name \<longleftrightarrow> map_of (availableStores (\<lambda>s. Inr (Inl [])) concat :: (string \<times> (unit Builder \<Rightarrow> unit running go)) list) name \<noteq> None"

definition availableResources :: "string list" where
  "availableResources = map fst (availableStores (\<lambda>s. Inr (Inl [])) concat :: (string \<times> (unit Builder \<Rightarrow> unit running go)) list)"

definition WithEnabledResources :: "string list \<Rightarrow> 'w Builder \<Rightarrow> err option \<times> 'w Builder" where
  "WithEnabledResources r b =
     (case find (\<lambda>col. \<not> resourceExists col) r of
        Some col \<Rightarrow> (Some (Err (''resource '' @ col @ '' does not exist. Available resources: '' @ Join availableResources '','')), b)
      | None \<Rightarrow> (None, b\<lparr>enabledResources := sort r\<rparr>))"

text \<open>The loop over the enabled resources; a resource without constructor is skipped.\<close>

fun build_stores :: "(string \<times> ('w Builder \<Rightarrow> 'w running go)) list \<Rightarrow> 'w Builder \<Rightarrow> string list \<Rightarrow> 'w running list go" where
  "build_stores stores b [] = Inr []"
| "build_stores stores b (c # cs) =
     (case map_of stores c of
        None \<Rightarrow> build_stores stores b cs
      | Some constructor \<Rightarrow>
          go_bind (constructor b) (\<lambda>s. go_bind (build_stores stores b cs) (\<lambda>rest. Inr (s # rest))))"

definition Build :: "schedule_parser \<Rightarrow> (watch list \<Rightarrow> watch) \<Rightarrow> 'w Builder \<Rightarrow> 'w running list go" where
  "Build ParseStandard merge b =
     (if allowDenyList b = None then Inl (Panic_msg ''allowDenyList should not be nil'')
      else build_stores (availableStores ParseStandard merge) b (enabledResources b))"

subsection \<open>Lemmas\<close>

lemmas constructor_defs =
  buildConfigMapStore_def buildCronJobStore_def buildDaemonSetStore_def
  buildDeploymentStore_def buildEndpointsStore_def buildHPAStore_def buildIngressStore_def
  buildJobStore_def buildLimitRangeStore_def buildMutatingWebhookConfigurationStore_def
  buildNamespaceStore_def buildNetworkPolicyStore_def buildNodeStore_def
  buildPersistentVolumeClaimStore_def buildPersistentVolumeStore_def
  buildPodDisruptionBudgetStore_def buildReplicaSetStore_def
  buildReplicationControllerStore_def buildResourceQuotaStore_def buildSecretStore_def
  buildServiceStore_def buildStatefulSetStore_def buildStorageClassStore_def buildPodStore_def
  buildCsrStore_def buildValidatingWebhookConfigurationStore_def buildVolumeAttachmentStore_def
  buildVPAStore_def buildLeases_def

lemma map_fst_availableStores: "map fst (availableStores P m) = availableResources"
  by (simp add: availableStores_def availableResources_def)

lemma resourceExists_iff: "resourceExists c \<longleftrightarrow> c \<in> set availableResources"
  by (simp add: resourceExists_def availableResources_def map_of_eq_None_iff)

lemma availableStores_Some: "resourceExists c \<Longrightarrow> \<exists>f. map_of (availableStores P m) c = Some f \<and> (c, f) \<in> set (availableStores P m)"
  by (metis map_fst_availableStores list.set_map map_of_SomeD not_Some_eq map_of_eq_None_iff resourceExists_iff)

text \<open>Every constructor returns once a store function is set.\<close>

definition default_built :: "'w running \<Rightarrow> bool" where
  "default_built r \<longleftrightarrow> store_ok (run_store r) \<and> arity_ok (run_store r)"

lemma buildStore_returns:
  "ctx b = Some c \<Longrightarrow> buildStore merge b fams t lwf =
     Inr \<lparr>run_store = filtered_store (allowDenyList b) fams, run_type = t, run_lw = reflector_lw merge b t lwf, run_ctx = c\<rparr>"
  by (simp add: buildStore_def)

lemma filtered_store_ok: "store_ok (filtered_store l fams)" "arity_ok (filtered_store l fams)"
  by (simp_all add: filtered_store_def Let_def arity_ok_Compose)

lemma call_buildStoreFunc_default:
  "buildStoreFunc b = Some Default_store_func \<Longrightarrow>
   call_buildStoreFunc merge b fams t lwf = buildStore merge b fams t lwf"
  by (simp add: call_buildStoreFunc_def)

lemmas constructor_simps = constructor_defs call_buildStoreFunc_default buildStore_returns

lemma constructors_return:
  assumes "buildStoreFunc b = Some Default_store_func" "ctx b = Some x" "(c, f) \<in> set (availableStores P m)"
  shows "\<exists>r. f b = Inr r \<and> default_built r \<and> run_ctx r = x"
proof -
  have "list_all (\<lambda>(c, f). \<exists>r. f b = Inr r \<and> default_built r \<and> run_ctx r = x) (availableStores P m)"
    using assms(1,2) by (simp add: availableStores_def constructor_simps default_built_def filtered_store_ok)
  then show ?thesis using assms(3) by (auto simp: list_all_iff)
qed

lemma build_stores_returns:
  fixes b :: "'w Builder"
  assumes "buildStoreFunc b = Some Default_store_func" "ctx b = Some x" "list_all resourceExists cs"
  shows "\<exists>rs. build_stores (availableStores P m) b cs = Inr rs \<and> length rs = length cs \<and>
    list_all (\<lambda>r. default_built r \<and> run_ctx r = x) rs"
  using assms(3)
proof (induction cs)
  case (Cons c cs)
  then obtain rs where rs: "build_stores (availableStores P m) b cs = Inr rs" "length rs = length cs"
    "list_all (\<lambda>r. default_built r \<and> run_ctx r = x) rs" by auto
  obtain f :: "'w Builder \<Rightarrow> 'w running go" where f: "map_of (availableStores P m) c = Some f" "(c, f) \<in> set (availableStores P m)"
    using availableStores_Some Cons.prems by fastforce
  then show ?case using constructors_return[OF assms(1,2) f(2)] rs by auto
qed simp

lemma WithEnabledResources_cases:
  "WithEnabledResources r b =
     (if list_all resourceExists r then (None, b\<lparr>enabledResources := sort r\<rparr>)
      else (fst (WithEnabledResources r b), b)) \<and>
   (fst (WithEnabledResources r b) = None \<longleftrightarrow> list_all resourceExists r)"
proof (cases "find (\<lambda>col. \<not> resourceExists col) r")
  case None
  then have "list_all resourceExists r" by (simp add: find_None_iff list_all_iff)
  then show ?thesis using None by (simp add: WithEnabledResources_def)
next
  case (Some c)
  then have "\<not> list_all resourceExists r" by (auto simp: find_Some_iff list_all_iff)
  then show ?thesis using Some by (simp add: WithEnabledResources_def)
qed

lemma accepts_sound:
  assumes "list_all (\<lambda>g. gen_sound g obj) fs" "Accessor obj \<noteq> None"
  shows "accepts (NewMetricsStore (ExtractMetricFamilyHeaders fs) (ComposeMetricGenFuncs fs)) obj"
proof -
  obtain fams where fams: "ComposeMetricGenFuncs fs obj = Inr fams" "list_all valid_family fams"
    using Compose_sound[OF assms(1)] by blast
  have "\<exists>ss. go_mapM ByteSlice fams = Inr ss"
    using fams(2) ByteSlice_wf[OF valid_family_wf] by (intro go_mapM_returns) (auto simp: list_all_iff)
  then show ?thesis using assms(2) fams(1) by (auto simp: accepts_def render_def NewMetricsStore_def)
qed

text \<open>The store of a resource takes an object, whatever families are filtered out.\<close>

definition takes_all :: "kobject FamilyGenerator list \<Rightarrow> ('r \<Rightarrow> kobject) \<Rightarrow> bool" where
  "takes_all families inject \<longleftrightarrow> (\<forall>l r. accepts (filtered_store l families) (inject r))"

lemma takes_allI:
  "(\<And>p r. list_all (\<lambda>g. gen_sound g (inject r)) (FilterMetricFamilies p fs)) \<Longrightarrow> (\<And>r. Accessor (inject r) \<noteq> None) \<Longrightarrow>
   takes_all fs inject"
  by (simp add: takes_all_def filtered_store_def Let_def accepts_sound)

text \<open>The constructor returns a store whose reflector expects the type of the given objects.\<close>

definition builds_type :: "'w running go \<Rightarrow> ('r \<Rightarrow> kobject) \<Rightarrow> bool" where
  "builds_type b inject \<longleftrightarrow> (\<exists>s. b = Inr s \<and> (\<forall>r. run_type s = TypeOf (inject r)))"

text \<open>The part of a metric name after \<open>kube_\<close> that names the resource.\<close>

definition resource_of :: "string \<Rightarrow> string" where
  "resource_of n = takeWhile (\<lambda>c. c \<noteq> CHR ''_'') (drop 5 n)"

lemma distinct_concat_keys:
  assumes "list_all (\<lambda>(k, gs). list_all (\<lambda>g. f (h g) = k) gs) kgs" "list_all (\<lambda>(k, gs). distinct (map h gs)) kgs"
    "distinct (map fst kgs)"
  shows "distinct (map h (concat (map snd kgs)))"
  using assms
proof (induction kgs)
  case (Cons kg kgs)
  obtain k gs where kg: "kg = (k, gs)" by (cases kg)
  have "h g \<noteq> h g'" if "g \<in> set gs" "(k', gs') \<in> set kgs" "g' \<in> set gs'" for g k' gs' g'
  proof -
    have "f (h g) = k" "f (h g') = k'" "k' \<noteq> k"
      using Cons.prems(1,3) kg that by (force simp: list_all_iff)+
    then show ?thesis by auto
  qed
  then have "h ` set gs \<inter> h ` set (concat (map snd kgs)) = {}" by fastforce
  then show ?case using Cons kg by simp
qed simp

text \<open>The store of a resource as \<open>buildStore\<close> prepares it for an allow- and denylist.\<close>

definition built_for :: "AllowDenyList \<Rightarrow> 'w running \<Rightarrow> bool" where
  "built_for l r \<longleftrightarrow>
     (\<exists>gens. run_store r = NewMetricsStore (ExtractMetricFamilyHeaders gens) (ComposeMetricGenFuncs gens) \<and>
        (\<forall>g \<in> set gens. IsIncluded l (gen_Name g)))"

lemma filtered_store_for: "run_store r = filtered_store (Some l) fams \<Longrightarrow> built_for l r"
  unfolding built_for_def filtered_store_def Let_def
  by (intro exI[of _ "FilterMetricFamilies (included_by (Some l)) fams"])
     (simp add: FilterMetricFamilies_filter included_by_def)

lemma build_stores_for:
  fixes b :: "'w Builder"
  assumes "buildStoreFunc b = Some Default_store_func" "ctx b = Some x" "allowDenyList b = Some l" "list_all resourceExists cs"
  shows "\<exists>rs. build_stores (availableStores P m) b cs = Inr rs \<and> length rs = length cs \<and> list_all (built_for l) rs"
  using assms(4)
proof (induction cs)
  case (Cons c cs)
  then obtain rs where rs: "build_stores (availableStores P m) b cs = Inr rs" "length rs = length cs"
    "list_all (built_for l) rs" by auto
  obtain f :: "'w Builder \<Rightarrow> 'w running go" where f: "map_of (availableStores P m) c = Some f" "(c, f) \<in> set (availableStores P m)"
    using availableStores_Some Cons.prems by fastforce
  have "list_all (\<lambda>(c, f). \<exists>r. f b = Inr r \<and> built_for l r) (availableStores P m)"
    using assms(1-3) by (simp add: availableStores_def constructor_simps filtered_store_for)
  then obtain r where "f b = Inr r" "built_for l r" using f(2) by (auto simp: list_all_iff)
  then show ?case using rs f(1) by auto
qed simp

subsection \<open>Properties\<close>

text \<open>
  C13. No object of these 25 resources can make the program panic: whatever its fields hold and whatever
  families the allow- and denylist leave, all families are generated and printed and the object gets
  into the store.
\<close>

theorem stores_take_every_object:
  "takes_all csrMetricFamilies CertificateSigningRequest_obj \<and>
   takes_all configMapMetricFamilies ConfigMap_obj \<and>
   takes_all daemonSetMetricFamilies DaemonSet_obj \<and>
   takes_all endpointMetricFamilies Endpoints_obj \<and>
   takes_all ingressMetricFamilies Ingress_obj \<and>
   takes_all jobMetricFamilies Job_obj \<and>
   takes_all leaseMetricFamilies Lease_obj \<and>
   takes_all limitRangeMetricFamilies LimitRange_obj \<and>
   takes_all mutatingWebhookConfigurationMetricFamilies MutatingWebhookConfiguration_v1beta1_obj \<and>
   takes_all namespaceMetricFamilies Namespace_obj \<and>
   takes_all networkpolicyMetricFamilies NetworkPolicy_obj \<and>
   takes_all nodeMetricFamilies Node_obj \<and>
   takes_all persistentVolumeClaimMetricFamilies PersistentVolumeClaim_obj \<and>
   takes_all persistentVolumeMetricFamilies PersistentVolume_obj \<and>
   takes_all podDisruptionBudgetMetricFamilies PodDisruptionBudget_obj \<and>
   takes_all podMetricFamilies Pod_obj \<and>
   takes_all replicaSetMetricFamilies ReplicaSet_obj \<and>
   takes_all replicationControllerMetricFamilies ReplicationController_obj \<and>
   takes_all resourceQuotaMetricFamilies ResourceQuota_obj \<and>
   takes_all secretMetricFamilies Secret_obj \<and>
   takes_all serviceMetricFamilies Service_obj \<and>
   takes_all statefulSetMetricFamilies StatefulSet_obj \<and>
   takes_all storageClassMetricFamilies StorageClass_obj \<and>
   takes_all validatingWebhookConfigurationMetricFamilies ValidatingWebhookConfiguration_obj \<and>
   takes_all volumeAttachmentMetricFamilies VolumeAttachment_v1beta1_obj"
  by (intro conjI takes_allI)
     (simp_all add: certificatesigningrequest.filtered_sound
        configmap.filtered_sound
        daemonset.filtered_sound
        endpoint.filtered_sound
        ingress.filtered_sound
        job.filtered_sound
        lease.filtered_sound
        limitrange.filtered_sound
        mutatingwebhookconfiguration.filtered_sound
        namespace.filtered_sound
        networkpolicy.filtered_sound
        node.filtered_sound
        persistentvolumeclaim.filtered_sound
        persistentvolume.filtered_sound
        poddisruptionbudget.filtered_sound
        pod.filtered_sound
        replicaset.filtered_sound
        replicationcontroller.filtered_sound
        resourcequota.filtered_sound
        secret.filtered_sound
        service.filtered_sound
        statefulset.filtered_sound
        storageclass.filtered_sound
        validatingwebhookconfiguration.filtered_sound
        volumeattachment.filtered_sound)

text \<open>The families of all resources, by the resource part of their names.\<close>

definition all_families :: "schedule_parser \<Rightarrow> (string \<times> kobject FamilyGenerator list) list" where
  "all_families P =
    [(''certificatesigningrequest'', csrMetricFamilies),
     (''configmap'', configMapMetricFamilies),
     (''cronjob'', cronJobMetricFamilies P),
     (''daemonset'', daemonSetMetricFamilies),
     (''deployment'', deploymentMetricFamilies),
     (''endpoint'', endpointMetricFamilies),
     (''horizontalpodautoscaler'', hpaMetricFamilies),
     (''ingress'', ingressMetricFamilies),
     (''job'', jobMetricFamilies),
     (''lease'', leaseMetricFamilies),
     (''limitrange'', limitRangeMetricFamilies),
     (''mutatingwebhookconfiguration'', mutatingWebhookConfigurationMetricFamilies),
     (''namespace'', namespaceMetricFamilies),
     (''networkpolicy'', networkpolicyMetricFamilies),
     (''node'', nodeMetricFamilies),
     (''persistentvolumeclaim'', persistentVolumeClaimMetricFamilies),
     (''persistentvolume'', persistentVolumeMetricFamilies),
     (''poddisruptionbudget'', podDisruptionBudgetMetricFamilies),
     (''pod'', podMetricFamilies),
     (''replicaset'', replicaSetMetricFamilies),
     (''replicationcontroller'', replicationControllerMetricFamilies),
     (''resourcequota'', resourceQuotaMetricFamilies),
     (''secret'', secretMetricFamilies),
     (''service'', serviceMetricFamilies),
     (''statefulset'', statefulSetMetricFamilies),
     (''storageclass'', storageClassMetricFamilies),
     (''validatingwebhookconfiguration'', validatingWebhookConfigurationMetricFamilies),
     (''volumeattachment'', volumeAttachmentMetricFamilies),
     (''verticalpodautoscaler'', vpaMetricFamilies)]"

lemma all_families_named: "list_all (\<lambda>(k, gs). list_all (\<lambda>g. resource_of (gen_Name g) = k) gs) (all_families P)"
  by (simp add: all_families_def resource_of_def csrMetricFamilies_def configMapMetricFamilies_def cronJobMetricFamilies_def daemonSetMetricFamilies_def
    deploymentMetricFamilies_def endpointMetricFamilies_def hpaMetricFamilies_def ingressMetricFamilies_def
    jobMetricFamilies_def leaseMetricFamilies_def limitRangeMetricFamilies_def
    mutatingWebhookConfigurationMetricFamilies_def namespaceMetricFamilies_def networkpolicyMetricFamilies_def
    nodeMetricFamilies_def persistentVolumeClaimMetricFamilies_def persistentVolumeMetricFamilies_def
    podDisruptionBudgetMetricFamilies_def podMetricFamilies_def replicaSetMetricFamilies_def
    replicationControllerMetricFamilies_def resourceQuotaMetricFamilies_def secretMetricFamilies_def
    serviceMetricFamilies_def statefulSetMetricFamilies_def storageClassMetricFamilies_def
    validatingWebhookConfigurationMetricFamilies_def volumeAttachmentMetricFamilies_def vpaMetricFamilies_def)

lemma all_families_distinct: "list_all (\<lambda>(k, gs). distinct (map gen_Name gs)) (all_families P)"
  by (simp add: all_families_def certificatesigningrequest.names_distinct configmap.names_distinct cronjob.names_distinct
      daemonset.names_distinct deployment.names_distinct endpoint.names_distinct hpa.names_distinct
      ingress.names_distinct job.names_distinct lease.names_distinct limitrange.names_distinct
      mutatingwebhookconfiguration.names_distinct namespace.names_distinct networkpolicy.names_distinct
      node.names_distinct persistentvolumeclaim.names_distinct persistentvolume.names_distinct
      poddisruptionbudget.names_distinct pod.names_distinct replicaset.names_distinct
      replicationcontroller.names_distinct resourcequota.names_distinct secret.names_distinct
      service.names_distinct statefulset.names_distinct storageclass.names_distinct
      validatingwebhookconfiguration.names_distinct volumeattachment.names_distinct vpa.names_distinct)

lemma all_families_keys: "distinct (map fst (all_families P))"
  unfolding all_families_def list.map fst_conv by code_simp



definition demo_builder :: "unit Builder" where
  "demo_builder = (WithGenerateStoreFunc Default_store_func NewBuilder)
     \<lparr>allowDenyList := Some \<lparr>adl_list = [], rList = [], isAllowList = False\<rparr>, b_namespaces := DefaultNamespaces,
      enabledResources := [''nodes'', ''pods''], ctx := Some 0\<rparr>"

lemma demo_builder_simps:
  "buildStoreFunc demo_builder = Some Default_store_func" "ctx demo_builder = Some 0"
  "list_all resourceExists (enabledResources demo_builder)"
  by (simp_all add: demo_builder_def WithGenerateStoreFunc_def resourceExists_iff availableResources_def availableStores_def)


text \<open>
  C26. For volume attachments and mutating webhook configurations the reflector expects another version
  of the type than the one the resource is listed in, so that every watch event of the resource is
  ignored: between two lists the stores do not change.
\<close>

theorem webhook_and_attachment_events_ignored:
  assumes "buildStoreFunc b = Some Default_store_func" "ctx b = Some c"
    and "\<And>ev. ev \<in> set evs \<Longrightarrow> ev_Type ev \<noteq> Error"
    and "\<And>ev. ev \<in> set evs \<Longrightarrow> (\<exists>x. ev_Object ev = VolumeAttachment_v1beta1_obj x) \<or>
      (\<exists>x. ev_Object ev = MutatingWebhookConfiguration_v1beta1_obj x)"
  shows "\<exists>va mwc. buildVolumeAttachmentStore merge b = Inr va \<and> buildMutatingWebhookConfigurationStore merge b = Inr mwc \<and>
    watch_loop st (run_type va) s rv n evs = Inr (None, s, rv, n) \<and>
    watch_loop st (run_type mwc) s rv n evs = Inr (None, s, rv, n)"
proof -
  let ?va = "Ptr_to ''k8s.io/api/storage/v1'' ''VolumeAttachment''"
  let ?mwc = "Ptr_to ''k8s.io/api/admissionregistration/v1'' ''MutatingWebhookConfiguration''"
  have "watch_loop st ?va s rv n evs = Inr (None, s, rv, n)" "watch_loop st ?mwc s rv n evs = Inr (None, s, rv, n)"
    using assms(3,4) by (intro watch_loop_wrong_type; fastforce)+
  then show ?thesis using assms(1,2) by (simp add: constructor_simps)
qed

theorem webhook_and_attachment_events_ignored_witness:
  "\<exists>va mwc. buildVolumeAttachmentStore concat demo_builder = Inr va \<and>
    buildMutatingWebhookConfigurationStore concat demo_builder = Inr mwc \<and>
    (\<forall>x. watch_loop metrics_store_ops (run_type va) demo_store ''7'' 0
       [\<lparr>ev_Type = Added, ev_Object = VolumeAttachment_v1beta1_obj x\<rparr>] = Inr (None, demo_store, ''7'', 0))"
proof -
  obtain va mwc where vm: "buildVolumeAttachmentStore concat demo_builder = Inr va"
    "buildMutatingWebhookConfigurationStore concat demo_builder = Inr mwc"
    using webhook_and_attachment_events_ignored[OF demo_builder_simps(1,2), where evs = "[]" and merge = concat] by auto
  have "watch_loop metrics_store_ops (run_type va) demo_store ''7'' 0
       [\<lparr>ev_Type = Added, ev_Object = VolumeAttachment_v1beta1_obj x\<rparr>] = Inr (None, demo_store, ''7'', 0)" for x
    using webhook_and_attachment_events_ignored[OF demo_builder_simps(1,2), where merge = concat and
        evs = "[\<lparr>ev_Type = Added, ev_Object = VolumeAttachment_v1beta1_obj x\<rparr>]" and st = metrics_store_ops and s = demo_store
        and rv = "''7''" and n = 0] vm by auto
  then show ?thesis using vm by blast
qed

text \<open>
  Enabling resources is all or nothing: exactly the known resource names are accepted, the accepted
  ones are stored sorted, and with one unknown name an error is returned and the builder keeps its old
  setting. Every default resource is known, and only the vertical pod autoscalers are known without
  being a default.
\<close>

lemma WithEnabledResources_all_or_nothing:
  "(fst (WithEnabledResources r b) = None \<longleftrightarrow> set r \<subseteq> set availableResources) \<and>
   snd (WithEnabledResources r b) = (if set r \<subseteq> set availableResources then b\<lparr>enabledResources := sort r\<rparr> else b) \<and>
   set availableResources = insert ''verticalpodautoscalers'' (set DefaultResources)"
proof -
  have sub: "list_all resourceExists r \<longleftrightarrow> set r \<subseteq> set availableResources"
    by (auto simp: list_all_iff resourceExists_iff)
  have "set availableResources = insert ''verticalpodautoscalers'' (set DefaultResources)"
    by (simp add: availableResources_def availableStores_def DefaultResources_def) (rule set_eqI; auto)
  then show ?thesis using WithEnabledResources_cases[of r b] sub by (metis snd_conv)
qed



text \<open>
  A custom store function is called for the other resources, but the stores of nodes, network
  policies, volume attachments, vertical pod autoscalers and leases are always built by the default
  one.
\<close>

lemma custom_store_function_bypassed:
  "buildNodeStore merge (WithGenerateStoreFunc f b) = buildNodeStore merge b \<and>
   buildNetworkPolicyStore merge (WithGenerateStoreFunc f b) = buildNetworkPolicyStore merge b \<and>
   buildVolumeAttachmentStore merge (WithGenerateStoreFunc f b) = buildVolumeAttachmentStore merge b \<and>
   buildVPAStore merge (WithGenerateStoreFunc f b) = buildVPAStore merge b \<and>
   buildLeases merge (WithGenerateStoreFunc f b) = buildLeases merge b \<and>
   buildPodStore merge (WithGenerateStoreFunc (Custom_store_func g) b) =
     Inr (g podMetricFamilies (Ptr_to core_v1 ''Pod'') createPodListWatch)"
  by (simp add: constructor_defs WithGenerateStoreFunc_def buildStore_def reflector_lw_def call_buildStoreFunc_def Let_def)

text \<open>
  A store's reflector sees its shard of the cluster: over all namespaces, its list has exactly those
  objects of the API's list that hash to the builder's shard, and one successful list call is counted
  for the resource.
\<close>

lemma reflector_lists_its_shard:
  assumes "b_namespaces b = [NamespaceAll]"
    and "lw_List (listWatchFunc (kubeClient b) NamespaceAll) opts (w, m) = (Inr l, (w1, m1))" "list_all has_meta (Items l)"
  shows "\<exists>l'. lw_List (reflector_lw merge b t listWatchFunc) opts (w, m) =
      (Inr l', (w1, m1\<lparr>ListTotal := Inc ''success'' (type_String t) (ListTotal m1)\<rparr>)) \<and>
    Items l' = filter (keep_obj (shard b) (totalShards b)) (Items l)"
proof -
  let ?lw = "NewInstrumentedListerWatcher (listWatchFunc (kubeClient b) NamespaceAll) (type_String t)"
  have "reflector_lw merge b t listWatchFunc = NewShardedListWatch (shard b) (totalShards b) ?lw"
    using assms(1) by (simp add: reflector_lw_def MultiNamespaceListerWatcher_def IsAllNamespaces_def newDenylistListerWatcher_def)
  moreover have "lw_List ?lw opts (w, m) = (Inr l, (w1, m1\<lparr>ListTotal := Inc ''success'' (type_String t) (ListTotal m1)\<rparr>))"
    using assms(2) by (simp add: NewInstrumentedListerWatcher_def instrumented_List_def)
  ultimately show ?thesis using sharded.list_items assms(3) by metis
qed

lemma reflector_watches_its_shard:
  assumes "b_namespaces b = [NamespaceAll]"
    and "lw_Watch (listWatchFunc (kubeClient b) NamespaceAll) opts (w, m) = (Inr evs, (w1, m1))" "events_meta evs"
  shows "lw_Watch (reflector_lw merge b t listWatchFunc) opts (w, m) =
    (Inr (filter (\<lambda>e. keep_obj (shard b) (totalShards b) (ev_Object e)) evs),
     (w1, m1\<lparr>WatchTotal := Inc ''success'' (type_String t) (WatchTotal m1)\<rparr>))"
proof -
  let ?lw = "NewInstrumentedListerWatcher (listWatchFunc (kubeClient b) NamespaceAll) (type_String t)"
  have "reflector_lw merge b t listWatchFunc = NewShardedListWatch (shard b) (totalShards b) ?lw"
    using assms(1) by (simp add: reflector_lw_def MultiNamespaceListerWatcher_def IsAllNamespaces_def newDenylistListerWatcher_def)
  moreover have "lw_Watch ?lw opts (w, m) = (Inr evs, (w1, m1\<lparr>WatchTotal := Inc ''success'' (type_String t) (WatchTotal m1)\<rparr>))"
    using assms(2) by (simp add: NewInstrumentedListerWatcher_def instrumented_Watch_def)
  ultimately show ?thesis using sharded.watch_events assms(3) by metis
qed

definition one_object_lw :: "unit world ListerWatcher" where
  "one_object_lw = \<lparr>lw_List = (\<lambda>opts w. (Inr \<lparr>list_ResourceVersion = ''5'', Items = [demo_obj ''a'']\<rparr>, w)),
     lw_Watch = (\<lambda>opts w. (Inr [], w))\<rparr>"

end
