(* ===== verification/Float_Text.thy ===== *)
theory Float_Text
  imports Metric
begin

text \<open>
  The text of a float64: \<open>writeFloat\<close> uses only a few characters, and what it writes reads back.
  \<open>strconv.ParseFloat\<close> of the text is the value again, for every value of the type, special values,
  subnormals and both formats included. The digits come from the shortest decimal that rounds to the
  value, so the proof follows the decimal through the two formats and the reader.
\<close>

subsection \<open>The characters of a value\<close>

lemma shortest_from_pos: "0 < n \<Longrightarrow> x \<noteq> 0 \<Longrightarrow> 0 < shortest_from x n k r"
proof (induction r)
  case (Suc r)
  define p :: int where "p = 10 ^ Suc r"
  have p: "0 < p" by (simp add: p_def)
  have t: "0 \<le> n div p" using Suc.prems p by (simp add: pos_imp_zdiv_nonneg_iff)
  have zero: "\<not> reads_back x 0 k" using Suc.prems by (simp add: reads_back_def round_f64_def)
  have down: "0 < n div p * p" if "reads_back x (n div p * p) k"
    using that zero t p by (metis mult_nonneg_nonneg less_le order_less_imp_le)
  have up: "0 < (n div p + 1) * p" using t p by simp
  show ?case
    unfolding shortest_from.simps(2) Let_def p_def[symmetric]
    using down up Suc.IH[OF Suc.prems] by (simp split: if_split)
qed simp

lemma shortest_decimal_pos: "x \<noteq> 0 \<Longrightarrow> 0 < fst (shortest_decimal \<bar>x\<bar>)"
proof -
  assume x: "x \<noteq> 0"
  obtain n d where q: "quotient_of \<bar>x\<bar> = (n, d)" by (cases "quotient_of \<bar>x\<bar>")
  have "0 < (of_int n :: rat) / of_int d" using x quotient_of_div[OF q] by simp
  then have "0 < n" using quotient_of_denom_pos[OF q] by (simp add: zero_less_divide_iff)
  then show ?thesis
    using x by (simp add: shortest_decimal_def exact_decimal_def q shortest_from_pos)
qed

definition value_char :: "char \<Rightarrow> bool" where
  "value_char c \<longleftrightarrow> is_digit c \<or> c \<in> set ''+-.eINafn''"

lemma value_char_digit: "is_digit c \<Longrightarrow> value_char c"
  by (simp add: value_char_def)

lemma value_char_simps [simp]:
  "value_char (CHR ''+'')" "value_char (CHR ''-'')" "value_char (CHR ''.'')" "value_char (CHR ''e'')" "value_char (CHR ''0'')"
  by (simp_all add: value_char_def is_digit_def)

lemma trim_zeros_set: "set (trim_zeros s) \<subseteq> set s"
  by (auto simp: trim_zeros_def dest: set_dropWhileD)

lemma trim_zeros_not_Nil: "c \<in> set s \<Longrightarrow> c \<noteq> CHR ''0'' \<Longrightarrow> trim_zeros s \<noteq> []"
  by (auto simp: trim_zeros_def dropWhile_eq_Nil_conv)

lemma int_of_digits_zeros: "\<forall>c \<in> set s. c = CHR ''0'' \<Longrightarrow> int_of_digits s = 0"
proof -
  have "foldl (\<lambda>v c. 10 * v + digit_val c) 0 s = 0" if "\<forall>c \<in> set s. c = CHR ''0''" for s
    using that by (induction s) (auto simp: digit_val_def)
  then show "\<forall>c \<in> set s. c = CHR ''0'' \<Longrightarrow> int_of_digits s = 0" by (simp add: int_of_digits_def)
qed

lemma dec_digits_trim: "0 < n \<Longrightarrow> trim_zeros (dec_digits n) \<noteq> []"
  by (metis int_of_digits_dec_digits int_of_digits_zeros less_imp_le order_less_irrefl trim_zeros_not_Nil)

lemma value_char_dec: "0 \<le> n \<Longrightarrow> c \<in> set (dec_digits n) \<Longrightarrow> value_char c"
  using dec_digits_are_digits[of n] by (auto simp: list_all_iff value_char_def)

lemma fmtE_chars: "ds \<noteq> [] \<Longrightarrow> list_all value_char ds \<Longrightarrow> list_all value_char (fmtE ds dp)"
  by (cases ds) (auto simp: fmtE_def Let_def list_all_iff intro: value_char_dec[of "\<bar>dp - 1\<bar>"])

lemma fmtF_chars: "list_all value_char ds \<Longrightarrow> list_all value_char (fmtF ds dp)"
  by (auto simp: fmtF_def list_all_iff dest: in_set_takeD in_set_dropD)

lemma format_g_chars:
  assumes "x \<noteq> 0"
  shows "list_all value_char (format_g x)"
proof -
  obtain c k where ck: "shortest_decimal \<bar>x\<bar> = (c, k)" by (cases "shortest_decimal \<bar>x\<bar>")
  have c: "0 < c" using shortest_decimal_pos[OF assms] ck by simp
  have "list_all value_char (trim_zeros (dec_digits c))"
    using trim_zeros_set[of "dec_digits c"] value_char_dec[of c] c by (auto simp: list_all_iff)
  then show ?thesis
    using dec_digits_trim[OF c] by (simp add: format_g_def ck Let_def fmtE_chars fmtF_chars)
qed

lemma writeFloat_chars: "list_all value_char (writeFloat v)"
  by (cases v) (auto simp: writeFloat_def format_g_chars value_char_def is_digit_def split: bool.splits)

lemma value_char_not_newline: "value_char c \<Longrightarrow> c \<noteq> newline"
  by (auto simp: value_char_def is_digit_def)

lemma writeFloat_no_newline: "newline \<notin> set (writeFloat v)"
  using writeFloat_chars[of v] value_char_not_newline by (auto simp: list_all_iff)

subsection \<open>The shortest decimal\<close>

lemma dvd_twopow:
  assumes "(d :: int) dvd 2 ^ a" "0 < d"
  shows "\<exists>j \<le> a. d = 2 ^ j"
  using assms
proof (induction a arbitrary: d)
  case 0
  then show ?case by (auto simp: zdvd1_eq)
next
  case (Suc a)
  show ?case
  proof (cases "even d")
    case True
    then obtain d' where d: "d = 2 * d'" by (rule evenE)
    then have "\<exists>j \<le> a. d' = 2 ^ j" using Suc by auto
    then show ?thesis using d by (auto intro: exI[of _ "Suc _"])
  next
    case False
    then have "coprime d (2 ^ Suc a)" by simp
    then have "is_unit d" using Suc.prems(1) by (metis coprime_absorb_left)
    then have "d = 1" using Suc.prems(2) by (simp add: zdvd1_eq)
    then show ?thesis by (auto intro: exI[of _ 0])
  qed
qed

lemma rep_denominator:
  assumes "rep_f64 x" "quotient_of x = (n, d)"
  shows "\<exists>j \<le> 1074. d = 2 ^ j"
proof -
  obtain m k where x: "x = of_int m * pow2 k" "- 1074 \<le> k" using assms(1) by (auto simp: rep_f64_def)
  have d: "0 < d" "coprime n d" "x = of_int n / of_int d"
    using quotient_of_denom_pos[OF assms(2)] quotient_of_coprime[OF assms(2)] quotient_of_div[OF assms(2)] by auto
  have "x * pow2 1074 = of_int m * pow2 (k + 1074)" using x by (simp add: pow2_add)
  also have "\<dots> = of_int (m * 2 ^ nat (k + 1074))" using x(2) by (simp add: pow2_def)
  finally have i: "x * pow2 1074 = of_int (m * 2 ^ nat (k + 1074))" .
  have p: "pow2 1074 = of_int (2 ^ 1074)" by (simp add: pow2_def)
  have "(of_int n :: rat) * of_int (2 ^ 1074) = of_int (m * 2 ^ nat (k + 1074)) * of_int d"
    using i d(1,3) unfolding p by (simp add: divide_eq_eq)
  then have "(of_int (n * 2 ^ 1074) :: rat) = of_int (m * 2 ^ nat (k + 1074) * d)" by (simp only: of_int_mult)
  then have "n * 2 ^ 1074 = m * 2 ^ nat (k + 1074) * d" by (simp only: of_int_eq_iff)
  then have "d dvd n * 2 ^ 1074" by (metis dvd_triv_right)
  then have "d dvd 2 ^ 1074" using d(2) by (simp only: coprime_dvd_mult_right_iff coprime_commute)
  from dvd_twopow[OF this d(1)] show ?thesis .
qed

lemma exact_decimal_exact:
  assumes "rep_f64 x" "exact_decimal x = (n, k)"
  shows "of_int n / of_int (10 ^ k) = x" "k \<le> 1074"
proof -
  obtain m d where q: "quotient_of x = (m, d)" by (cases "quotient_of x")
  obtain j where j: "j \<le> 1074" "d = 2 ^ j" using rep_denominator[OF assms(1) q] by blast
  have "bitlen (2 ^ j) = int j + 1" using bitlen_twopow_add_eq[of 0 j] by simp
  then have "frac_bits x = j" by (simp add: frac_bits_def q j(2))
  then have nk: "n = m * 5 ^ j" "k = j" using assms(2) by (auto simp: exact_decimal_def q)
  show "k \<le> 1074" using j(1) nk(2) by simp
  have "(10 :: rat) ^ j = 2 ^ j * 5 ^ j" by (simp flip: power_mult_distrib)
  then show "of_int n / of_int (10 ^ k) = x"
    using quotient_of_div[OF q] by (simp add: nk j(2))
qed

lemma shortest_from_reads_back: "reads_back x n k \<Longrightarrow> reads_back x (shortest_from x n k r) k"
  by (induction r) (auto simp: Let_def simp del: power_Suc)

lemma shortest_decimal_reads_back:
  assumes "rep_f64 x" "shortest_decimal x = (c, k)"
  shows "reads_back x c k"
proof -
  obtain n k' where e: "exact_decimal x = (n, k')" by (cases "exact_decimal x")
  then have "reads_back x n k'"
    using exact_decimal_exact(1)[OF assms(1) e] round_f64_exact[OF assms(1)] by (simp add: reads_back_def)
  from shortest_from_reads_back[OF this] show ?thesis
    using assms(2) e by (auto simp: shortest_decimal_def)
qed

lemma shortest_from_le: "0 < n \<Longrightarrow> 10 ^ r \<le> n \<Longrightarrow> shortest_from x n k r \<le> 2 * n"
proof (induction r)
  case (Suc r)
  define p :: int where "p = 10 ^ Suc r"
  have p: "0 < p" "p \<le> n" using Suc.prems by (simp_all add: p_def)
  have down: "n div p * p \<le> n" using p by (metis minus_mod_eq_div_mult pos_mod_sign diff_le_eq add_increasing2 order_refl)
  then have up: "(n div p + 1) * p \<le> 2 * n" using p by (simp add: algebra_simps)
  have "(10 :: int) ^ r \<le> 10 ^ Suc r" by (rule power_increasing) simp_all
  then have "(10 :: int) ^ r \<le> n" using Suc.prems(2) by (rule order_trans)
  with Suc.IH[OF Suc.prems(1)] have "shortest_from x n k r \<le> 2 * n" .
  then show ?case
    unfolding shortest_from.simps(2) Let_def p_def[symmetric] using down up Suc.prems(1) by (simp split: if_split)
qed simp

lemma dec_digits_ge: "0 < n \<Longrightarrow> 10 ^ (length (dec_digits n) - 1) \<le> n"
proof (induction n rule: dec_digits.induct)
  case (1 n)
  show ?case
  proof (cases "n < 10")
    case True
    then show ?thesis using 1 by (subst dec_digits.simps) simp
  next
    case False
    then have "(10 :: int) ^ (length (dec_digits (n div 10)) - 1) \<le> n div 10" using 1 by simp
    then have "10 * (10 :: int) ^ (length (dec_digits (n div 10)) - 1) \<le> n" by linarith
    moreover have "length (dec_digits n) - 1 = Suc (length (dec_digits (n div 10)) - 1)"
      using False by (subst dec_digits.simps) (simp add: Suc_pred)
    ultimately show ?thesis by (simp only: power_Suc)
  qed
qed

subsection \<open>Digit strings\<close>

lemma foldl_digits: "foldl (\<lambda>v c. 10 * v + digit_val c) a t = a * 10 ^ length t + int_of_digits t"
proof (induction t arbitrary: a)
  case (Cons c t)
  have "int_of_digits (c # t) = digit_val c * 10 ^ length t + int_of_digits t"
    using Cons[of "10 * 0 + digit_val c"] unfolding int_of_digits_def foldl_Cons by simp
  then show ?case unfolding foldl_Cons Cons by (simp add: distrib_left distrib_right)
qed (simp add: int_of_digits_def)

lemma int_of_digits_append: "int_of_digits (s @ t) = int_of_digits s * 10 ^ length t + int_of_digits t"
  using foldl_digits[of "int_of_digits s" t] by (simp add: int_of_digits_def)

lemma int_of_digits_Nil [simp]: "int_of_digits [] = 0"
  by (simp add: int_of_digits_def)

lemma int_of_digits_Cons: "int_of_digits (c # s) = digit_val c * 10 ^ length s + int_of_digits s"
  using int_of_digits_append[of "[c]" s] by (simp add: int_of_digits_def)

lemma int_of_digits_replicate [simp]: "int_of_digits (replicate n (CHR ''0'')) = 0"
  by (rule int_of_digits_zeros) simp

lemma int_of_digits_nonneg: "list_all is_digit s \<Longrightarrow> 0 \<le> int_of_digits s"
  by (induction s) (auto simp: int_of_digits_Cons is_digit_def digit_val_def)

lemma trim_zeros_split: "\<exists>z. s = trim_zeros s @ replicate z (CHR ''0'')"
proof -
  let ?z = "takeWhile (\<lambda>c. c = CHR ''0'') (rev s)"
  have "s = trim_zeros s @ rev ?z"
    unfolding trim_zeros_def rev_append[symmetric] takeWhile_dropWhile_id by simp
  moreover have "rev ?z = replicate (length ?z) (CHR ''0'')"
    by (rule replicate_length_same[symmetric, of "rev ?z" "CHR ''0''", simplified]) (auto dest: set_takeWhileD)
  ultimately show ?thesis by metis
qed

subsection \<open>Reading digits\<close>

lemma digit_plain: "is_digit c \<Longrightarrow> c \<noteq> CHR ''_'' \<and> c \<noteq> CHR ''.'' \<and> c \<noteq> CHR ''-'' \<and> c \<noteq> CHR ''+'' \<and> hex_val c = digit_val c"
  by (auto simp: is_digit_def hex_val_def)

lemma read_mantissa_digits:
  "list_all is_digit ds \<Longrightarrow> read_mantissa False m (ds @ s) =
    read_mantissa False (m\<lparr>mant := mant m * 10 ^ length ds + int_of_digits ds,
      fracd := (if sawdot m then fracd m + length ds else fracd m), sawdigits := sawdigits m \<or> ds \<noteq> []\<rparr>) s"
proof (induction ds arbitrary: m)
  case (Cons c ds)
  then show ?case using digit_plain[of c] by (simp add: int_of_digits_Cons algebra_simps)
qed simp

lemma read_exp_digits_all:
  "list_all is_digit ds \<Longrightarrow> 0 \<le> e \<Longrightarrow> e * 10 ^ length ds + int_of_digits ds < 10000 \<Longrightarrow>
   read_exp_digits e us ds = (e * 10 ^ length ds + int_of_digits ds, us, [])"
proof (induction ds arbitrary: e)
  case (Cons c ds)
  have "e * 1 \<le> e * 10 ^ length (c # ds)" using Cons.prems(2) by (intro mult_left_mono one_le_power) simp_all
  then have "e < 10000" using Cons.prems(3) int_of_digits_nonneg[OF Cons.prems(1)] by linarith
  moreover have "0 \<le> digit_val c" using Cons.prems(1) by (simp add: is_digit_def digit_val_def)
  moreover have "(10 * e + digit_val c) * 10 ^ length ds + int_of_digits ds = e * 10 ^ length (c # ds) + int_of_digits (c # ds)"
    by (simp add: int_of_digits_Cons algebra_simps)
  ultimately show ?case
    using Cons.IH[of "10 * e + digit_val c"] Cons.prems digit_plain[of c] by simp
qed simp

lemma value_char_not_x: "value_char c \<Longrightarrow> \<not> lower_is c (CHR ''x'')"
  by (auto simp: value_char_def is_digit_def lower_is_def lower_char_def
      dest: arg_cong[of _ _ "of_char :: char \<Rightarrow> nat"])

text \<open>A number as \<open>format_g\<close> writes it: integer digits, fraction digits and perhaps an exponent.\<close>

definition number_text :: "string \<Rightarrow> string \<Rightarrow> string \<Rightarrow> string" where
  "number_text ip fp ex = ip @ (if fp = [] then [] else CHR ''.'' # fp) @ ex"

definition exponent_text :: "int \<Rightarrow> string \<Rightarrow> bool" where
  "exponent_text e ex \<longleftrightarrow> ex = [] \<and> e = 0 \<or>
     (\<exists>ds. ex = CHR ''e'' # (if e < 0 then CHR ''-'' else CHR ''+'') # ds \<and> ds \<noteq> [] \<and> list_all is_digit ds \<and>
        int_of_digits ds = \<bar>e\<bar> \<and> \<bar>e\<bar> < 10000)"

lemma read_exponent_text:
  assumes "exponent_text e ex"
  shows "read_exponent False ex = Some (e, False, [])"
proof -
  consider "ex = []" "e = 0" | ds where "ex = CHR ''e'' # (if e < 0 then CHR ''-'' else CHR ''+'') # ds" "ds \<noteq> []"
    "list_all is_digit ds" "int_of_digits ds = \<bar>e\<bar>" "\<bar>e\<bar> < 10000"
    using assms by (auto simp: exponent_text_def)
  then show ?thesis
  proof cases
    case (2 ds)
    then have "read_exp_digits 0 False ds = (\<bar>e\<bar>, False, [])" using read_exp_digits_all[of ds 0 False] by simp
    moreover have "is_digit (hd ds)" using 2 by (cases ds) auto
    moreover have "lower_is (CHR ''e'') (CHR ''e'')" by (simp add: lower_is_def lower_char_def)
    ultimately show ?thesis using 2 by (auto simp: read_exponent_def strip_sign_def Let_def)
  qed (simp add: read_exponent_def)
qed

lemma readFloat_number:
  assumes "ip \<noteq> []" "list_all is_digit (ip @ fp)" "exponent_text e ex"
  shows "readFloat (number_text ip fp ex) = Some (of_int (int_of_digits (ip @ fp)) * pow10 (e - int (length fp)))"
    "readFloat (CHR ''-'' # number_text ip fp ex) =
      Some (- (of_int (int_of_digits (ip @ fp)) * pow10 (e - int (length fp))))"
proof -
  let ?t = "number_text ip fp ex" and ?m0 = "\<lparr>mant = 0, fracd = 0, sawdot = False, sawdigits = False, underscores = False\<rparr>"
  obtain c ip' where ip: "ip = c # ip'" "is_digit c" using assms(1,2) by (cases ip) auto
  have sign: "?t \<noteq> []" "hd ?t \<noteq> CHR ''-''" "hd ?t \<noteq> CHR ''+''"
    using ip digit_plain[of c] by (auto simp: number_text_def)
  have "list_all value_char ?t"
    using assms by (auto simp: number_text_def exponent_text_def list_all_iff value_char_digit)
  then have hex: "\<not> (2 < length ?t \<and> lower_is (?t ! 1) (CHR ''x''))"
    using value_char_not_x by (auto simp: list_all_length)
  have stop: "read_mantissa False m ex = Some (m, ex)" for m
    using assms(3) by (auto simp: exponent_text_def is_digit_def)
  have mant: "read_mantissa False ?m0 ?t = Some (\<lparr>mant = int_of_digits (ip @ fp), fracd = length fp, sawdot = fp \<noteq> [],
      sawdigits = True, underscores = False\<rparr>, ex)"
    using assms(1,2) read_mantissa_digits[of ip ?m0] read_mantissa_digits[of fp]
    by (auto simp: number_text_def stop int_of_digits_append)
  show "readFloat ?t = Some (of_int (int_of_digits (ip @ fp)) * pow10 (e - int (length fp)))"
    using sign hex mant read_exponent_text[OF assms(3)] by (auto simp: readFloat_def strip_sign_def Let_def)
  show "readFloat (CHR ''-'' # ?t) = Some (- (of_int (int_of_digits (ip @ fp)) * pow10 (e - int (length fp))))"
    using sign hex mant read_exponent_text[OF assms(3)] by (auto simp: readFloat_def strip_sign_def Let_def)
qed

subsection \<open>The two formats\<close>

lemma pow10_powi: "pow10 e = 10 powi e"
  by (simp add: pow10_def power_int_def inverse_eq_divide power_one_over)

lemma pow10_diff: "pow10 (int a - int b) = 10 ^ a / 10 ^ b"
  by (simp add: pow10_powi power_int_diff)

text \<open>The trimmed digits, with the position of the point, denote the decimal.\<close>

lemma trimmed_value:
  assumes "0 \<le> c" "ds = trim_zeros (dec_digits c)" "dp = int (length (dec_digits c)) - int k"
  shows "of_int (int_of_digits ds) * pow10 (dp - int (length ds)) = of_int c / of_int (10 ^ k)"
proof -
  obtain z where z: "dec_digits c = ds @ replicate z (CHR ''0'')" using trim_zeros_split assms(2) by blast
  have "c = int_of_digits ds * 10 ^ z"
    using int_of_digits_dec_digits[OF assms(1)] by (simp add: z int_of_digits_append)
  moreover have "dp - int (length ds) = int z - int k" by (simp add: assms(3) z)
  ultimately show ?thesis by (simp add: pow10_diff)
qed

lemma fmtE_number:
  assumes "ds \<noteq> []" "list_all is_digit ds" "\<bar>dp - 1\<bar> < 10000"
  shows "\<exists>ip fp ex e. fmtE ds dp = number_text ip fp ex \<and> ip \<noteq> [] \<and> list_all is_digit (ip @ fp) \<and> exponent_text e ex \<and>
    of_int (int_of_digits (ip @ fp)) * pow10 (e - int (length fp)) = of_int (int_of_digits ds) * pow10 (dp - int (length ds))"
proof -
  obtain c s where ds: "ds = c # s" using assms(1) by (cases ds) auto
  let ?m = "dec_digits \<bar>dp - 1\<bar>"
  let ?ex = "CHR ''e'' # (if dp - 1 < 0 then CHR ''-'' else CHR ''+'') # (if length ?m < 2 then CHR ''0'' # ?m else ?m)"
  have "fmtE ds dp = number_text [c] s ?ex" by (simp add: fmtE_def number_text_def ds Let_def)
  moreover have "exponent_text (dp - 1) ?ex"
    using assms(3) dec_digits_are_digits[of "\<bar>dp - 1\<bar>"]
    by (auto simp: exponent_text_def int_of_digits_Cons is_digit_def digit_val_def)
  moreover have "dp - 1 - int (length s) = dp - int (length ds)" by (simp add: ds)
  ultimately have "fmtE ds dp = number_text [c] s ?ex \<and> [c] \<noteq> [] \<and> list_all is_digit ([c] @ s) \<and> exponent_text (dp - 1) ?ex \<and>
      of_int (int_of_digits ([c] @ s)) * pow10 (dp - 1 - int (length s)) =
      of_int (int_of_digits ds) * pow10 (dp - int (length ds))"
    using assms(2) ds by (simp add: diff_diff_eq)
  then show ?thesis by blast
qed

lemma fmtF_number:
  assumes "ds \<noteq> []" "list_all is_digit ds"
  shows "\<exists>ip fp. fmtF ds dp = number_text ip fp [] \<and> ip \<noteq> [] \<and> list_all is_digit (ip @ fp) \<and>
    of_int (int_of_digits (ip @ fp)) * pow10 (- int (length fp)) = of_int (int_of_digits ds) * pow10 (dp - int (length ds))"
proof -
  have zero: "is_digit (CHR ''0'')" by (simp add: is_digit_def)
  consider "dp \<le> 0" | "0 < dp" "nat dp < length ds" | "0 < dp" "length ds \<le> nat dp" by linarith
  then show ?thesis
  proof cases
    case 1
    let ?fp = "replicate (nat (- dp)) (CHR ''0'') @ ds"
    have "int_of_digits (''0'' @ ?fp) = int_of_digits ds"
      by (simp add: int_of_digits_Cons int_of_digits_append digit_val_def)
    moreover have "- int (length ?fp) = dp - int (length ds)" using 1 by simp
    ultimately show ?thesis
      using 1 assms zero by (intro exI[of _ "''0''"] exI[of _ ?fp]) (auto simp: fmtF_def number_text_def list_all_iff)
  next
    case 2
    then have "take (nat dp) ds \<noteq> []" "- int (length (drop (nat dp) ds)) = dp - int (length ds)" using assms(1) by auto
    then show ?thesis
      using 2 assms by (intro exI[of _ "take (nat dp) ds"] exI[of _ "drop (nat dp) ds"])
        (auto simp: fmtF_def number_text_def)
  next
    case 3
    let ?ip = "ds @ replicate (nat dp - length ds) (CHR ''0'')"
    have "int_of_digits ?ip = int_of_digits ds * 10 ^ (nat dp - length ds)" by (simp add: int_of_digits_append)
    moreover have "pow10 (dp - int (length ds)) = 10 ^ (nat dp - length ds)"
      using 3 pow10_diff[of "nat dp - length ds" 0] by (simp add: nat_diff_distrib)
    moreover have "pow10 0 = 1" by (simp add: pow10_def)
    ultimately show ?thesis
      using 3 assms zero by (intro exI[of _ ?ip] exI[of _ "[]"]) (auto simp: fmtF_def number_text_def list_all_iff)
  qed
qed

lemma rep_abs: "rep_f64 x \<Longrightarrow> rep_f64 \<bar>x\<bar>"
proof -
  assume "rep_f64 x"
  then obtain m k where "x = of_int m * pow2 k" "\<bar>m\<bar> < 2 ^ 53" "- 1074 \<le> k" "\<bar>x\<bar> < pow2 1024" by (auto simp: rep_f64_def)
  then have "\<bar>x\<bar> = of_int \<bar>m\<bar> * pow2 k" "\<bar>\<bar>m\<bar>\<bar> < 2 ^ 53" "- 1074 \<le> k" "\<bar>\<bar>x\<bar>\<bar> < pow2 1024" by (simp_all add: abs_mult)
  then show ?thesis unfolding rep_f64_def by blast
qed

text \<open>The exponent that is printed is small.\<close>

lemma point_bound:
  assumes "rep_f64 x" "0 < x" "shortest_decimal x = (c, k)"
  shows "\<bar>int (length (dec_digits c)) - int k - 1\<bar> < 10000"
proof -
  obtain n k' where e: "exact_decimal x = (n, k')" by (cases "exact_decimal x")
  note exact = exact_decimal_exact[OF assms(1) e]
  have n: "0 < n" using exact(1) assms(2) by (metis zero_less_divide_iff of_int_0_less_iff of_int_pos zero_less_numeral zero_less_power order_less_asym)
  have c: "c = shortest_from x n k (length (dec_digits n) - 1)" "k = k'"
    using assms(3) e by (auto simp: shortest_decimal_def)
  have le: "c \<le> 2 * n" unfolding c(1) by (rule shortest_from_le[OF n dec_digits_ge[OF n]])
  have pos: "0 < c" using shortest_decimal_pos[of x] assms(2,3) by simp
  have "(of_int n :: rat) = x * 10 ^ k" using exact(1) by (simp add: c(2) field_simps)
  also have "x * 10 ^ k < pow2 1024 * 10 ^ k"
    using assms(1,2) by (intro mult_strict_right_mono) (auto simp: rep_f64_def)
  also have "pow2 1024 = (2 :: rat) ^ 1024" using pow2_nat[of 1024] by (simp only: of_nat_numeral)
  also have "(2 :: rat) ^ 1024 * 10 ^ k \<le> 10 ^ 1024 * 10 ^ k"
    by (intro mult_right_mono power_mono) simp_all
  finally have "(of_int n :: rat) < of_int (10 ^ (1024 + k))" by (simp only: power_add of_int_mult of_int_power of_int_numeral)
  then have nb: "n < 10 ^ (1024 + k)" by (simp only: of_int_less_iff)
  have "(10 :: int) ^ (length (dec_digits c) - 1) \<le> c" by (rule dec_digits_ge[OF pos])
  also have "c < 10 ^ Suc (1024 + k)" using le nb n by (simp only: power_Suc)
  finally have "length (dec_digits c) - 1 < Suc (1024 + k)" by (rule power_less_imp_less_exp[rotated]) simp
  then show ?thesis using exact(2) c(2) by simp
qed

subsection \<open>Values read back\<close>

lemma format_g_number:
  assumes "rep_f64 x" "x \<noteq> 0"
  shows "\<exists>ip fp ex e. format_g x = (if x < 0 then ''-'' else []) @ number_text ip fp ex \<and> ip \<noteq> [] \<and>
    list_all is_digit (ip @ fp) \<and> exponent_text e ex \<and>
    round_f64 (of_int (int_of_digits (ip @ fp)) * pow10 (e - int (length fp))) = Fin \<bar>x\<bar>"
proof -
  obtain c k where ck: "shortest_decimal \<bar>x\<bar> = (c, k)" by (cases "shortest_decimal \<bar>x\<bar>")
  have c: "0 < c" using shortest_decimal_pos[OF assms(2)] ck by simp
  define ds where "ds = trim_zeros (dec_digits c)"
  define dp where "dp = int (length (dec_digits c)) - int k"
  have ds: "ds \<noteq> []" "list_all is_digit ds"
    using dec_digits_trim[OF c] trim_zeros_set[of "dec_digits c"] dec_digits_are_digits[of c] c
    by (auto simp: ds_def list_all_iff)
  have "\<bar>dp - 1\<bar> < 10000" using point_bound[OF rep_abs[OF assms(1)] _ ck] assms(2) by (simp add: dp_def)
  have "of_int (int_of_digits ds) * pow10 (dp - int (length ds)) = of_int c / of_int (10 ^ k)"
    using c by (intro trimmed_value) (simp_all add: ds_def dp_def)
  then have v: "round_f64 (of_int (int_of_digits ds) * pow10 (dp - int (length ds))) = Fin \<bar>x\<bar>"
    using shortest_decimal_reads_back[OF rep_abs[OF assms(1)] ck] by (simp add: reads_back_def)
  have g: "format_g x = (if x < 0 then ''-'' else []) @ (if dp - 1 < - 4 \<or> 6 \<le> dp - 1 then fmtE ds dp else fmtF ds dp)"
    by (simp add: format_g_def ck Let_def ds_def dp_def)
  show ?thesis
  proof (cases "dp - 1 < - 4 \<or> 6 \<le> dp - 1")
    case True
    obtain ip fp ex e where n: "fmtE ds dp = number_text ip fp ex" "ip \<noteq> []" "list_all is_digit (ip @ fp)" "exponent_text e ex"
      "of_int (int_of_digits (ip @ fp)) * pow10 (e - int (length fp)) = of_int (int_of_digits ds) * pow10 (dp - int (length ds))"
      using fmtE_number[OF ds \<open>\<bar>dp - 1\<bar> < 10000\<close>] by blast
    have "format_g x = (if x < 0 then ''-'' else []) @ number_text ip fp ex" using g True n(1) by simp
    then show ?thesis using n(2-5) v by metis
  next
    case False
    have "exponent_text 0 []" by (simp add: exponent_text_def)
    with False show ?thesis using fmtF_number[OF ds, of dp] g v by (fastforce intro: exI[of _ 0])
  qed
qed

lemma not_special:
  assumes "is_digit c"
  shows "map_of special_floats (ToLower (c # s)) = None" "map_of special_floats (ToLower (CHR ''-'' # c # s)) = None"
proof -
  have "lower_char c = c" "c \<noteq> CHR ''i''" "c \<noteq> CHR ''n''" "c \<noteq> CHR ''+''" "c \<noteq> CHR ''-''"
    using assms by (auto simp: is_digit_def lower_char_def)
  then show "map_of special_floats (ToLower (c # s)) = None" "map_of special_floats (ToLower (CHR ''-'' # c # s)) = None"
    by (simp_all add: special_floats_def ToLower_def lower_char_def)
qed

lemma ParseFloat_format_g:
  assumes "rep_f64 x" "x \<noteq> 0"
  shows "ParseFloat (format_g x) = Some (Fin x)"
proof -
  obtain ip fp ex e where t: "format_g x = (if x < 0 then ''-'' else []) @ number_text ip fp ex" "ip \<noteq> []"
    "list_all is_digit (ip @ fp)" "exponent_text e ex"
    "round_f64 (of_int (int_of_digits (ip @ fp)) * pow10 (e - int (length fp))) = Fin \<bar>x\<bar>"
    using format_g_number[OF assms] by blast
  obtain c s where s: "number_text ip fp ex = c # s" "is_digit c"
    using t(2,3) by (cases ip) (auto simp: number_text_def)
  note read = readFloat_number[OF t(2-4)]
  show ?thesis
  proof (cases "x < 0")
    case True
    then have "round_f64 (- (of_int (int_of_digits (ip @ fp)) * pow10 (e - int (length fp)))) = Fin x"
      using t(5) by (simp only: round_f64_minus) simp
    then show ?thesis using True t(1) s not_special(2)[OF s(2), of s] read(2) by (simp add: ParseFloat_def)
  next
    case False
    then show ?thesis using t(1,5) s not_special(1)[OF s(2), of s] read(1) by (simp add: ParseFloat_def)
  qed
qed

lemma ParseFloat_writeFloat: "f64_ok v \<Longrightarrow> ParseFloat (writeFloat v) = Some v"
proof (cases v)
  case NaN
  have "ParseFloat ''NaN'' = Some NaN" by code_simp
  then show ?thesis using NaN by (simp add: writeFloat_def)
next
  case (Inf b)
  have "ParseFloat ''+Inf'' = Some (Inf False)" "ParseFloat ''-Inf'' = Some (Inf True)" by code_simp+
  then show ?thesis using Inf by (cases b) (simp_all add: writeFloat_def)
next
  case (Fin x)
  assume ok: "f64_ok v"
  have "ParseFloat ''1'' = Some (Fin 1)" "ParseFloat ''0'' = Some (Fin 0)" "ParseFloat ''-1'' = Some (Fin (- 1))"
    by code_simp+
  then show ?thesis using Fin ok ParseFloat_format_g[of x] by (auto simp: writeFloat_def f64_ok_def)
qed

subsection \<open>Properties\<close>

text \<open>
  C39. The text of a value determines the value: for every float64, integers, fractions, values that need
  an exponent, subnormals, infinities and NaN included, Go's own parser reads the text that
  \<open>writeFloat\<close> prints back as exactly this value, so that different values never have the same text.
\<close>

theorem writeFloat_roundtrip:
  assumes "f64_ok v"
  shows "ParseFloat (writeFloat v) = Some v \<and> (\<forall>w. f64_ok w \<and> writeFloat w = writeFloat v \<longrightarrow> w = v)"
  by (metis ParseFloat_writeFloat assms option.inject)

theorem writeFloat_roundtrip_witness:
  "ParseFloat (writeFloat (round_f64 (1 / 3))) = Some (round_f64 (1 / 3))"
  using writeFloat_roundtrip[of "round_f64 (1 / 3)"] by simp

end
