(* ===== verification/Exposition.thy ===== *)
theory Exposition
  imports Float_Text
begin

text \<open>
  The text exposition format, read back. The program only writes the format; the reader below
  follows the format's grammar for sample lines (a name, labels in braces, a value) and is the
  specification against which the writer is proved: whatever bytes a label value holds, a reader
  gets exactly the labels and the value of the metric, and every metric takes exactly one line.
\<close>

subsection \<open>A reader for sample lines\<close>

text \<open>A quoted label value up to its closing quote, and the rest of the line.\<close>

fun read_value :: "string \<Rightarrow> (string \<times> string) option" where
  "read_value [] = None"
| "read_value (c # s) =
     (if c = quote then Some ([], s)
      else if c = newline then None
      else if c = backslash then
        (case s of
           [] \<Rightarrow> None
         | d # t \<Rightarrow>
             map_option (\<lambda>(v, r). ((if d = CHR ''n'' then newline else d) # v, r)) (read_value t))
      else map_option (\<lambda>(v, r). (c # v, r)) (read_value s))"

lemma read_value_shorter: "read_value s = Some (v, r) \<Longrightarrow> length r < length s"
  by (induction s arbitrary: v r rule: read_value.induct)
     (auto split: if_splits list.splits intro!: less_SucI)

text \<open>The labels between the braces.\<close>

function read_labels :: "string \<Rightarrow> ((string \<times> string) list \<times> string) option" where
  "read_labels s =
     (let k = takeWhile (\<lambda>c. c \<noteq> CHR ''='') s; t = drop (length k) s in
      if length t < 2 \<or> t ! 1 \<noteq> quote then None
      else (case read_value (drop 2 t) of
              None \<Rightarrow> None
            | Some (v, []) \<Rightarrow> None
            | Some (v, c # r) \<Rightarrow>
                (if c = CHR ''}'' then Some ([(k, v)], r)
                 else if c = CHR '','' then map_option (\<lambda>(kvs, u). ((k, v) # kvs, u)) (read_labels r)
                 else None)))"
  by pat_completeness auto
termination
  by (relation "measure length") (auto dest!: read_value_shorter)

declare read_labels.simps [simp del]

definition read_sample :: "string \<Rightarrow> (string \<times> (string \<times> string) list \<times> string) option" where
  "read_sample line =
     (let name = takeWhile (\<lambda>c. c \<noteq> CHR ''{'' \<and> c \<noteq> CHR '' '') line; t = drop (length name) line in
      case t of
        [] \<Rightarrow> None
      | c # r \<Rightarrow>
          (if c = CHR '' '' then Some (name, [], r)
           else (case read_labels r of
                   Some (kvs, d # u) \<Rightarrow> if d = CHR '' '' then Some (name, kvs, u) else None
                 | _ \<Rightarrow> None)))"

subsection \<open>Label values\<close>

lemma read_value_escape: "read_value (escapeString v @ quote # rest) = Some (v, rest)"
  by (induction v) (auto simp: escapeString_def)

lemma escape_no_newline: "newline \<notin> set (escapeString v)"
  by (induction v) (auto simp: escapeString_def)

subsection \<open>Label lists\<close>

definition key_ok :: "string \<Rightarrow> bool" where
  "key_ok k \<longleftrightarrow> CHR ''='' \<notin> set k \<and> newline \<notin> set k"

lemma takeWhile_key:
  "key_ok k \<Longrightarrow> takeWhile (\<lambda>c. c \<noteq> CHR ''='') (k @ CHR ''='' # s) = k"
  by (subst takeWhile_append2) (auto simp: key_ok_def)

lemma read_labels_text:
  "key_ok k \<Longrightarrow> list_all (\<lambda>(k, v). key_ok k) kvs \<Longrightarrow>
   read_labels (k @ [CHR ''='', quote] @ escapeString v @ [quote] @ concat (map (label_text (CHR '','')) kvs) @ ''}'' @ rest) =
     Some ((k, v) # kvs, rest)"
proof (induction kvs arbitrary: k v)
  case Nil
  then show ?case
    by (subst read_labels.simps) (simp add: takeWhile_key read_value_escape Let_def)
next
  case (Cons kv kvs)
  obtain k' v' where kv: "kv = (k', v')" by (cases kv)
  have "read_labels (k' @ [CHR ''='', quote] @ escapeString v' @ [quote] @
      concat (map (label_text (CHR '','')) kvs) @ ''}'' @ rest) = Some ((k', v') # kvs, rest)"
    using Cons kv by auto
  then show ?case
    using Cons.prems(1)
    by (subst read_labels.simps) (simp add: kv takeWhile_key read_value_escape Let_def label_text_def)
qed

definition name_ok :: "string \<Rightarrow> bool" where
  "name_ok n \<longleftrightarrow> CHR ''{'' \<notin> set n \<and> CHR '' '' \<notin> set n \<and> newline \<notin> set n"

lemma takeWhile_name:
  "name_ok n \<Longrightarrow> c = CHR ''{'' \<or> c = CHR '' '' \<Longrightarrow>
   takeWhile (\<lambda>c. c \<noteq> CHR ''{'' \<and> c \<noteq> CHR '' '') (n @ c # s) = n"
  by (subst takeWhile_append2) (auto simp: name_ok_def)

lemma read_sample_text:
  assumes "name_ok n" "list_all (\<lambda>(k, v). key_ok k) kvs"
  shows "read_sample (n @ labels_text kvs @ '' '' @ val) = Some (n, kvs, val)"
proof (cases kvs)
  case Nil
  then show ?thesis using assms(1) by (simp add: read_sample_def takeWhile_name Let_def)
next
  case (Cons kv rest)
  obtain k v where kv: "kv = (k, v)" by (cases kv)
  have "read_labels (k @ [CHR ''='', quote] @ escapeString v @ [quote] @
      concat (map (label_text (CHR '','')) rest) @ ''}'' @ '' '' @ val) = Some ((k, v) # rest, '' '' @ val)"
    using assms(2) Cons kv by (intro read_labels_text) auto
  then show ?thesis
    using assms(1) Cons kv by (simp add: read_sample_def takeWhile_name Let_def label_text_def)
qed

subsection \<open>Families\<close>

text \<open>A sample line without its newline.\<close>

definition sample_line :: "string \<Rightarrow> Metric \<Rightarrow> string" where
  "sample_line n m = n @ labels_text (zip (LabelKeys m) (LabelValues m)) @ '' '' @ writeFloat (Value m)"

lemma labels_text_no_newline:
  "list_all (\<lambda>(k, v). key_ok k) kvs \<Longrightarrow> newline \<notin> set (labels_text kvs)"
  by (cases kvs) (auto simp: label_text_def key_ok_def list_all_iff dest: escape_no_newline[THEN notE])

lemma Split_lines:
  "(\<And>l. l \<in> set ls \<Longrightarrow> newline \<notin> set l) \<Longrightarrow> Split newline (concat (map (\<lambda>l. l @ [newline]) ls)) = ls @ [[]]"
  by (induction ls) (auto simp: Split_append)

lemma family_lines:
  "concat (map (\<lambda>m. n @ sample_text m) ms) = concat (map (\<lambda>l. l @ [newline]) (map (sample_line n) ms))"
  by (induction ms) (auto simp: sample_text_def sample_line_def)

lemma ByteSlice_lines:
  assumes "wf_family f"
  shows "ByteSlice f = Inr (concat (map (\<lambda>l. l @ [newline]) (map (sample_line (fam_Name f)) (Metrics f))))"
  using ByteSlice_wf[OF assms] by (simp only: family_lines)

end
