(* ===== verification/Scrape.thy ===== *)
theory Scrape
  imports Builder Exposition
begin

text \<open>
  A whole scrape, read back. The exposition format also has header lines: \<open># HELP\<close> with a name and
  a text, \<open># TYPE\<close> with a name and a type, other lines that start with \<open>#\<close> are comments; the
  value of a sample is read with \<open>strconv.ParseFloat\<close>. The
  theorems say what a reader of the format gets from the text that \<open>WriteAll\<close> writes for a store:
  the headers of the families in order, and below each header exactly the samples of the objects
  that the store mirrors.
\<close>

subsection \<open>A reader for scrapes\<close>

datatype line =
    Help_line string string
  | Type_line string string
  | Sample_line string "(string \<times> string) list" float64
  | Comment_line string

definition read_header :: "string \<Rightarrow> string \<times> string" where
  "read_header s = (let n = takeWhile (\<lambda>c. c \<noteq> CHR '' '') s in (n, drop (Suc (length n)) s))"

definition read_line :: "string \<Rightarrow> line option" where
  "read_line l =
     (if HasPrefix l ''# HELP '' then (case read_header (drop 7 l) of (n, h) \<Rightarrow> Some (Help_line n h))
      else if HasPrefix l ''# TYPE '' then (case read_header (drop 7 l) of (n, t) \<Rightarrow> Some (Type_line n t))
      else if HasPrefix l ''#'' then Some (Comment_line l)
      else (case read_sample l of
              None \<Rightarrow> None
            | Some (n, kvs, v) \<Rightarrow> map_option (Sample_line n kvs) (ParseFloat v)))"

fun read_lines :: "string list \<Rightarrow> line list option" where
  "read_lines [] = Some []"
| "read_lines (l # ls) =
     (case read_line l of
        None \<Rightarrow> None
      | Some x \<Rightarrow> map_option (Cons x) (read_lines ls))"

definition read_exposition :: "string \<Rightarrow> line list option" where
  "read_exposition s = read_lines (butlast (Split newline s))"

subsection \<open>Lines\<close>

fun print_line :: "line \<Rightarrow> string" where
  "print_line (Help_line n h) = ''# HELP '' @ n @ '' '' @ h"
| "print_line (Type_line n t) = ''# TYPE '' @ n @ '' '' @ t"
| "print_line (Sample_line n kvs v) = n @ labels_text kvs @ '' '' @ writeFloat v"
| "print_line (Comment_line l) = l"

fun line_ok :: "line \<Rightarrow> bool" where
  "line_ok (Help_line n h) \<longleftrightarrow> valid_name n \<and> newline \<notin> set h"
| "line_ok (Type_line n t) \<longleftrightarrow> valid_name n \<and> newline \<notin> set t"
| "line_ok (Sample_line n kvs v) \<longleftrightarrow> valid_name n \<and> list_all (\<lambda>(k, v). valid_name k) kvs \<and> f64_ok v"
| "line_ok (Comment_line l) \<longleftrightarrow> False"

lemma name_char_plain:
  assumes "name_char c"
  shows "c \<noteq> CHR ''='' \<and> c \<noteq> CHR ''{'' \<and> c \<noteq> CHR '' '' \<and> c \<noteq> newline \<and> c \<noteq> CHR ''#''"
  using assms by (auto simp: name_char_def byte_in_def)

lemma valid_name_plain: "valid_name n \<Longrightarrow> key_ok n \<and> name_ok n"
  using valid_name_chars[of n] name_char_plain by (fastforce simp: key_ok_def name_ok_def list_all_iff)

lemma valid_name_no_hash: "valid_name n \<Longrightarrow> \<not> HasPrefix (n @ s) (CHR ''#'' # p)"
  using name_char_plain by (cases n) (auto simp: HasPrefix_def name_start_def)

lemma keys_plain: "list_all (\<lambda>(k, v). valid_name k) kvs \<Longrightarrow> list_all (\<lambda>(k, v). key_ok k) kvs"
  using valid_name_plain by (auto simp: list_all_iff)

lemma read_header_append:
  assumes "valid_name n"
  shows "read_header (n @ CHR '' '' # h) = (n, h)"
proof -
  have "CHR '' '' \<notin> set n" using valid_name_plain[OF assms] by (simp add: name_ok_def)
  then have "takeWhile (\<lambda>c. c \<noteq> CHR '' '') (n @ CHR '' '' # h) = n" by (subst takeWhile_append2) auto
  then show ?thesis by (simp add: read_header_def)
qed

lemma read_print_line: "line_ok l \<Longrightarrow> read_line (print_line l) = Some l"
proof (cases l)
  case (Sample_line n kvs v)
  assume "line_ok l"
  then have "valid_name n" "list_all (\<lambda>(k, v). key_ok k) kvs" "ParseFloat (writeFloat v) = Some v"
    using Sample_line keys_plain ParseFloat_writeFloat by auto
  then show ?thesis
    using Sample_line valid_name_no_hash valid_name_plain read_sample_text[of n kvs "writeFloat v"] by (simp add: read_line_def)
qed (auto simp: read_line_def read_header_append HasPrefix_def)

lemma print_line_no_newline: "line_ok l \<Longrightarrow> newline \<notin> set (print_line l)"
proof (cases l)
  case (Sample_line n kvs v)
  assume "line_ok l"
  then show ?thesis
    using Sample_line labels_text_no_newline[OF keys_plain, of kvs] valid_name_plain[of n] writeFloat_no_newline[of v] by (auto simp: name_ok_def)
qed (auto simp: name_ok_def dest!: valid_name_plain)

definition text_of :: "line list \<Rightarrow> string" where
  "text_of ls = concat (map (\<lambda>l. print_line l @ [newline]) ls)"

lemma text_of_simps [simp]:
  "text_of [] = []" "text_of (l # ls) = print_line l @ [newline] @ text_of ls"
  "text_of (ls @ ls') = text_of ls @ text_of ls'"
  by (simp_all add: text_of_def)

lemma text_of_concat: "text_of (concat lss) = concat (map text_of lss)"
  by (induction lss) auto

lemma read_lines_print: "list_all line_ok ls \<Longrightarrow> read_lines (map print_line ls) = Some ls"
  by (induction ls) (auto simp: read_print_line)

lemma read_exposition_text_of: "list_all line_ok ls \<Longrightarrow> read_exposition (text_of ls) = Some ls"
proof -
  assume ok: "list_all line_ok ls"
  then have "Split newline (concat (map (\<lambda>l. l @ [newline]) (map print_line ls))) = map print_line ls @ [[]]"
    by (intro Split_lines) (auto simp: list_all_iff print_line_no_newline)
  then have "Split newline (text_of ls) = map print_line ls @ [[]]" by (simp add: text_of_def comp_def)
  then show ?thesis using read_lines_print[OF ok] by (simp add: read_exposition_def)
qed

subsection \<open>Families and headers as lines\<close>

definition sample_lines :: "Family \<Rightarrow> line list" where
  "sample_lines f =
     map (\<lambda>m. Sample_line (fam_Name f) (zip (LabelKeys m) (LabelValues m)) (Value m)) (Metrics f)"

lemma sample_lines_ok: "valid_family f \<Longrightarrow> valid_name (fam_Name f) \<Longrightarrow> list_all line_ok (sample_lines f)"
  by (auto simp: sample_lines_def valid_family_def valid_metrics_def valid_metric_def list_all_iff dest: set_zip_leftD)

lemma ByteSlice_text_of: "wf_family f \<Longrightarrow> ByteSlice f = Inr (text_of (sample_lines f))"
  by (simp add: ByteSlice_lines text_of_def sample_lines_def sample_line_def comp_def)

lemma generateHeader_text_of:
  "generateHeader g @ [newline] = text_of [Help_line (gen_Name g) (gen_Help g), Type_line (gen_Name g) (gen_Type g)]"
  by (simp add: generateHeader_def)

lemma header_lines_ok:
  "header_ok (gen_Name g) (gen_Help g) (gen_Type g) \<Longrightarrow>
   line_ok (Help_line (gen_Name g) (gen_Help g)) \<and> line_ok (Type_line (gen_Name g) (gen_Type g))"
  by (auto simp: header_ok_def Gauge_def Counter_def)

subsection \<open>What a store's text says\<close>

text \<open>The store runs the given generators.\<close>

definition runs_gens :: "kobject FamilyGenerator list \<Rightarrow> MetricsStore \<Rightarrow> bool" where
  "runs_gens gens s \<longleftrightarrow>
     headers s = ExtractMetricFamilyHeaders gens \<and> generateMetricsFunc s = ComposeMetricGenFuncs gens"

text \<open>The family that a generator yields for an object, as lines.\<close>

definition object_lines :: "kobject FamilyGenerator \<Rightarrow> kobject \<Rightarrow> line list" where
  "object_lines g obj = sample_lines (projr (Generate g obj))"

lemma mirrors_entry:
  assumes "mirrors s objs" "(uid, fs) \<in> set (metrics s)"
  shows "\<exists>obj. objs uid = Some obj \<and> render s obj = Inr fs"
proof -
  have "map_of (metrics s) uid = Some fs"
    using assms by (intro map_of_is_SomeI) (auto simp: mirrors_def gomap_ok_def)
  then obtain obj where obj: "objs uid = Some obj" "fs = projr (render s obj)"
    using assms(1) by (auto simp: mirrors_def)
  then have "accepts s obj" using assms(1) by (simp add: mirrors_def)
  then show ?thesis using obj by (auto simp: accepts_def returns_iff)
qed

lemma render_lines:
  assumes "runs_gens gens s" "list_all (\<lambda>g. gen_sound g obj) gens" "render s obj = Inr fs" "i < length gens"
  shows "fs ! i = text_of (object_lines (gens ! i) obj)"
proof -
  obtain fams where fams: "ComposeMetricGenFuncs gens obj = Inr fams" "go_mapM ByteSlice fams = Inr fs"
    using assms(1,3) by (auto simp: render_def runs_gens_def go_bind_Inr_iff)
  obtain f where f: "Generate (gens ! i) obj = Inr f" "valid_family f"
    using gen_sound_Generate[of "gens ! i" obj] assms(2,4) by (auto simp: list_all_iff)
  have "Generate (gens ! i) obj = Inr (fams ! i)"
    using go_mapM_nth[OF fams(1)[unfolded ComposeMetricGenFuncs_def] assms(4)] .
  moreover have "ByteSlice (fams ! i) = Inr (fs ! i)"
    using go_mapM_nth[OF fams(2)] Compose_length[OF fams(1)] assms(4) by simp
  ultimately show ?thesis using f ByteSlice_text_of[OF valid_family_wf] by (simp add: object_lines_def)
qed

lemma object_lines_ok:
  assumes "gen_sound g obj" "header_ok (gen_Name g) (gen_Help g) (gen_Type g)"
  shows "list_all line_ok (object_lines g obj)"
  using gen_sound_Generate[OF assms(1)] assms(2) sample_lines_ok by (auto simp: object_lines_def header_ok_def)

lemma mirrors_store_ok:
  assumes "mirrors s objs" "runs_gens gens s"
  shows "store_ok s"
proof -
  have "length fs = length (headers s)" if "(uid, fs) \<in> set (metrics s)" for uid fs
    using mirrors_entry[OF assms(1) that] assms(2)
    by (auto simp: runs_gens_def ExtractMetricFamilyHeaders_def render_def go_bind_Inr_iff
        dest!: go_mapM_length Compose_length)
  then show ?thesis using assms(1) by (auto simp: store_ok_def mirrors_def)
qed

lemma mset_object_lines:
  assumes "mirrors s objs" "order_ok order"
  shows "mset (concat (map (\<lambda>(uid, fs). h (the (objs uid))) (order i (metrics s)))) =
    (\<Sum>uid \<in> dom objs. mset (h (the (objs uid))))"
proof -
  have keys: "set (map fst (metrics s)) = dom objs"
    using assms(1) by (auto simp: mirrors_def dom_map_of_conv_image_fst[symmetric])
  have "mset (concat (map (\<lambda>(uid, fs). h (the (objs uid))) (order i (metrics s)))) =
      (\<Sum>x \<in># mset (order i (metrics s)). mset (h (the (objs (fst x)))))"
    by (simp add: mset_concat case_prod_beta comp_def flip: sum_mset_sum_list)
  also have "\<dots> = (\<Sum>x \<in># mset (metrics s). mset (h (the (objs (fst x)))))"
    using assms(2) by (simp add: order_ok_def)
  also have "\<dots> = (\<Sum>uid \<leftarrow> map fst (metrics s). mset (h (the (objs uid))))"
    by (simp add: comp_def flip: sum_mset_sum_list)
  also have "\<dots> = (\<Sum>uid \<in> dom objs. mset (h (the (objs uid))))"
    using assms(1) sum_list_distinct_conv_sum_set[of "map fst (metrics s)"] keys
    by (simp add: mirrors_def gomap_ok_def)
  finally show ?thesis .
qed

theorem WriteAll_reads_back:
  assumes mirrors: "mirrors s objs" and gens: "runs_gens gens s" and order: "order_ok order"
    and headers: "list_all (\<lambda>g. header_ok (gen_Name g) (gen_Help g) (gen_Type g)) gens"
    and sound: "\<And>uid obj. objs uid = Some obj \<Longrightarrow> list_all (\<lambda>g. gen_sound g obj) gens"
  shows "\<exists>text ps. WriteAll order s = Inr text \<and>
    read_exposition text = Some (concat (map (\<lambda>(i, g).
      Help_line (gen_Name g) (gen_Help g) # Type_line (gen_Name g) (gen_Type g) # ps i) (enumerate 0 gens))) \<and>
    (\<forall>i < length gens. mset (ps i) = (\<Sum>uid \<in> dom objs. mset (object_lines (gens ! i) (the (objs uid)))))"
proof -
  define ps where "ps = (\<lambda>i. concat (map (\<lambda>(uid, fs). object_lines (gens ! i) (the (objs uid))) (order i (metrics s))))"
  define block where "block = (\<lambda>(i, g :: kobject FamilyGenerator). Help_line (gen_Name g) (gen_Help g) # Type_line (gen_Name g) (gen_Type g) # ps i)"
  have entry: "\<exists>obj. objs uid = Some obj \<and> render s obj = Inr fs" if "(uid, fs) \<in> set (order i (metrics s))" for uid fs i
    using that mirrors_entry[OF mirrors] order_ok_set[OF order] by blast
  have family: "family_text i (order i (metrics s)) = text_of (ps i)" if "i < length gens" for i
  proof -
    have "map (\<lambda>x. snd x ! i) (order i (metrics s)) =
        map (\<lambda>x. text_of (object_lines (gens ! i) (the (objs (fst x))))) (order i (metrics s))"
      using render_lines[OF gens sound _ that] entry by fastforce
    from arg_cong[OF this, of concat] show ?thesis
      by (simp only: family_text_def ps_def text_of_concat map_map comp_def case_prod_unfold)
  qed
  have "WriteAll order s = Inr (concat (map (\<lambda>(i, g). generateHeader g @ [newline] @ text_of (ps i)) (enumerate 0 gens)))"
    using WriteAll_text[OF mirrors_store_ok[OF mirrors gens] order] gens family
    by (auto simp: runs_gens_def ExtractMetricFamilyHeaders_def enumerate_map_headers in_set_enumerate_eq
        intro!: arg_cong[of _ _ concat] map_cong)
  then have written: "WriteAll order s = Inr (text_of (concat (map block (enumerate 0 gens))))"
    by (simp add: block_def text_of_concat comp_def case_prod_unfold generateHeader_def)
  have "list_all line_ok (block (i, g))" if "(i, g) \<in> set (enumerate 0 gens)" for i g
  proof -
    have g: "g \<in> set gens" "g = gens ! i" "i < length gens" using that by (auto simp: in_set_enumerate_eq)
    then have h: "header_ok (gen_Name g) (gen_Help g) (gen_Type g)" using headers by (auto simp: list_all_iff)
    have "list_all line_ok (object_lines g (the (objs uid)))" if "(uid, fs) \<in> set (order i (metrics s))" for uid fs
      using entry[OF that] sound g(1) h by (auto simp: list_all_iff intro!: object_lines_ok[unfolded list_all_iff, rule_format])
    then show ?thesis using header_lines_ok[OF h] g(2) by (auto simp: block_def ps_def list_all_iff)
  qed
  then have "list_all line_ok (concat (map block (enumerate 0 gens)))" by (auto simp: list_all_iff)
  then have "read_exposition (text_of (concat (map block (enumerate 0 gens)))) = Some (concat (map block (enumerate 0 gens)))"
    by (rule read_exposition_text_of)
  moreover have "mset (ps i) = (\<Sum>uid \<in> dom objs. mset (object_lines (gens ! i) (the (objs uid))))" for i
    unfolding ps_def by (rule mset_object_lines[OF mirrors order])
  ultimately show ?thesis using written unfolding block_def by blast
qed

subsection \<open>Every resource\<close>

text \<open>
  The contract of a resource towards a scrape, for objects with a precondition: however the families
  are filtered, the text of a store that mirrors such objects reads back as the headers of the
  families left and, below each of them, the samples of all objects.
\<close>

definition exposes :: "kobject FamilyGenerator list \<Rightarrow> ('r \<Rightarrow> kobject) \<Rightarrow> ('r \<Rightarrow> bool) \<Rightarrow> bool" where
  "exposes families inject pre \<longleftrightarrow>
     (\<forall>p s objs order. runs_gens (FilterMetricFamilies p families) s \<and> mirrors s objs \<and> order_ok order \<and>
        (\<forall>obj \<in> ran objs. \<exists>r. obj = inject r \<and> pre r) \<longrightarrow>
        (\<exists>text ps. WriteAll order s = Inr text \<and>
          read_exposition text = Some (concat (map (\<lambda>(i, g).
            Help_line (gen_Name g) (gen_Help g) # Type_line (gen_Name g) (gen_Type g) # ps i)
            (enumerate 0 (FilterMetricFamilies p families)))) \<and>
          (\<forall>i < length (FilterMetricFamilies p families). mset (ps i) =
            (\<Sum>uid \<in> dom objs. mset (object_lines (FilterMetricFamilies p families ! i) (the (objs uid)))))))"

context resource_families
begin

lemma filtered_headers_fine:
  "list_all (\<lambda>g. header_ok (gen_Name g) (gen_Help g) (gen_Type g)) (FilterMetricFamilies p families)"
  using headers_fine by (auto simp: FilterMetricFamilies_filter list_all_iff)

lemma exposed: "exposes families inject pre"
  unfolding exposes_def
proof (intro allI impI, elim conjE)
  fix p s order and objs :: "string \<rightharpoonup> kobject"
  assume "\<forall>obj \<in> ran objs. \<exists>r. obj = inject r \<and> pre r"
  then have "list_all (\<lambda>g. gen_sound g obj) (FilterMetricFamilies p families)" if "objs uid = Some obj" for uid obj
    using that filtered_sound by (auto simp: ran_def)
  moreover assume "runs_gens (FilterMetricFamilies p families) s" "mirrors s objs" "order_ok order"
  ultimately show "\<exists>text ps. WriteAll order s = Inr text \<and>
      read_exposition text = Some (concat (map (\<lambda>(i, g).
        Help_line (gen_Name g) (gen_Help g) # Type_line (gen_Name g) (gen_Type g) # ps i)
        (enumerate 0 (FilterMetricFamilies p families)))) \<and>
      (\<forall>i < length (FilterMetricFamilies p families). mset (ps i) =
        (\<Sum>uid \<in> dom objs. mset (object_lines (FilterMetricFamilies p families ! i) (the (objs uid)))))"
    by (intro WriteAll_reads_back filtered_headers_fine) auto
qed

end

lemma store_reachable_runs_gens: "store_reachable s0 s \<Longrightarrow> runs_gens gens s0 \<Longrightarrow> runs_gens gens s"
  by (auto simp: runs_gens_def same_frame_def dest!: store_reachable_frame)

lemma filtered_store_runs_gens: "runs_gens (FilterMetricFamilies (included_by l) families) (filtered_store l families)"
  by (simp add: runs_gens_def filtered_store_def Let_def NewMetricsStore_def)

text \<open>The objects that exist after a list and a watch come from the list and from the events.\<close>

lemma ran_objects_of: "obj \<in> ran (objects_of list) \<Longrightarrow> obj \<in> set list"
proof -
  have "obj \<in> ran (fold put_obj list m) \<Longrightarrow> obj \<in> ran m \<or> obj \<in> set list" for m
  proof (induction list arbitrary: m)
    case (Cons x list)
    have "obj \<in> ran (put_obj x m) \<Longrightarrow> obj \<in> ran m \<or> obj = x"
      by (auto simp: put_obj_def ran_def split: if_splits)
    then show ?case using Cons.IH[of "put_obj x m"] Cons.prems by auto
  qed simp
  from this[of Map.empty] show "obj \<in> ran (objects_of list) \<Longrightarrow> obj \<in> set list" by (simp add: objects_of_def)
qed

lemma ran_events_effect: "obj \<in> ran (events_effect evs objs) \<Longrightarrow> obj \<in> ran objs \<or> obj \<in> ev_Object ` set evs"
  unfolding events_effect_def
proof (induction evs arbitrary: objs)
  case (Cons ev evs)
  have "obj \<in> ran (event_effect objs ev) \<Longrightarrow> obj \<in> ran objs \<or> obj = ev_Object ev"
    by (cases "ev_Type ev") (auto simp: put_obj_def del_obj_def ran_def split: if_splits)
  then show ?case using Cons.IH[of "event_effect objs ev"] Cons.prems by auto
qed simp

subsection \<open>Properties\<close>

text \<open>
  C3. A scrape reads back, for all 29 resources: from the text of a store that mirrors a set of objects, a
  reader of the exposition format gets, for each family that the allow- and denylist leave, in order,
  its help text and its type, and then exactly the samples of that family of all these objects, with
  every label and value, each once and nothing else. This holds whatever bytes the names and label
  values of the objects hold, quotes, backslashes, line breaks and text that looks like another sample
  included, and for every order in which Go visits the maps. The objects of four resources have to be
  ones whose generation does not panic.
\<close>

theorem scrape_reads_back:
  "exposes hpaMetricFamilies HorizontalPodAutoscaler_obj hpa_ok \<and>
   exposes vpaMetricFamilies VerticalPodAutoscaler_obj vpa_ok \<and>
   exposes jobMetricFamilies Job_obj (\<lambda>_. True) \<and>
   exposes (cronJobMetricFamilies ParseStandard) CronJob_obj (cronjob_ok ParseStandard) \<and>
   exposes configMapMetricFamilies ConfigMap_obj (\<lambda>_. True) \<and>
   exposes secretMetricFamilies Secret_obj (\<lambda>_. True) \<and>
   exposes serviceMetricFamilies Service_obj (\<lambda>_. True) \<and>
   exposes endpointMetricFamilies Endpoints_obj (\<lambda>_. True) \<and>
   exposes namespaceMetricFamilies Namespace_obj (\<lambda>_. True) \<and>
   exposes limitRangeMetricFamilies LimitRange_obj (\<lambda>_. True) \<and>
   exposes resourceQuotaMetricFamilies ResourceQuota_obj (\<lambda>_. True) \<and>
   exposes persistentVolumeMetricFamilies PersistentVolume_obj (\<lambda>_. True) \<and>
   exposes persistentVolumeClaimMetricFamilies PersistentVolumeClaim_obj (\<lambda>_. True) \<and>
   exposes csrMetricFamilies CertificateSigningRequest_obj (\<lambda>_. True) \<and>
   exposes ingressMetricFamilies Ingress_obj (\<lambda>_. True) \<and>
   exposes leaseMetricFamilies Lease_obj (\<lambda>_. True) \<and>
   exposes mutatingWebhookConfigurationMetricFamilies MutatingWebhookConfiguration_v1beta1_obj (\<lambda>_. True) \<and>
   exposes validatingWebhookConfigurationMetricFamilies ValidatingWebhookConfiguration_obj (\<lambda>_. True) \<and>
   exposes networkpolicyMetricFamilies NetworkPolicy_obj (\<lambda>_. True) \<and>
   exposes podDisruptionBudgetMetricFamilies PodDisruptionBudget_obj (\<lambda>_. True) \<and>
   exposes storageClassMetricFamilies StorageClass_obj (\<lambda>_. True) \<and>
   exposes volumeAttachmentMetricFamilies VolumeAttachment_v1beta1_obj (\<lambda>_. True) \<and>
   exposes nodeMetricFamilies Node_obj (\<lambda>_. True) \<and>
   exposes podMetricFamilies Pod_obj (\<lambda>_. True) \<and>
   exposes daemonSetMetricFamilies DaemonSet_obj (\<lambda>_. True) \<and>
   exposes replicaSetMetricFamilies ReplicaSet_obj (\<lambda>_. True) \<and>
   exposes replicationControllerMetricFamilies ReplicationController_obj (\<lambda>_. True) \<and>
   exposes statefulSetMetricFamilies StatefulSet_obj (\<lambda>_. True) \<and>
   exposes deploymentMetricFamilies Deployment_obj deployment_ok"
  by (intro conjI
    hpa.exposed vpa.exposed job.exposed cronjob.exposed configmap.exposed secret.exposed service.exposed
    endpoint.exposed namespace.exposed limitrange.exposed resourcequota.exposed persistentvolume.exposed
    persistentvolumeclaim.exposed certificatesigningrequest.exposed ingress.exposed lease.exposed
    mutatingwebhookconfiguration.exposed validatingwebhookconfiguration.exposed networkpolicy.exposed
    poddisruptionbudget.exposed storageclass.exposed volumeattachment.exposed node.exposed pod.exposed
    daemonset.exposed replicaset.exposed replicationcontroller.exposed statefulset.exposed
    deployment.exposed)

end
