(* ===== verification/End_To_End.thy ===== *)
theory End_To_End
  imports Scrape
begin

text \<open>
  The components together: for a resource, the builder's store, the sharded reflector that feeds it and
  the text that a scrape writes. The lemma of a resource is proved once, in the locale
  \<open>resource_families\<close>, and the property instantiates it for every resource whose reflector expects the
  type it lists.
\<close>

text \<open>An API that answers every list and every watch in the same way.\<close>

definition api_answers :: "'w ListerWatcher \<Rightarrow> ObjectList \<Rightarrow> Event list \<Rightarrow> bool" where
  "api_answers lw l evs \<longleftrightarrow> (\<forall>opts w. lw_List lw opts w = (Inr l, w) \<and> lw_Watch lw opts w = (Inr evs, w))"

text \<open>An event of a watch on a resource.\<close>

definition resource_event :: "('r \<Rightarrow> kobject) \<Rightarrow> ('r \<Rightarrow> bool) \<Rightarrow> Event \<Rightarrow> bool" where
  "resource_event inject pre ev \<longleftrightarrow>
     ev_Type ev \<in> {Added, Modified, Deleted} \<and> (\<exists>r. ev_Object ev = inject r \<and> pre r)"

text \<open>The objects of the builder's shard that exist after the list and the events.\<close>

definition shard_objects :: "'w Builder \<Rightarrow> ObjectList \<Rightarrow> Event list \<Rightarrow> (string \<rightharpoonup> kobject)" where
  "shard_objects b l evs =
     events_effect (filter (\<lambda>e. keep_obj (shard b) (totalShards b) (ev_Object e)) evs)
       (objects_of (filter (keep_obj (shard b) (totalShards b)) (Items l)))"

text \<open>A text that reads back as the given families with the samples of the given objects.\<close>

definition reads_as :: "string \<Rightarrow> kobject FamilyGenerator list \<Rightarrow> (string \<rightharpoonup> kobject) \<Rightarrow> bool" where
  "reads_as text gens objs \<longleftrightarrow>
     (\<exists>ps. read_exposition text = Some (concat (map (\<lambda>(i, g).
         Help_line (gen_Name g) (gen_Help g) # Type_line (gen_Name g) (gen_Type g) # ps i) (enumerate 0 gens))) \<and>
       (\<forall>i < length gens. mset (ps i) = (\<Sum>uid \<in> dom objs. mset (object_lines (gens ! i) (the (objs uid))))))"

text \<open>
  The contract of a resource: a process that builds the store, lets its reflector list and watch, and
  is scraped, exposes the objects of its shard.
\<close>

definition serves_shard ::
  "('w Builder \<Rightarrow> 'w running go) \<Rightarrow> ('w Builder \<Rightarrow> 'w world client \<Rightarrow> string \<Rightarrow> 'w world ListerWatcher) \<Rightarrow>
   kobject FamilyGenerator list \<Rightarrow> ('r \<Rightarrow> kobject) \<Rightarrow> ('r \<Rightarrow> bool) \<Rightarrow> bool" where
  "serves_shard build lwf families inject pre \<longleftrightarrow>
     (\<forall>b c l evs order refused short w.
        buildStoreFunc b = Some Default_store_func \<and> ctx b = Some c \<and> b_namespaces b = [NamespaceAll] \<and>
        api_answers (lwf b (kubeClient b) NamespaceAll) l evs \<and>
        list_all (\<lambda>obj. \<exists>r. obj = inject r \<and> pre r) (Items l) \<and> list_all (resource_event inject pre) evs \<and>
        order_ok order \<longrightarrow>
        (\<exists>r s' w' text. build b = Inr r \<and>
           ListAndWatch metrics_store_ops (run_type r) (run_lw r) refused short 1 (run_store r) w = Inr (None, s', w') \<and>
           WriteAll order s' = Inr text \<and>
           reads_as text (FilterMetricFamilies (included_by (allowDenyList b)) families) (shard_objects b l evs)))"

lemma shard_objects_ran:
  assumes "list_all (\<lambda>obj. \<exists>r. obj = inject r \<and> pre r) (Items l)" "list_all (resource_event inject pre) evs"
    and "obj \<in> ran (shard_objects b l evs)"
  shows "\<exists>r. obj = inject r \<and> pre r"
  using assms unfolding shard_objects_def
  by (fastforce simp: list_all_iff resource_event_def dest!: ran_events_effect ran_objects_of)

context resource_families
begin

lemma store_accepts: "pre r \<Longrightarrow> has_meta (inject r) \<Longrightarrow> accepts (filtered_store l families) (inject r)"
  unfolding filtered_store_def Let_def by (intro accepts_sound filtered_sound) (simp_all add: has_meta_def)

lemma reflector_fills_store:
  assumes b: "b_namespaces b = [NamespaceAll]" and api: "api_answers (lwf (kubeClient b) NamespaceAll) l evs"
    and objs: "list_all (\<lambda>obj. \<exists>r. obj = inject r \<and> pre r) (Items l)" "list_all (resource_event inject pre) evs"
    and ty: "\<And>r. TypeOf (inject r) = ty" "\<And>r. has_meta (inject r)"
  shows "\<exists>s' w'. ListAndWatch metrics_store_ops ty (reflector_lw merge b ty lwf) refused short 1
      (filtered_store (allowDenyList b) families) w = Inr (None, s', w') \<and> mirrors s' (shard_objects b l evs)"
proof -
  let ?keep = "keep_obj (shard b) (totalShards b)" and ?s = "filtered_store (allowDenyList b) families"
  let ?lw = "reflector_lw merge b ty lwf"
  obtain w0 m0 where w: "w = (w0, m0)" by (cases w)
  have "list_all has_meta (Items l)" using objs(1) ty(2) by (auto simp: list_all_iff)
  with api obtain l' w1 where l': "lw_List ?lw \<lparr>opt_ResourceVersion = ''0'', FieldSelector = []\<rparr> w = (Inr l', w1)"
    "Items l' = filter ?keep (Items l)"
    using reflector_lists_its_shard[where listWatchFunc = lwf and b = b and merge = merge and t = ty and w = w0 and m = m0, OF b]
    unfolding w api_answers_def by blast
  obtain wa ma where w1: "w1 = (wa, ma)" by (cases w1)
  have "events_meta evs" using objs(2) ty(2) by (auto simp: list_all_iff events_meta_def resource_event_def)
  with api obtain w2 where w2: "lw_Watch ?lw \<lparr>opt_ResourceVersion = list_ResourceVersion l', FieldSelector = []\<rparr> w1 =
      (Inr (filter (\<lambda>e. ?keep (ev_Object e)) evs), w2)"
    using reflector_watches_its_shard[where listWatchFunc = lwf and b = b and merge = merge and t = ty and w = wa and m = ma, OF b]
    unfolding w1 api_answers_def by blast
  have acc: "accepts ?s (inject r)" if "pre r" for r using store_accepts[OF that ty(2)] .
  have "list_all (accepts ?s) (Items l')" using objs(1) acc l'(2) by (auto simp: list_all_iff)
  moreover have "list_all (event_ok ty (accepts ?s)) (filter (\<lambda>e. ?keep (ev_Object e)) evs)"
    using objs(2) acc ty by (auto simp: list_all_iff event_ok_def resource_event_def)
  ultimately show ?thesis
    using ListAndWatch_mirrors[OF l'(1) w2, of ?s ty refused short] l'(2) unfolding shard_objects_def by auto
qed

lemma serves:
  assumes "\<And>b c. buildStoreFunc b = Some Default_store_func \<Longrightarrow> ctx b = Some c \<Longrightarrow>
      \<exists>ty. build b = Inr \<lparr>run_store = filtered_store (allowDenyList b) families, run_type = ty,
        run_lw = reflector_lw merge b ty (lwf b), run_ctx = c\<rparr> \<and> (\<forall>r. TypeOf (inject r) = ty)"
    and "\<And>r. has_meta (inject r)"
  shows "serves_shard build lwf families inject pre"
  unfolding serves_shard_def
proof (intro allI impI, elim conjE)
  fix b c l evs order refused short w
  assume b: "buildStoreFunc b = Some Default_store_func" "ctx b = Some c" "b_namespaces b = [NamespaceAll]"
    and api: "api_answers (lwf b (kubeClient b) NamespaceAll) l evs"
    and objs: "list_all (\<lambda>obj. \<exists>r. obj = inject r \<and> pre r) (Items l)" "list_all (resource_event inject pre) evs"
    and order: "order_ok order"
  let ?s = "filtered_store (allowDenyList b) families"
  let ?gens = "FilterMetricFamilies (included_by (allowDenyList b)) families"
  obtain ty where r: "build b = Inr \<lparr>run_store = ?s, run_type = ty, run_lw = reflector_lw merge b ty (lwf b), run_ctx = c\<rparr>"
    and ty: "\<And>r. TypeOf (inject r) = ty" using assms(1)[OF b(1,2)] by blast
  obtain s' w' where run: "ListAndWatch metrics_store_ops ty (reflector_lw merge b ty (lwf b)) refused short 1 ?s w = Inr (None, s', w')"
    and m: "mirrors s' (shard_objects b l evs)"
    using reflector_fills_store[where lwf = "lwf b", OF b(3) api objs ty assms(2)] by blast
  have "runs_gens ?gens s'"
    using reached.ListAndWatch_inv[OF reach_init run] filtered_store_runs_gens by (auto intro: store_reachable_runs_gens)
  moreover have "\<forall>obj \<in> ran (shard_objects b l evs). \<exists>r. obj = inject r \<and> pre r" using shard_objects_ran[OF objs] by blast
  ultimately obtain out where "WriteAll order s' = Inr out" "reads_as out ?gens (shard_objects b l evs)"
    using exposed m order unfolding exposes_def reads_as_def by blast
  then show "\<exists>r s' w' text. build b = Inr r \<and>
      ListAndWatch metrics_store_ops (run_type r) (run_lw r) refused short 1 (run_store r) w = Inr (None, s', w') \<and>
      WriteAll order s' = Inr text \<and> reads_as text ?gens (shard_objects b l evs)"
    using r run by auto
qed

end

subsection \<open>The shards of a cluster\<close>

text \<open>All objects that exist after a list and the events of a watch.\<close>

definition cluster_objects :: "ObjectList \<Rightarrow> Event list \<Rightarrow> (string \<rightharpoonup> kobject)" where
  "cluster_objects l evs = events_effect evs (objects_of (Items l))"

text \<open>The objects of a map whose UIDs have a property.\<close>

definition only_uids :: "(string \<Rightarrow> bool) \<Rightarrow> (string \<rightharpoonup> kobject) \<Rightarrow> (string \<rightharpoonup> kobject)" where
  "only_uids p m = (\<lambda>uid. if p uid then m uid else None)"

lemma only_uids_put: "only_uids p (put_obj obj m) = (if p (obj_uid obj) then put_obj obj (only_uids p m) else only_uids p m)"
  by (auto simp: only_uids_def put_obj_def)

lemma only_uids_del: "only_uids p (del_obj obj m) = (if p (obj_uid obj) then del_obj obj (only_uids p m) else only_uids p m)"
  by (auto simp: only_uids_def del_obj_def)

lemma only_uids_objects_of:
  assumes "\<And>obj. obj \<in> set list \<Longrightarrow> q obj \<longleftrightarrow> p (obj_uid obj)"
  shows "objects_of (filter q list) = only_uids p (objects_of list)"
proof -
  have "fold put_obj (filter q list) (only_uids p m) = only_uids p (fold put_obj list m)" for m
    using assms
  proof (induction list arbitrary: m)
    case (Cons x list)
    have "fold put_obj (filter q list) (only_uids p (put_obj x m)) = only_uids p (fold put_obj list (put_obj x m))"
      using Cons by auto
    then show ?case using Cons.prems[of x] by (simp add: only_uids_put split: if_splits)
  qed simp
  from this[of Map.empty] show ?thesis by (simp add: objects_of_def only_uids_def)
qed

lemma only_uids_events:
  assumes "\<And>ev. ev \<in> set evs \<Longrightarrow> q (ev_Object ev) \<longleftrightarrow> p (obj_uid (ev_Object ev))"
  shows "events_effect (filter (\<lambda>e. q (ev_Object e)) evs) (only_uids p m) = only_uids p (events_effect evs m)"
  using assms unfolding events_effect_def
proof (induction evs arbitrary: m)
  case (Cons ev evs)
  have "only_uids p (event_effect m ev) = (if p (obj_uid (ev_Object ev)) then event_effect (only_uids p m) ev else only_uids p m)"
    by (cases "ev_Type ev") (simp_all add: only_uids_put only_uids_del)
  moreover have "foldl event_effect (only_uids p (event_effect m ev)) (filter (\<lambda>e. q (ev_Object e)) evs) =
      only_uids p (foldl event_effect (event_effect m ev) evs)"
    using Cons by (auto simp del: event_effect.simps)
  ultimately show ?case using Cons.prems[of ev] by (simp del: event_effect.simps split: if_splits)
qed simp

lemma shard_objects_part:
  assumes "list_all has_meta (Items l)" "events_meta evs"
    and "\<And>uid. Hash (fnv64a uid) (totalShards b) = Some (f uid)"
  shows "shard_objects b l evs = (\<lambda>uid. if f uid = shard b then cluster_objects l evs uid else None)"
proof -
  let ?p = "\<lambda>uid. f uid = shard b"
  have keep: "keep_obj (shard b) (totalShards b) obj \<longleftrightarrow> ?p (obj_uid obj)" if "has_meta obj" for obj
    using that assms(3) by (auto simp: keep_obj_def keep_def has_meta_def obj_uid_def)
  have "objects_of (filter (keep_obj (shard b) (totalShards b)) (Items l)) = only_uids ?p (objects_of (Items l))"
    using assms(1) keep by (intro only_uids_objects_of) (simp add: list_all_iff)
  moreover have "events_effect (filter (\<lambda>e. keep_obj (shard b) (totalShards b) (ev_Object e)) evs) (only_uids ?p m) =
      only_uids ?p (events_effect evs m)" for m
    using assms(2) keep by (intro only_uids_events) (simp add: events_meta_def list_all_iff)
  ultimately show ?thesis unfolding shard_objects_def cluster_objects_def by (simp add: only_uids_def)
qed

subsection \<open>Properties\<close>

text \<open>
  C1. From the API to the scrape, for the 27 resources whose reflector expects the type it lists: a
  process builds the store for its shard, its reflector lists the objects and handles a watch, and a
  scrape writes the store. A reader of the text gets, for each family that the allow- and denylist
  leave, the header and then exactly the samples of those objects that exist after the list and the
  events and hash to the process's shard, each once and nothing else. The objects of four resources
  have to be ones whose generation does not panic.
\<close>

theorem scrapes_show_their_shard:
  "serves_shard (buildCsrStore merge) (\<lambda>b. createCSRListWatch) csrMetricFamilies CertificateSigningRequest_obj (\<lambda>_. True) \<and>
   serves_shard (buildConfigMapStore merge) (\<lambda>b. createConfigMapListWatch) configMapMetricFamilies ConfigMap_obj (\<lambda>_. True) \<and>
   serves_shard (buildCronJobStore P merge) (\<lambda>b. createCronJobListWatch) (cronJobMetricFamilies P) CronJob_obj (cronjob_ok P) \<and>
   serves_shard (buildDaemonSetStore merge) (\<lambda>b. createDaemonSetListWatch) daemonSetMetricFamilies DaemonSet_obj (\<lambda>_. True) \<and>
   serves_shard (buildDeploymentStore merge) (\<lambda>b. createDeploymentListWatch) deploymentMetricFamilies Deployment_obj deployment_ok \<and>
   serves_shard (buildEndpointsStore merge) (\<lambda>b. createEndpointsListWatch) endpointMetricFamilies Endpoints_obj (\<lambda>_. True) \<and>
   serves_shard (buildHPAStore merge) (\<lambda>b. createHPAListWatch) hpaMetricFamilies HorizontalPodAutoscaler_obj hpa_ok \<and>
   serves_shard (buildIngressStore merge) (\<lambda>b. createIngressListWatch) ingressMetricFamilies Ingress_obj (\<lambda>_. True) \<and>
   serves_shard (buildJobStore merge) (\<lambda>b. createJobListWatch) jobMetricFamilies Job_obj (\<lambda>_. True) \<and>
   serves_shard (buildLeases merge) (\<lambda>b. createLeaseListWatch) leaseMetricFamilies Lease_obj (\<lambda>_. True) \<and>
   serves_shard (buildLimitRangeStore merge) (\<lambda>b. createLimitRangeListWatch) limitRangeMetricFamilies LimitRange_obj (\<lambda>_. True) \<and>
   serves_shard (buildNamespaceStore merge) (\<lambda>b. createNamespaceListWatch) namespaceMetricFamilies Namespace_obj (\<lambda>_. True) \<and>
   serves_shard (buildNetworkPolicyStore merge) (\<lambda>b. createNetworkPolicyListWatch) networkpolicyMetricFamilies NetworkPolicy_obj (\<lambda>_. True) \<and>
   serves_shard (buildNodeStore merge) (\<lambda>b. createNodeListWatch) nodeMetricFamilies Node_obj (\<lambda>_. True) \<and>
   serves_shard (buildPersistentVolumeClaimStore merge) (\<lambda>b. createPersistentVolumeClaimListWatch) persistentVolumeClaimMetricFamilies PersistentVolumeClaim_obj (\<lambda>_. True) \<and>
   serves_shard (buildPersistentVolumeStore merge) (\<lambda>b. createPersistentVolumeListWatch) persistentVolumeMetricFamilies PersistentVolume_obj (\<lambda>_. True) \<and>
   serves_shard (buildPodDisruptionBudgetStore merge) (\<lambda>b. createPodDisruptionBudgetListWatch) podDisruptionBudgetMetricFamilies PodDisruptionBudget_obj (\<lambda>_. True) \<and>
   serves_shard (buildPodStore merge) (\<lambda>b. createPodListWatch) podMetricFamilies Pod_obj (\<lambda>_. True) \<and>
   serves_shard (buildReplicaSetStore merge) (\<lambda>b. createReplicaSetListWatch) replicaSetMetricFamilies ReplicaSet_obj (\<lambda>_. True) \<and>
   serves_shard (buildReplicationControllerStore merge) (\<lambda>b. createReplicationControllerListWatch) replicationControllerMetricFamilies ReplicationController_obj (\<lambda>_. True) \<and>
   serves_shard (buildResourceQuotaStore merge) (\<lambda>b. createResourceQuotaListWatch) resourceQuotaMetricFamilies ResourceQuota_obj (\<lambda>_. True) \<and>
   serves_shard (buildSecretStore merge) (\<lambda>b. createSecretListWatch) secretMetricFamilies Secret_obj (\<lambda>_. True) \<and>
   serves_shard (buildServiceStore merge) (\<lambda>b. createServiceListWatch) serviceMetricFamilies Service_obj (\<lambda>_. True) \<and>
   serves_shard (buildStatefulSetStore merge) (\<lambda>b. createStatefulSetListWatch) statefulSetMetricFamilies StatefulSet_obj (\<lambda>_. True) \<and>
   serves_shard (buildStorageClassStore merge) (\<lambda>b. createStorageClassListWatch) storageClassMetricFamilies StorageClass_obj (\<lambda>_. True) \<and>
   serves_shard (buildValidatingWebhookConfigurationStore merge) (\<lambda>b. createValidatingWebhookConfigurationListWatch) validatingWebhookConfigurationMetricFamilies ValidatingWebhookConfiguration_obj (\<lambda>_. True) \<and>
   serves_shard (buildVPAStore merge) (\<lambda>b. createVPAListWatchFunc (vpaClient b)) vpaMetricFamilies VerticalPodAutoscaler_obj vpa_ok"
  by (intro conjI certificatesigningrequest.serves configmap.serves cronjob.serves daemonset.serves deployment.serves
      endpoint.serves hpa.serves ingress.serves job.serves lease.serves limitrange.serves namespace.serves
      networkpolicy.serves node.serves persistentvolumeclaim.serves persistentvolume.serves poddisruptionbudget.serves
      pod.serves replicaset.serves replicationcontroller.serves resourcequota.serves secret.serves service.serves
      statefulset.serves storageclass.serves validatingwebhookconfiguration.serves vpa.serves)
     (simp_all add: constructor_simps has_meta_def)

definition pod_list :: ObjectList where
  "pod_list = \<lparr>list_ResourceVersion = ''5'', Items = [Pod_obj (pod_of_containers [])]\<rparr>"

definition pod_watch :: "Event list" where
  "pod_watch = [\<lparr>ev_Type = Modified, ev_Object = Pod_obj (pod_of_containers [finished_container ''c'' 1])\<rparr>]"

definition pod_builder :: "unit Builder" where
  "pod_builder = (WithSharding 0 2 demo_builder)
     \<lparr>kubeClient := \<lambda>c. \<lparr>lw_List = (\<lambda>opts w. (Inr pod_list, w)), lw_Watch = (\<lambda>opts w. (Inr pod_watch, w))\<rparr>\<rparr>"

theorem scrapes_show_their_shard_witness:
  "\<exists>r s' w' text. buildPodStore concat pod_builder = Inr r \<and>
    ListAndWatch metrics_store_ops (run_type r) (run_lw r) (\<lambda>e. False) (\<lambda>i. False) 1 (run_store r)
      ((), \<lparr>WatchTotal = [], ListTotal = []\<rparr>) = Inr (None, s', w') \<and>
    WriteAll (\<lambda>i m. m) s' = Inr text \<and>
    reads_as text (FilterMetricFamilies (included_by (allowDenyList pod_builder)) podMetricFamilies)
      (shard_objects pod_builder pod_list pod_watch)"
proof -
  have "serves_shard (buildPodStore concat) (\<lambda>b :: unit Builder. createPodListWatch) podMetricFamilies Pod_obj (\<lambda>_. True)"
    using scrapes_show_their_shard[of concat "\<lambda>s. Inr (Inl [])"] by (elim conjE)
  moreover have "api_answers (createPodListWatch (kubeClient pod_builder) NamespaceAll) pod_list pod_watch"
    by (simp add: api_answers_def createPodListWatch_def pod_builder_def)
  moreover have "buildStoreFunc pod_builder = Some Default_store_func" "ctx pod_builder = Some 0"
    "b_namespaces pod_builder = [NamespaceAll]"
    by (simp_all add: pod_builder_def demo_builder_def WithSharding_def WithGenerateStoreFunc_def DefaultNamespaces_def)
  moreover have "list_all (\<lambda>obj. \<exists>r. obj = Pod_obj r \<and> True) (Items pod_list)" "list_all (resource_event Pod_obj (\<lambda>_. True)) pod_watch"
    "order_ok (\<lambda>i m. m)"
    by (simp_all add: pod_list_def pod_watch_def resource_event_def order_ok_def)
  ultimately show ?thesis unfolding serves_shard_def by blast
qed

end
