(* ===== verification/Metrics_Handler.thy ===== *)
theory Metrics_Handler
  imports Builder
begin

text \<open>
  \<open>pkg/metricshandler\<close>: the HTTP handler of \<open>/metrics\<close>, which owns the stores, and the
  (re-)configuration of sharding, static or from the StatefulSet the program runs in. Contexts are
  numbered in the order in which \<open>context.WithCancel\<close> makes them; \<open>cancelled\<close> are those that
  have been cancelled. The reflectors of a store run as long as the store's context is not
  cancelled.
\<close>

subsection \<open>State\<close>

record 'w MetricsHandler =
  h_opts :: Options
  storeBuilder :: "'w Builder"
  enableGZIPEncoding :: bool
  h_cancel :: "nat option"
  h_stores :: "'w running list"
  curShard :: int
  curTotalShards :: int
  next_ctx :: nat
  cancelled :: "nat list"

definition New_handler :: "Options \<Rightarrow> 'w Builder \<Rightarrow> bool \<Rightarrow> 'w MetricsHandler" where
  "New_handler opts b gzip =
     \<lparr>h_opts = opts, storeBuilder = b, enableGZIPEncoding = gzip, h_cancel = None, h_stores = [], curShard = 0,
      curTotalShards = 0, next_ctx = 0, cancelled = []\<rparr>"

subsection \<open>Sharding\<close>

definition ConfigureSharding ::
  "schedule_parser \<Rightarrow> (watch list \<Rightarrow> watch) \<Rightarrow> int \<Rightarrow> int \<Rightarrow> 'w MetricsHandler \<Rightarrow> 'w MetricsHandler go" where
  "ConfigureSharding ParseStandard merge sh n m =
     (let m1 = (case h_cancel m of None \<Rightarrow> m | Some c \<Rightarrow> m\<lparr>cancelled := c # cancelled m\<rparr>);
          c = next_ctx m1;
          b = WithContext c (WithSharding sh n (storeBuilder m1));
          m2 = m1\<lparr>h_cancel := Some c, next_ctx := Suc c, storeBuilder := b\<rparr>
      in go_bind (Build ParseStandard merge b)
           (\<lambda>stores. Inr (m2\<lparr>h_stores := stores, curShard := sh, curTotalShards := n\<rparr>)))"

definition detectNominalFromPod :: "string \<Rightarrow> string \<Rightarrow> err + int" where
  "detectNominalFromPod statefulSetName podName =
     (let nominalString = TrimPrefix podName (statefulSetName @ ''-'') in
      case Atoi nominalString of
        None \<Rightarrow> Inl (Err (''failed to detect shard index for Pod '' @ podName @ '' of StatefulSet '' @
                        statefulSetName @ '', parsed '' @ nominalString))
      | Some nominal \<Rightarrow> Inr (wrap32 nominal))"

definition shardingSettingsFromStatefulSet :: "StatefulSet \<Rightarrow> string \<Rightarrow> err + int \<times> int" where
  "shardingSettingsFromStatefulSet ss podName =
     (case detectNominalFromPod (Name (sts_ObjectMeta ss)) podName of
        Inl (Err e) \<Rightarrow> Inl (Err (''detecting Pod nominal: '' @ e))
      | Inr nominal \<Rightarrow>
          Inr (nominal, case sts_Spec_Replicas ss of None \<Rightarrow> 1 | Some r \<Rightarrow> r))"

text \<open>The API reads of a pod and of a stateful set by name are parameters.\<close>

fun find_statefulset :: "(string \<Rightarrow> err + StatefulSet) \<Rightarrow> OwnerReference list \<Rightarrow> (string \<times> (err + StatefulSet)) option" where
  "find_statefulset getSts [] = None"
| "find_statefulset getSts (ow # owners) =
     (if or_APIVersion ow \<noteq> ''apps/v1'' \<or> or_Kind ow \<noteq> ''StatefulSet'' \<or> or_Controller ow \<noteq> Some True
      then find_statefulset getSts owners
      else Some (or_Name ow, getSts (or_Name ow)))"

definition detectStatefulSet ::
  "(string \<Rightarrow> string \<Rightarrow> err + Pod) \<Rightarrow> (string \<Rightarrow> string \<Rightarrow> err + StatefulSet) \<Rightarrow> string \<Rightarrow> string \<Rightarrow> err + StatefulSet" where
  "detectStatefulSet getPod getSts podName namespaceName =
     (case getPod namespaceName podName of
        Inl (Err e) \<Rightarrow> Inl (Err (''retrieve pod '' @ podName @ '' for sharding: '' @ e))
      | Inr p \<Rightarrow>
          (case find_statefulset (getSts namespaceName) (OwnerReferences (pod_ObjectMeta p)) of
             None \<Rightarrow> Inl (Err (''no suitable statefulset found for auto detecting sharding for Pod '' @ namespaceName @ ''/'' @ podName))
           | Some (name, Inl (Err e)) \<Rightarrow>
               Inl (Err (''retrieve shard'' @ [CHR 0x27] @ ''s StatefulSet: '' @ namespaceName @ ''/'' @ name @ '': '' @ e))
           | Some (name, Inr ss) \<Rightarrow> Inr ss))"

text \<open>The part of both event handlers after their guards.\<close>

definition reconfigure ::
  "schedule_parser \<Rightarrow> (watch list \<Rightarrow> watch) \<Rightarrow> StatefulSet \<Rightarrow> 'w MetricsHandler \<Rightarrow> 'w MetricsHandler go" where
  "reconfigure ParseStandard merge ss m =
     (case shardingSettingsFromStatefulSet ss (opts_Pod (h_opts m)) of
        Inl e \<Rightarrow> Inr m
      | Inr (sh, n) \<Rightarrow>
          (if curShard m = sh \<and> curTotalShards m = n then Inr m
           else ConfigureSharding ParseStandard merge sh n m))"

definition AddFunc ::
  "schedule_parser \<Rightarrow> (watch list \<Rightarrow> watch) \<Rightarrow> string \<Rightarrow> StatefulSet \<Rightarrow> 'w MetricsHandler \<Rightarrow> 'w MetricsHandler go" where
  "AddFunc ParseStandard merge statefulSetName ss m =
     (if Name (sts_ObjectMeta ss) \<noteq> statefulSetName then Inr m else reconfigure ParseStandard merge ss m)"

definition UpdateFunc ::
  "schedule_parser \<Rightarrow> (watch list \<Rightarrow> watch) \<Rightarrow> string \<Rightarrow> StatefulSet \<Rightarrow> StatefulSet \<Rightarrow> 'w MetricsHandler \<Rightarrow> 'w MetricsHandler go" where
  "UpdateFunc ParseStandard merge statefulSetName old cur m =
     (if Name (sts_ObjectMeta cur) \<noteq> statefulSetName then Inr m
      else if ResourceVersion (sts_ObjectMeta old) = ResourceVersion (sts_ObjectMeta cur) then Inr m
      else reconfigure ParseStandard merge cur m)"

text \<open>The events of the informer on the stateful sets.\<close>

datatype sts_event = Sts_Add StatefulSet | Sts_Update StatefulSet StatefulSet

fun handle_sts_event ::
  "schedule_parser \<Rightarrow> (watch list \<Rightarrow> watch) \<Rightarrow> string \<Rightarrow> 'w MetricsHandler \<Rightarrow> sts_event \<Rightarrow> 'w MetricsHandler go" where
  "handle_sts_event P merge name m (Sts_Add ss) = AddFunc P merge name ss m"
| "handle_sts_event P merge name m (Sts_Update old cur) = UpdateFunc P merge name old cur m"

text \<open>
  \<open>Run\<close> up to the point where it waits for the context to end: \<open>events\<close> are the events the
  informer delivers until then.
\<close>

definition Run ::
  "schedule_parser \<Rightarrow> (watch list \<Rightarrow> watch) \<Rightarrow> (string \<Rightarrow> string \<Rightarrow> err + Pod) \<Rightarrow>
   (string \<Rightarrow> string \<Rightarrow> err + StatefulSet) \<Rightarrow> sts_event list \<Rightarrow> 'w MetricsHandler \<Rightarrow> (err option \<times> 'w MetricsHandler) go" where
  "Run ParseStandard merge getPod getSts events m =
     (let opts = h_opts m; autoSharding = (0 < length (opts_Pod opts) \<and> 0 < length (opts_Namespace opts)) in
      if \<not> autoSharding then
        go_bind (ConfigureSharding ParseStandard merge (Shard opts) (TotalShards opts) m) (\<lambda>m'. Inr (None, m'))
      else
        (case detectStatefulSet getPod getSts (opts_Pod opts) (opts_Namespace opts) of
           Inl (Err e) \<Rightarrow> Inr (Some (Err (''detect StatefulSet: '' @ e)), m)
         | Inr ss \<Rightarrow>
             go_bind (go_foldM (handle_sts_event ParseStandard merge (Name (sts_ObjectMeta ss))) m events)
               (\<lambda>m'. Inr (None, m'))))"

subsection \<open>Serving\<close>

text \<open>
  A response: its headers and the bytes of its body. Closing a gzip writer to which nothing was
  written still emits bytes; \<open>gzip_tail n\<close> is what reaches the connection when the outermost of
  \<open>n\<close> nested gzip writers is closed.
\<close>

record response =
  resp_header :: "(string \<times> string) list"
  resp_body :: string

definition wants_gzip :: "string \<Rightarrow> bool" where
  "wants_gzip part \<longleftrightarrow> part = ''gzip'' \<or> HasPrefix part ''gzip;''"

definition gzip_writers :: "bool \<Rightarrow> string \<Rightarrow> nat" where
  "gzip_writers enabled reqHeader =
     (if enabled then length (filter wants_gzip (map TrimSpace (Split (CHR '','') reqHeader))) else 0)"

definition ServeHTTP :: "(nat \<Rightarrow> string) \<Rightarrow> map_order \<Rightarrow> string \<Rightarrow> 'w MetricsHandler \<Rightarrow> response go" where
  "ServeHTTP gzip_tail order acceptEncoding m =
     (let n = gzip_writers (enableGZIPEncoding m) acceptEncoding;
          header = (''Content-Type'', ''text/plain; version=0.0.4'') #
                   (if 0 < n then [(''Content-Encoding'', ''gzip'')] else [])
      in go_bind (go_mapM (\<lambda>s. WriteAll order (run_store s)) (h_stores m)) (\<lambda>texts.
           Inr \<lparr>resp_header = header, resp_body = concat texts @ (if 0 < n then gzip_tail n else [])\<rparr>))"

subsection \<open>Lemmas\<close>

text \<open>
  The handler's record of its shard agrees with the builder's, and every context but the current
  one has been cancelled.
\<close>

definition handler_ok :: "'w MetricsHandler \<Rightarrow> bool" where
  "handler_ok m \<longleftrightarrow>
     (h_cancel m = None \<longrightarrow> next_ctx m = 0 \<and> cancelled m = []) \<and>
     (\<forall>c. h_cancel m = Some c \<longrightarrow>
        next_ctx m = Suc c \<and> set (cancelled m) = {..<c} \<and> ctx (storeBuilder m) = Some c \<and>
        shard (storeBuilder m) = curShard m \<and> totalShards (storeBuilder m) = curTotalShards m)"

lemma handler_ok_New: "handler_ok (New_handler opts b gzip)"
  by (simp add: handler_ok_def New_handler_def)

lemma ConfigureSharding_effect:
  assumes "ConfigureSharding P merge sh n m = Inr m'"
  shows "curShard m' = sh \<and> curTotalShards m' = n \<and> shard (storeBuilder m') = sh \<and> totalShards (storeBuilder m') = n \<and>
    h_opts m' = h_opts m \<and> Build P merge (storeBuilder m') = Inr (h_stores m')"
  using assms by (auto simp: ConfigureSharding_def Let_def go_bind_Inr_iff WithContext_def WithSharding_def split: option.splits)

lemma ConfigureSharding_contexts:
  assumes "ConfigureSharding P merge sh n m = Inr m'"
  shows "h_cancel m' = Some (next_ctx m) \<and> next_ctx m' = Suc (next_ctx m) \<and> ctx (storeBuilder m') = Some (next_ctx m) \<and>
    cancelled m' = (case h_cancel m of None \<Rightarrow> cancelled m | Some c \<Rightarrow> c # cancelled m)"
  using assms by (auto simp: ConfigureSharding_def Let_def go_bind_Inr_iff WithContext_def WithSharding_def split: option.splits)

lemma ConfigureSharding_handler_ok:
  assumes "ConfigureSharding P merge sh n m = Inr m'" "handler_ok m"
  shows "handler_ok m'"
proof -
  have "set (cancelled m') = {..<next_ctx m}"
  proof (cases "h_cancel m")
    case None
    then show ?thesis using ConfigureSharding_contexts[OF assms(1)] assms(2) by (simp add: handler_ok_def)
  next
    case (Some c)
    then have "next_ctx m = Suc c" "set (cancelled m) = {..<c}" using assms(2) by (auto simp: handler_ok_def)
    then show ?thesis using ConfigureSharding_contexts[OF assms(1)] Some by (simp add: lessThan_Suc)
  qed
  then show ?thesis
    using ConfigureSharding_contexts[OF assms(1)] ConfigureSharding_effect[OF assms(1)] by (simp add: handler_ok_def)
qed

lemma handle_sts_event_cases:
  assumes "handle_sts_event P merge name m ev = Inr m'"
  shows "m' = m \<or> (\<exists>sh n. ConfigureSharding P merge sh n m = Inr m')"
  using assms
  by (cases ev) (auto simp: AddFunc_def UpdateFunc_def reconfigure_def split: if_splits sum.splits)

lemma handle_sts_event_handler_ok:
  "handle_sts_event P merge name m ev = Inr m' \<Longrightarrow> handler_ok m \<Longrightarrow> handler_ok m'"
  using handle_sts_event_cases ConfigureSharding_handler_ok by metis

lemma go_foldM_invariant:
  assumes "\<And>s x s'. f s x = Inr s' \<Longrightarrow> I s \<Longrightarrow> I s'"
  shows "go_foldM f s xs = Inr s' \<Longrightarrow> I s \<Longrightarrow> I s'"
proof (induction xs arbitrary: s)
  case (Cons x xs)
  then obtain s1 where "f s x = Inr s1" "go_foldM f s1 xs = Inr s'" by (auto simp: go_bind_Inr_iff)
  with assms Cons show ?case by metis
qed simp

lemma Run_handler_ok:
  assumes "Run P merge getPod getSts events m = Inr (e, m')" "handler_ok m"
  shows "handler_ok m'"
proof -
  consider "m' = m" | sh n where "ConfigureSharding P merge sh n m = Inr m'"
    | name where "go_foldM (handle_sts_event P merge name) m events = Inr m'"
    using assms(1) by (auto simp: Run_def Let_def go_bind_Inr_iff split: if_splits sum.splits err.splits)
  then show ?thesis
  proof cases
    case 3
    then show ?thesis
      using go_foldM_invariant[where I = handler_ok] handle_sts_event_handler_ok assms(2) by metis
  qed (use assms(2) ConfigureSharding_handler_ok in auto)
qed

lemma detectNominal_Itoa:
  assumes "- (2 ^ 63) \<le> i" "i < 2 ^ 63"
  shows "detectNominalFromPod name (name @ ''-'' @ Itoa i) = Inr (wrap32 i)"
proof -
  have "TrimPrefix (name @ ''-'' @ Itoa i) (name @ ''-'') = Itoa i"
    using TrimPrefix_append[of "name @ ''-''" "Itoa i"] by simp
  then show ?thesis using Atoi_Itoa[OF assms] by (simp add: detectNominalFromPod_def)
qed

lemma ServeHTTP_text:
  assumes "list_all (\<lambda>s. store_ok (run_store s)) (h_stores m)" "order_ok order"
  shows "\<exists>texts. go_mapM (\<lambda>s. WriteAll order (run_store s)) (h_stores m) = Inr texts"
proof (rule go_mapM_returns)
  fix s assume "s \<in> set (h_stores m)"
  with assms have "store_ok (run_store s)" by (simp add: list_all_iff)
  from WriteAll_text[OF this assms(2)] show "\<exists>y. WriteAll order (run_store s) = Inr y" by blast
qed

subsection \<open>Properties\<close>

text \<open>
  At any time at most one generation of stores is alive: however often the stateful set changes,
  every reconfiguration cancels the context of the stores it replaces, so that all contexts but the
  current one are cancelled, and the current stores were built for the shard the handler reports.
\<close>

lemma Run_keeps_one_generation:
  assumes "Run P merge getPod getSts events (New_handler opts b gz) = Inr (e, m)"
  shows "case h_cancel m of
      None \<Rightarrow> next_ctx m = 0 \<and> cancelled m = []
    | Some c \<Rightarrow> c + 1 = next_ctx m \<and> set (cancelled m) = {..<c} \<and> ctx (storeBuilder m) = Some c \<and>
        shard (storeBuilder m) = curShard m \<and> totalShards (storeBuilder m) = curTotalShards m"
  using Run_handler_ok[OF assms handler_ok_New] by (auto simp: handler_ok_def split: option.split)

text \<open>
  Without pod and namespace flags \<open>Run\<close> configures the static shard of the flags and builds the
  stores for it.
\<close>

lemma Run_static_sharding:
  assumes "opts_Pod (h_opts m) = [] \<or> opts_Namespace (h_opts m) = []"
    and "Run P merge getPod getSts events m = Inr (e, m')"
  shows "e = None \<and> curShard m' = Shard (h_opts m) \<and> curTotalShards m' = TotalShards (h_opts m) \<and>
    shard (storeBuilder m') = Shard (h_opts m) \<and> totalShards (storeBuilder m') = TotalShards (h_opts m) \<and>
    Build P merge (storeBuilder m') = Inr (h_stores m')"
proof -
  have "ConfigureSharding P merge (Shard (h_opts m)) (TotalShards (h_opts m)) m = Inr m'" "e = None"
    using assms by (auto simp: Run_def Let_def go_bind_Inr_iff)
  then show ?thesis using ConfigureSharding_effect by blast
qed

text \<open>
  A pod's ordinal is recovered from its name: for the pod \<open>name-i\<close> of the stateful set \<open>name\<close>,
  with \<open>i\<close> in the range of an int32 and even when \<open>name\<close> itself contains dashes and digits, the shard
  is \<open>i\<close> and the number of shards is the number of replicas, one if it is not set.
\<close>

lemma pod_ordinal_roundtrip:
  assumes "0 \<le> i" "i < 2 ^ 31"
  shows "shardingSettingsFromStatefulSet ss (Name (sts_ObjectMeta ss) @ ''-'' @ Itoa i) =
    Inr (i, case sts_Spec_Replicas ss of None \<Rightarrow> 1 | Some r \<Rightarrow> r)"
proof -
  have "wrap32 i = i" using assms by (intro wrap32_id) auto
  then show ?thesis using detectNominal_Itoa[of i "Name (sts_ObjectMeta ss)"] assms
    by (simp add: shardingSettingsFromStatefulSet_def)
qed


text \<open>
  C32. A scrape never panics and returns the texts of all stores in order. When the client asks for gzip
  and gzip is enabled, the response announces \<open>Content-Encoding: gzip\<close> but its body still starts with
  the plain text: the stores are written past the gzip writer.
\<close>

theorem ServeHTTP_body:
  assumes "list_all (\<lambda>r. store_ok (run_store r)) (h_stores m)" "order_ok order"
  shows "\<exists>texts resp. go_mapM (\<lambda>r. WriteAll order (run_store r)) (h_stores m) = Inr texts \<and>
    ServeHTTP gzip_tail order hdr m = Inr resp \<and> prefix (concat texts) (resp_body resp) \<and>
    ((''Content-Encoding'', ''gzip'') \<in> set (resp_header resp) \<longleftrightarrow>
       enableGZIPEncoding m \<and> (\<exists>part \<in> set (Split (CHR '','') hdr). wants_gzip (TrimSpace part)))"
proof -
  obtain texts where texts: "go_mapM (\<lambda>r. WriteAll order (run_store r)) (h_stores m) = Inr texts"
    using ServeHTTP_text[OF assms] by blast
  have "0 < gzip_writers (enableGZIPEncoding m) hdr \<longleftrightarrow>
      enableGZIPEncoding m \<and> (\<exists>part \<in> set (Split (CHR '','') hdr). wants_gzip (TrimSpace part))"
    by (auto simp: gzip_writers_def filter_empty_conv)
  then show ?thesis using texts by (auto simp: ServeHTTP_def Let_def)
qed

definition demo_handler :: "unit MetricsHandler" where
  "demo_handler = New_handler ((AddFlags NewOptions)\<lparr>opts_Pod := ''ksm-0-1'', EnableGZIPEncoding := True\<rparr>) demo_builder True"

lemma demo_Build: "\<exists>rs. Build P concat (WithContext c (WithSharding sh n demo_builder)) = Inr rs"
  using build_stores_returns[of "WithContext c (WithSharding sh n demo_builder)" c "enabledResources demo_builder" P concat]
    demo_builder_simps
  by (auto simp: Build_def WithContext_def WithSharding_def) (simp add: demo_builder_def)

lemma demo_Configure: "\<exists>m. ConfigureSharding P concat sh n demo_handler = Inr m"
  using demo_Build[of P 0 sh n] by (auto simp: demo_handler_def New_handler_def ConfigureSharding_def Let_def)

lemma demo_handler_Run:
  "\<exists>m. Run (\<lambda>s. Inr (Inl [])) concat (\<lambda>a b. Inl (Err [])) (\<lambda>a b. Inl (Err [])) [] demo_handler = Inr (None, m)"
proof -
  have "opts_Namespace (h_opts demo_handler) = []" by (simp add: demo_handler_def New_handler_def AddFlags_def)
  then show ?thesis
    using demo_Configure[of "\<lambda>s. Inr (Inl [])" "Shard (h_opts demo_handler)" "TotalShards (h_opts demo_handler)"]
    by (auto simp: Run_def Let_def)
qed

lemma Run_keeps_one_generation_witness:
  "\<exists>m. Run (\<lambda>s. Inr (Inl [])) concat (\<lambda>a b. Inl (Err [])) (\<lambda>a b. Inl (Err [])) [] demo_handler = Inr (None, m) \<and>
    (case h_cancel m of None \<Rightarrow> next_ctx m = 0 | Some c \<Rightarrow> set (cancelled m) = {..<c})"
proof -
  obtain m where "Run (\<lambda>s. Inr (Inl [])) concat (\<lambda>a b. Inl (Err [])) (\<lambda>a b. Inl (Err [])) [] demo_handler = Inr (None, m)"
    using demo_handler_Run by blast
  then show ?thesis using Run_keeps_one_generation unfolding demo_handler_def by (fastforce split: option.splits)
qed

definition demo_sts :: "string \<Rightarrow> int \<Rightarrow> StatefulSet" where
  "demo_sts rv r = \<lparr>sts_ObjectMeta = empty_meta\<lparr>Name := ''ksm-0'', ResourceVersion := rv\<rparr>, sts_Spec_Replicas = Some r,
     sts_Status = \<lparr>sts_ObservedGeneration = 0, sts_Replicas = r, sts_ReadyReplicas = r, CurrentReplicas = r, sts_UpdatedReplicas = r,
       CurrentRevision = [], UpdateRevision = []\<rparr>\<rparr>"

lemma pod_ordinal_roundtrip_witness: "shardingSettingsFromStatefulSet (demo_sts ''5'' 3) ''ksm-0-1'' = Inr (1, 3)"
proof -
  have "Itoa 1 = ''1''" by code_simp
  then show ?thesis using pod_ordinal_roundtrip[of 1 "demo_sts ''5'' 3"] by (simp add: demo_sts_def)
qed


theorem ServeHTTP_body_witness:
  "\<exists>resp. ServeHTTP (\<lambda>n. ''tail'') (\<lambda>i m. m) ''deflate, gzip;q=1.0''
      (demo_handler\<lparr>h_stores := [\<lparr>run_store = demo_store, run_type = Ptr_to [] ''T'', run_lw = one_object_lw, run_ctx = 0\<rparr>]\<rparr>) = Inr resp \<and>
    (''Content-Encoding'', ''gzip'') \<in> set (resp_header resp)"
proof -
  let ?m = "demo_handler\<lparr>h_stores := [\<lparr>run_store = demo_store, run_type = Ptr_to [] ''T'', run_lw = one_object_lw, run_ctx = 0\<rparr>]\<rparr>"
  have ok: "list_all (\<lambda>r. store_ok (run_store r)) (h_stores ?m)" "order_ok (\<lambda>i m. m)"
    by (simp_all add: demo_store_def order_ok_def)
  have "list_ex (\<lambda>part. wants_gzip (TrimSpace part)) (Split (CHR '','') ''deflate, gzip;q=1.0'')" by code_simp
  then have "\<exists>part \<in> set (Split (CHR '','') ''deflate, gzip;q=1.0''). wants_gzip (TrimSpace part)"
    by (simp only: list_ex_iff)
  moreover have "enableGZIPEncoding ?m" by (simp add: demo_handler_def New_handler_def)
  ultimately show ?thesis using ServeHTTP_body[OF ok, of "\<lambda>n. ''tail''" "''deflate, gzip;q=1.0''"] by blast
qed

end
