(* ===== verification/Main_Wiring.thy ===== *)
theory Main_Wiring
  imports Metrics_Handler
begin

text \<open>
  \<open>main.go\<close>: how the parsed options become a builder and a handler. A \<open>klog.Fatal\<close> ends the
  program and is an \<open>Inl\<close>. The clients are the result of \<open>createKubeClient\<close>, a parameter that may
  fail. The whole of \<open>main\<close>, with the flags and the servers' routes around this, is in \<open>Program\<close>.
\<close>

definition metricsPath :: string where
  "metricsPath = ''/metrics''"

definition healthzPath :: string where
  "healthzPath = ''/healthz''"

definition enabled_resources_of :: "Options \<Rightarrow> string list" where
  "enabled_resources_of opts =
     (if length (Resources opts) = 0 then ResourceSet_AsSlice DefaultResources else ResourceSet_AsSlice (Resources opts))"

definition namespaces_of :: "Options \<Rightarrow> string list" where
  "namespaces_of opts = (if length (Namespaces opts) = 0 then DefaultNamespaces else Namespaces opts)"

definition main_builder ::
  "regexp_compiler \<Rightarrow> (string \<Rightarrow> string \<Rightarrow> err + 'w world client \<times> 'w world client) \<Rightarrow> Options \<Rightarrow> err + 'w Builder" where
  "main_builder Compile createKubeClient opts =
     (let b0 = WithMetrics (Some []) NewBuilder in
      case WithEnabledResources (enabled_resources_of opts) b0 of
        (Some (Err e), b1) \<Rightarrow> Inl (Err (''Failed to set up resources: '' @ e))
      | (None, b1) \<Rightarrow>
          (let b2 = WithNamespaces (namespaces_of opts) b1 in
           case New (MetricAllowlist opts) (MetricDenylist opts) of
             Inl e \<Rightarrow> Inl e
           | Inr l \<Rightarrow>
               (case Parse Compile l of
                  (Some (Err e), l') \<Rightarrow> Inl (Err (''error initializing the allowdeny list : '' @ e))
                | (None, l') \<Rightarrow>
                    (let b3 = WithAllowDenyList (Some l') b2;
                         b4 = WithGenerateStoreFunc (DefaultGenerateStoreFunc b3) b3 in
                     case createKubeClient (Apiserver opts) (Kubeconfig opts) of
                       Inl (Err e) \<Rightarrow> Inl (Err (''Failed to create client: '' @ e))
                     | Inr (kube, vpa) \<Rightarrow>
                         Inr (WithSharding (Shard opts) (TotalShards opts)
                                (WithVPAClient vpa (WithKubeClient kube b4)))))))"

text \<open>The handler that \<open>serveMetrics\<close> installs at \<open>/metrics\<close>.\<close>

definition serveMetrics :: "'w Builder \<Rightarrow> Options \<Rightarrow> 'w MetricsHandler" where
  "serveMetrics b opts = New_handler opts b (EnableGZIPEncoding opts)"

definition main_handler ::
  "regexp_compiler \<Rightarrow> (string \<Rightarrow> string \<Rightarrow> err + 'w world client \<times> 'w world client) \<Rightarrow> Options \<Rightarrow> err + 'w MetricsHandler" where
  "main_handler Compile createKubeClient opts =
     (case main_builder Compile createKubeClient opts of
        Inl e \<Rightarrow> Inl e
      | Inr b \<Rightarrow> Inr (serveMetrics b opts))"

subsection \<open>Lemmas\<close>

lemma default_resources_exist: "list_all resourceExists DefaultResources"
  by (simp add: DefaultResources_def resourceExists_iff availableResources_def availableStores_def)

lemma main_builder_ok:
  fixes b :: "'w Builder"
  assumes "main_builder C k opts = Inr b"
  shows "allowDenyList b \<noteq> None \<and> buildStoreFunc b = Some Default_store_func \<and>
    enabledResources b = sort (enabled_resources_of opts) \<and> list_all resourceExists (enabledResources b) \<and>
    b_namespaces b = namespaces_of opts \<and> shard b = Shard opts \<and> totalShards b = TotalShards opts"
proof -
  note W = WithEnabledResources_cases[of "enabled_resources_of opts" "WithMetrics (Some []) NewBuilder :: 'w Builder"]
  obtain b1 :: "'w Builder" where b1: "WithEnabledResources (enabled_resources_of opts) (WithMetrics (Some []) NewBuilder) = (None, b1)"
    using assms by (auto simp: main_builder_def Let_def split: prod.splits option.splits err.splits)
  then have ex: "list_all resourceExists (enabled_resources_of opts)" and
    b1_eq: "b1 = (WithMetrics (Some []) NewBuilder)\<lparr>enabledResources := sort (enabled_resources_of opts)\<rparr>"
    using W by auto
  have "list_all resourceExists (sort (enabled_resources_of opts))" using ex by (simp add: list_all_iff)
  then show ?thesis
    using assms b1
    by (auto simp: main_builder_def Let_def b1_eq WithAllowDenyList_def WithGenerateStoreFunc_def
        DefaultGenerateStoreFunc_def WithSharding_def WithVPAClient_def WithKubeClient_def WithNamespaces_def
        split: sum.splits prod.splits option.splits err.splits)
qed

lemma main_Build_returns:
  assumes "main_builder C k opts = Inr b"
  shows "\<exists>rs. Build P merge (WithContext c (WithSharding sh n b)) = Inr rs \<and>
    length rs = length (enabled_resources_of opts) \<and> list_all default_built rs"
proof -
  let ?b = "WithContext c (WithSharding sh n b)"
  note ok = main_builder_ok[OF assms]
  have "buildStoreFunc ?b = Some Default_store_func" "list_all resourceExists (enabledResources ?b)"
    "allowDenyList ?b \<noteq> None" "length (enabledResources ?b) = length (enabled_resources_of opts)"
    using ok by (auto simp: WithContext_def WithSharding_def)
  moreover have "ctx ?b = Some c" by (simp add: WithContext_def)
  ultimately show ?thesis
    using build_stores_returns[of ?b c "enabledResources ?b" P merge] by (auto simp: Build_def list_all_iff)
qed

text \<open>What the set-up guarantees of the handler and every reconfiguration keeps.\<close>

definition handler_built :: "'w MetricsHandler \<Rightarrow> bool" where
  "handler_built m \<longleftrightarrow>
     buildStoreFunc (storeBuilder m) = Some Default_store_func \<and> allowDenyList (storeBuilder m) \<noteq> None \<and>
     list_all resourceExists (enabledResources (storeBuilder m)) \<and> list_all default_built (h_stores m)"

lemma ConfigureSharding_built:
  assumes "ConfigureSharding P merge sh n m = Inr m'" "handler_built m"
  shows "handler_built m'"
proof -
  have b: "buildStoreFunc (storeBuilder m') = buildStoreFunc (storeBuilder m)" "allowDenyList (storeBuilder m') = allowDenyList (storeBuilder m)"
    "enabledResources (storeBuilder m') = enabledResources (storeBuilder m)"
    using assms(1) by (auto simp: ConfigureSharding_def Let_def go_bind_Inr_iff WithContext_def WithSharding_def split: option.splits)
  have "Build P merge (storeBuilder m') = Inr (h_stores m')" using ConfigureSharding_effect[OF assms(1)] by simp
  then have "list_all default_built (h_stores m')"
    using build_stores_returns[of "storeBuilder m'" "next_ctx m" "enabledResources (storeBuilder m')" P merge] assms(2) b
      ConfigureSharding_contexts[OF assms(1)]
    by (auto simp: Build_def handler_built_def list_all_iff split: if_splits)
  then show ?thesis using assms(2) b by (simp add: handler_built_def)
qed

lemma handle_sts_event_built:
  "handle_sts_event P merge name m ev = Inr m' \<Longrightarrow> handler_built m \<Longrightarrow> handler_built m'"
  using handle_sts_event_cases ConfigureSharding_built by metis

lemma Run_built:
  assumes "Run P merge getPod getSts events m = Inr (e, m')" "handler_built m"
  shows "handler_built m'"
proof -
  consider "m' = m" | sh n where "ConfigureSharding P merge sh n m = Inr m'"
    | name where "go_foldM (handle_sts_event P merge name) m events = Inr m'"
    using assms(1) by (auto simp: Run_def Let_def go_bind_Inr_iff split: if_splits sum.splits err.splits)
  then show ?thesis
  proof cases
    case 3
    then show ?thesis using go_foldM_invariant[where I = handler_built] handle_sts_event_built assms(2) by metis
  qed (use assms(2) ConfigureSharding_built in auto)
qed

lemma main_handler_built:
  assumes "main_handler C k opts = Inr m"
  shows "handler_built m \<and> h_opts m = opts \<and> h_stores m = [] \<and> main_builder C k opts = Inr (storeBuilder m)"
proof -
  obtain b where b: "main_builder C k opts = Inr b" "m = New_handler opts b (EnableGZIPEncoding opts)"
    using assms by (auto simp: main_handler_def serveMetrics_def split: sum.splits)
  have "list_all resourceExists (enabledResources b)" "buildStoreFunc b = Some Default_store_func" "allowDenyList b \<noteq> None"
    using main_builder_ok[OF b(1)] by blast+
  then show ?thesis using b by (simp add: handler_built_def New_handler_def)
qed

lemma default_flags_run:
  fixes createKubeClient :: "string \<Rightarrow> string \<Rightarrow> err + 'w world client \<times> 'w world client"
  assumes "createKubeClient [] [] = Inr clients"
  shows "\<exists>m0 m. main_handler Compile createKubeClient (AddFlags NewOptions) = Inr m0 \<and>
    Run P merge getPod getSts events m0 = Inr (None, m) \<and> length (h_stores m) = 28 \<and>
    b_namespaces (storeBuilder m) = [NamespaceAll] \<and> curShard m = 0 \<and> curTotalShards m = 1"
proof -
  let ?opts = "AddFlags NewOptions"
  have o: "Resources ?opts = []" "Namespaces ?opts = []" "MetricAllowlist ?opts = []" "MetricDenylist ?opts = []"
    "Apiserver ?opts = []" "Kubeconfig ?opts = []" "opts_Pod ?opts = []" "Shard ?opts = 0" "TotalShards ?opts = 1"
    by (simp_all add: AddFlags_def NewOptions_def)
  have res: "enabled_resources_of ?opts = DefaultResources" "length DefaultResources = 28" "namespaces_of ?opts = [NamespaceAll]"
    by (simp_all add: enabled_resources_of_def ResourceSet_AsSlice_def o namespaces_of_def DefaultResources_def DefaultNamespaces_def)
  have eq: "WithEnabledResources DefaultResources b = (None, b\<lparr>enabledResources := sort DefaultResources\<rparr>)" for b :: "'w Builder"
    using WithEnabledResources_cases[of DefaultResources b] default_resources_exist by simp
  have "\<exists>b. main_builder Compile createKubeClient ?opts = Inr b"
    using assms by (cases clients) (simp add: main_builder_def Let_def res o eq New_def copyList_def Parse_def)
  then obtain b where b: "main_builder Compile createKubeClient ?opts = Inr b" by blast
  let ?m0 = "New_handler ?opts b (EnableGZIPEncoding ?opts)"
  have m0: "main_handler Compile createKubeClient ?opts = Inr ?m0" by (simp add: main_handler_def b serveMetrics_def)
  obtain rs where rs: "Build P merge (WithContext 0 (WithSharding 0 1 b)) = Inr rs" "length rs = 28"
    using main_Build_returns[OF b, of P merge 0 0 1] res by auto
  have "b_namespaces b = [NamespaceAll]" using main_builder_ok[OF b] res by simp
  then show ?thesis
    using m0 rs o by (auto simp: Run_def Let_def New_handler_def ConfigureSharding_def WithContext_def WithSharding_def)
qed

subsection \<open>Properties\<close>

text \<open>
  C5. End to end: once the program has started, with any flags the set-up accepts, static or automatic
  sharding and any changes of the stateful set, no scrape can panic, whatever the reflectors have done
  to the stores in the meantime.
\<close>

theorem scrape_never_panics:
  assumes "main_handler Compile createKubeClient opts = Inr m0"
    and "Run P merge getPod getSts events m0 = Inr (e, m)"
    and "list_all2 (\<lambda>r r'. store_reachable (run_store r) (run_store r')) (h_stores m) rs" "order_ok order"
  shows "\<exists>resp. ServeHTTP gzip_tail order hdr (m\<lparr>h_stores := rs\<rparr>) = Inr resp"
proof -
  have "list_all default_built (h_stores m)"
    using Run_built[OF assms(2)] main_handler_built[OF assms(1)] by (simp add: handler_built_def)
  then have "list_all (\<lambda>r. store_ok (run_store r)) rs"
    using assms(3) store_reachable_ok by (auto simp: list_all_length list_all2_conv_all_nth default_built_def)
  then show ?thesis
    using ServeHTTP_text[of "m\<lparr>h_stores := rs\<rparr>" order] assms(4) by (auto simp: ServeHTTP_def Let_def)
qed

text \<open>A client that answers every call with an empty list.\<close>

definition empty_client :: "'w client" where
  "empty_client c = \<lparr>lw_List = (\<lambda>opts w. (Inr \<lparr>list_ResourceVersion = ''1'', Items = []\<rparr>, w)), lw_Watch = (\<lambda>opts w. (Inr [], w))\<rparr>"

definition demo_main :: "err + unit MetricsHandler" where
  "demo_main = main_handler (\<lambda>e. Inr (\<lambda>s. Contains s e)) (\<lambda>a k. Inr (empty_client, empty_client)) (AddFlags NewOptions)"



lemma demo_main_runs:
  "\<exists>m0 m. demo_main = Inr m0 \<and> Run (\<lambda>s. Inr (Inl [])) concat (\<lambda>a b. Inl (Err [])) (\<lambda>a b. Inl (Err [])) [] m0 = Inr (None, m)"
  unfolding demo_main_def
  using default_flags_run[of "\<lambda>a k. Inr (empty_client, empty_client)" "(empty_client, empty_client)" "\<lambda>e. Inr (\<lambda>s. Contains s e)"
      "\<lambda>s. Inr (Inl [])" concat "\<lambda>a b. Inl (Err [])" "\<lambda>a b. Inl (Err [])" "[]"] by blast

theorem scrape_never_panics_witness:
  "\<exists>m0 m resp. demo_main = Inr m0 \<and> Run (\<lambda>s. Inr (Inl [])) concat (\<lambda>a b. Inl (Err [])) (\<lambda>a b. Inl (Err [])) [] m0 = Inr (None, m) \<and>
     ServeHTTP (\<lambda>n. []) (\<lambda>i m. rev m) ''identity'' m = Inr resp"
proof -
  obtain m0 m where m: "demo_main = Inr m0"
    "Run (\<lambda>s. Inr (Inl [])) concat (\<lambda>a b. Inl (Err [])) (\<lambda>a b. Inl (Err [])) [] m0 = Inr (None, m)"
    using demo_main_runs by blast
  have "list_all2 (\<lambda>r r'. store_reachable (run_store r) (run_store r')) (h_stores m) (h_stores m)"
    by (simp add: list_all2_same store_reachable.reach_init)
  from scrape_never_panics[OF m(1)[unfolded demo_main_def] m(2) this, of "\<lambda>i m. rev m"] m show ?thesis
    by (auto simp: order_ok_def)
qed

end
