(* ===== verification/Rw_Mutex.thy ===== *)
theory Rw_Mutex
  imports Prelude
begin

text \<open>
  Go's \<open>sync.RWMutex\<close> and the goroutines that use one to share a state of type \<open>'s\<close>: the
  metrics store and the metrics handler each have such a lock. A writer has a program counter of type
  \<open>'w\<close>, a reader one of type \<open>'l\<close>; a step of the system is one step of one goroutine.

  What a user of the lock provides is described by six arguments: \<open>wloc\<close>, the steps of a writer
  without the lock; \<open>wants\<close>, that it is about to call \<open>Lock\<close>; \<open>wsec\<close>, its steps under
  the lock; \<open>wend\<close>, that it is about to call \<open>Unlock\<close>; \<open>rsec\<close> and \<open>rend\<close>, the same for a
  reader between \<open>RLock\<close> and \<open>RUnlock\<close>. The contract is the locale \<open>rw_protected\<close>.
\<close>

datatype 'w wthread = W_out (wpc: 'w) | is_W_in: W_in (wpc: 'w)

datatype 'l rthread = R_wait (rpc: 'l) | is_R_in: R_in (rpc: 'l) | R_done (rpc: 'l)

record ('s, 'w, 'l) rw =
  shared :: 's
  w_lock :: "nat option"
  r_lock :: "nat set"
  writer :: "nat \<Rightarrow> 'w wthread"
  reader :: "nat \<Rightarrow> 'l rthread"

definition rw_init :: "'s \<Rightarrow> (nat \<Rightarrow> 'w) \<Rightarrow> (nat \<Rightarrow> 'l) \<Rightarrow> ('s, 'w, 'l) rw" where
  "rw_init s ws ls = \<lparr>shared = s, w_lock = None, r_lock = {}, writer = W_out \<circ> ws, reader = R_wait \<circ> ls\<rparr>"

inductive rw_step ::
  "('w \<Rightarrow> 'w \<Rightarrow> bool) \<Rightarrow> ('w \<Rightarrow> bool) \<Rightarrow> ('s \<Rightarrow> 'w \<Rightarrow> 's \<Rightarrow> 'w \<Rightarrow> bool) \<Rightarrow> ('w \<Rightarrow> bool) \<Rightarrow>
   ('s \<Rightarrow> 'l \<Rightarrow> 'l \<Rightarrow> bool) \<Rightarrow> ('s \<Rightarrow> 'l \<Rightarrow> bool) \<Rightarrow> ('s, 'w, 'l) rw \<Rightarrow> ('s, 'w, 'l) rw \<Rightarrow> bool"
  for wloc wants wsec wend rsec rend where
  w_local: "writer g i = W_out w \<Longrightarrow> wloc w w' \<Longrightarrow>
    rw_step wloc wants wsec wend rsec rend g (g\<lparr>writer := (writer g)(i := W_out w')\<rparr>)"
| w_Lock: "writer g i = W_out w \<Longrightarrow> wants w \<Longrightarrow> w_lock g = None \<Longrightarrow> r_lock g = {} \<Longrightarrow>
    rw_step wloc wants wsec wend rsec rend g (g\<lparr>w_lock := Some i, writer := (writer g)(i := W_in w)\<rparr>)"
| w_section: "writer g i = W_in w \<Longrightarrow> wsec (shared g) w s' w' \<Longrightarrow>
    rw_step wloc wants wsec wend rsec rend g (g\<lparr>shared := s', writer := (writer g)(i := W_in w')\<rparr>)"
| w_Unlock: "writer g i = W_in w \<Longrightarrow> wend w \<Longrightarrow>
    rw_step wloc wants wsec wend rsec rend g (g\<lparr>w_lock := None, writer := (writer g)(i := W_out w)\<rparr>)"
| r_RLock: "reader g j = R_wait l \<Longrightarrow> w_lock g = None \<Longrightarrow>
    rw_step wloc wants wsec wend rsec rend g (g\<lparr>r_lock := insert j (r_lock g), reader := (reader g)(j := R_in l)\<rparr>)"
| r_section: "reader g j = R_in l \<Longrightarrow> rsec (shared g) l l' \<Longrightarrow>
    rw_step wloc wants wsec wend rsec rend g (g\<lparr>reader := (reader g)(j := R_in l')\<rparr>)"
| r_RUnlock: "reader g j = R_in l \<Longrightarrow> rend (shared g) l \<Longrightarrow>
    rw_step wloc wants wsec wend rsec rend g (g\<lparr>r_lock := r_lock g - {j}, reader := (reader g)(j := R_done l)\<rparr>)"

inductive_cases rw_stepE: "rw_step wloc wants wsec wend rsec rend g g'"

text \<open>Who holds the lock, and that a writer holds it alone.\<close>

definition rw_excl :: "('s, 'w, 'l) rw \<Rightarrow> bool" where
  "rw_excl g \<longleftrightarrow>
     (\<forall>i. is_W_in (writer g i) \<longleftrightarrow> w_lock g = Some i) \<and>
     (\<forall>j. is_R_in (reader g j) \<longleftrightarrow> j \<in> r_lock g) \<and>
     (w_lock g \<noteq> None \<longrightarrow> r_lock g = {})"

lemma rw_excl_init: "rw_excl (rw_init s ws ls)"
  by (simp add: rw_excl_def rw_init_def)

lemma rw_excl_writer: "rw_excl g \<Longrightarrow> writer g i = W_in w \<Longrightarrow> w_lock g = Some i \<and> r_lock g = {}"
  unfolding rw_excl_def by (metis option.distinct(1) wthread.disc(2))

lemma rw_excl_out: "rw_excl g \<Longrightarrow> writer g i = W_out w \<Longrightarrow> w_lock g \<noteq> Some i"
  unfolding rw_excl_def by (metis wthread.disc(1))

lemma rw_excl_reader: "rw_excl g \<Longrightarrow> reader g j = R_in l \<Longrightarrow> w_lock g = None \<and> j \<in> r_lock g"
  unfolding rw_excl_def by (metis empty_iff rthread.disc(5))

lemma rw_step_excl:
  assumes "rw_step wloc wants wsec wend rsec rend g g'" "rw_excl g"
  shows "rw_excl g'"
  using assms(1)
proof (cases rule: rw_step.cases)
  case (w_local i w w')
  with rw_excl_out[OF assms(2)] have "w_lock g \<noteq> Some i" by blast
  then show ?thesis using w_local assms(2) by (auto simp: rw_excl_def)
next
  case (w_section i w s' w')
  with rw_excl_writer[OF assms(2)] have "w_lock g = Some i" by blast
  then show ?thesis using w_section assms(2) by (auto simp: rw_excl_def)
next
  case (w_Unlock i w)
  with rw_excl_writer[OF assms(2)] have "w_lock g = Some i \<and> r_lock g = {}" by blast
  then show ?thesis using w_Unlock assms(2) by (auto simp: rw_excl_def)
next
  case (r_section j l l')
  with rw_excl_reader[OF assms(2)] have "w_lock g = None \<and> j \<in> r_lock g" by blast
  then show ?thesis using r_section assms(2) by (auto simp: rw_excl_def)
qed (use assms(2) in \<open>auto simp: rw_excl_def\<close>)

text \<open>
  The contract of a state that is protected by the lock: \<open>inv\<close> holds whenever no writer has the
  lock, \<open>mid\<close> while one has it.
\<close>

locale rw_protected =
  fixes wloc :: "'w \<Rightarrow> 'w \<Rightarrow> bool" and wants :: "'w \<Rightarrow> bool"
    and wsec :: "'s \<Rightarrow> 'w \<Rightarrow> 's \<Rightarrow> 'w \<Rightarrow> bool" and wend :: "'w \<Rightarrow> bool"
    and rsec :: "'s \<Rightarrow> 'l \<Rightarrow> 'l \<Rightarrow> bool" and rend :: "'s \<Rightarrow> 'l \<Rightarrow> bool"
    and inv :: "'s \<Rightarrow> bool" and mid :: "'s \<Rightarrow> 'w \<Rightarrow> bool"
  assumes enter: "inv s \<Longrightarrow> wants w \<Longrightarrow> mid s w"
    and section_keeps: "mid s w \<Longrightarrow> wsec s w s' w' \<Longrightarrow> mid s' w'"
    and leave: "mid s w \<Longrightarrow> wend w \<Longrightarrow> inv s"
begin

abbreviation step :: "('s, 'w, 'l) rw \<Rightarrow> ('s, 'w, 'l) rw \<Rightarrow> bool" where
  "step \<equiv> rw_step wloc wants wsec wend rsec rend"

definition good :: "('s, 'w, 'l) rw \<Rightarrow> bool" where
  "good g \<longleftrightarrow> rw_excl g \<and> (w_lock g = None \<longrightarrow> inv (shared g)) \<and> (\<forall>i. w_lock g = Some i \<longrightarrow> mid (shared g) (wpc (writer g i)))"

lemma good_init: "inv s \<Longrightarrow> good (rw_init s ws ls)"
  by (simp add: good_def rw_excl_init) (simp add: rw_init_def)

lemma good_mid: "good g \<Longrightarrow> writer g i = W_in w \<Longrightarrow> mid (shared g) w"
  using rw_excl_writer[of g i w] by (auto simp: good_def)

lemma step_good:
  assumes "step g g'" "good g"
  shows "good g'"
proof -
  have excl: "rw_excl g" using assms(2) by (simp add: good_def)
  note mid_at = good_mid[OF assms(2)]
  have "(w_lock g' = None \<longrightarrow> inv (shared g')) \<and> (\<forall>i. w_lock g' = Some i \<longrightarrow> mid (shared g') (wpc (writer g' i)))"
    using assms(1)
  proof (cases rule: rw_step.cases)
    case (w_local i w w')
    then show ?thesis using assms(2) rw_excl_out[OF excl] by (auto simp: good_def)
  next
    case (w_Lock i w)
    then show ?thesis using assms(2) enter by (auto simp: good_def)
  next
    case (w_section i w s' w')
    then have "mid s' w'" using mid_at section_keeps by blast
    then show ?thesis using w_section rw_excl_writer[OF excl] by auto
  next
    case (w_Unlock i w)
    then show ?thesis using mid_at leave by auto
  qed (use assms(2) in \<open>auto simp: good_def\<close>)
  then show ?thesis using rw_step_excl[OF assms(1) excl] by (simp add: good_def)
qed

lemma steps_good: "step\<^sup>*\<^sup>* g g' \<Longrightarrow> good g \<Longrightarrow> good g'"
  by (induction rule: rtranclp_induct) (auto dest: step_good)

text \<open>
  What a reader that started in state \<open>l0\<close> knows: while it holds the lock its steps so far are steps
  on the current shared state, and once it is done they were steps on one state that the system passed
  through in the meantime.
\<close>

definition seen :: "('s, 'w, 'l) rw \<Rightarrow> 'l \<Rightarrow> ('s, 'w, 'l) rw \<Rightarrow> 'l rthread \<Rightarrow> bool" where
  "seen g l0 g' r = (case r of
       R_wait l \<Rightarrow> l = l0
     | R_in l \<Rightarrow> (rsec (shared g'))\<^sup>*\<^sup>* l0 l
     | R_done l \<Rightarrow> (\<exists>g1. step\<^sup>*\<^sup>* g g1 \<and> step\<^sup>*\<^sup>* g1 g' \<and>
         w_lock g1 = None \<and> inv (shared g1) \<and> (rsec (shared g1))\<^sup>*\<^sup>* l0 l \<and> rend (shared g1) l))"

lemma seen_step:
  assumes "step g1 g2" "step\<^sup>*\<^sup>* g g1" "good g1"
    and "seen g l0 g1 (reader g1 j)"
  shows "seen g l0 g2 (reader g2 j)"
proof -
  have excl: "rw_excl g1" using assms(3) by (simp add: good_def)
  have later: "step\<^sup>*\<^sup>* g2' g2"
    if "step\<^sup>*\<^sup>* g2' g1" for g2'
    using that assms(1) by (rule rtranclp.rtrancl_into_rtrancl)
  have same: ?thesis if "reader g2 j = reader g1 j" "shared g2 = shared g1 \<or> \<not> is_R_in (reader g1 j)"
    using assms(4) that later by (auto simp: seen_def split: rthread.splits)
  show ?thesis using assms(1)
  proof (cases rule: rw_step.cases)
    case (w_section i w s' w')
    have "\<not> is_R_in (reader g1 j)"
      using rw_excl_writer[OF excl w_section(2)] excl by (auto simp: rw_excl_def)
    then show ?thesis using w_section same by simp
  next
    case (r_RLock k l)
    then show ?thesis using same assms(4) by (cases "j = k") (auto simp: seen_def)
  next
    case (r_section k l l')
    then show ?thesis using same assms(4)
      by (cases "j = k") (auto simp: seen_def intro: rtranclp.rtrancl_into_rtrancl)
  next
    case (r_RUnlock k l)
    have "w_lock g1 = None" using rw_excl_reader[OF excl r_RUnlock(2)] by simp
    then have "inv (shared g1)" using assms(3) by (simp add: good_def)
    with \<open>w_lock g1 = None\<close> show ?thesis
      using r_RUnlock same assms(2,4) later by (cases "j = k") (auto simp: seen_def)
  qed (use same in auto)
qed

lemma seen_steps:
  assumes "step\<^sup>*\<^sup>* g g'" "good g" "reader g j = R_wait l0"
  shows "seen g l0 g' (reader g' j)"
  using assms(1)
proof (induction rule: rtranclp_induct)
  case base
  then show ?case using assms(3) by (simp add: seen_def)
next
  case (step g1 g2)
  then show ?case using seen_step steps_good assms(2) by blast
qed

text \<open>
  Reading is atomic: the whole of a reader's section ran on one state of the data, which the system
  passed through between the start and the end of the reader, with no writer inside.
\<close>

theorem read_is_atomic:
  assumes "step\<^sup>*\<^sup>* g g'" "good g" "reader g j = R_wait l0" "reader g' j = R_done l"
  shows "\<exists>g1. step\<^sup>*\<^sup>* g g1 \<and> step\<^sup>*\<^sup>* g1 g' \<and>
    w_lock g1 = None \<and> inv (shared g1) \<and> (rsec (shared g1))\<^sup>*\<^sup>* l0 l \<and> rend (shared g1) l"
  using seen_steps[OF assms(1-3)] assms(4) by (simp add: seen_def)

text \<open>A goroutine inside the lock can run on its own.\<close>

lemma writer_runs:
  assumes "(\<lambda>(s, w) (s', w'). wsec s w s' w')\<^sup>*\<^sup>* (shared g, w) (s', w')" "writer g i = W_in w"
  shows "step\<^sup>*\<^sup>* g (g\<lparr>shared := s', writer := (writer g)(i := W_in w')\<rparr>)"
  using assms(1)
proof (induction "(s', w')" arbitrary: s' w' rule: rtranclp_induct)
  case base
  have "g\<lparr>shared := shared g, writer := (writer g)(i := W_in w)\<rparr> = g"
    using assms(2) by (simp add: fun_upd_idem)
  then show ?case by simp
next
  case (step sw)
  obtain s1 w1 where sw: "sw = (s1, w1)" by (cases sw)
  let ?g = "g\<lparr>shared := s1, writer := (writer g)(i := W_in w1)\<rparr>"
  have "step ?g (?g\<lparr>shared := s', writer := (writer ?g)(i := W_in w')\<rparr>)"
    using step(2) sw by (intro rw_step.w_section) auto
  then show ?case using step(3)[OF sw] by (auto intro: rtranclp.rtrancl_into_rtrancl)
qed

lemma reader_runs:
  assumes "(rsec (shared g))\<^sup>*\<^sup>* l l'" "reader g j = R_in l"
  shows "step\<^sup>*\<^sup>* g (g\<lparr>reader := (reader g)(j := R_in l')\<rparr>)"
  using assms(1)
proof (induction rule: rtranclp_induct)
  case base
  have "g\<lparr>reader := (reader g)(j := R_in l)\<rparr> = g" using assms(2) by (simp add: fun_upd_idem)
  then show ?case by (simp only: rtranclp.rtrancl_refl)
next
  case (step l1 l2)
  let ?g = "g\<lparr>reader := (reader g)(j := R_in l1)\<rparr>"
  have "step ?g (?g\<lparr>reader := (reader ?g)(j := R_in l2)\<rparr>)" using step(2) by (intro rw_step.r_section) auto
  then have "step ?g (g\<lparr>reader := (reader g)(j := R_in l2)\<rparr>)" by simp
  with step(3) show ?case by (rule rtranclp.rtrancl_into_rtrancl)
qed

lemma write_then_read:
  assumes "writer g i = W_out w" "wants w" "w_lock g = None" "r_lock g = {}"
    and "(\<lambda>(s, w) (s', w'). wsec s w s' w')\<^sup>*\<^sup>* (shared g, w) (s', w')" "wend w'"
    and "reader g j = R_wait l" "(rsec s')\<^sup>*\<^sup>* l l'" "rend s' l'"
  shows "\<exists>g'. step\<^sup>*\<^sup>* g g' \<and> shared g' = s' \<and> reader g' j = R_done l'"
proof -
  let ?g1 = "g\<lparr>w_lock := Some i, writer := (writer g)(i := W_in w)\<rparr>"
  let ?g2 = "?g1\<lparr>shared := s', writer := (writer ?g1)(i := W_in w')\<rparr>"
  let ?g3 = "?g2\<lparr>w_lock := None, writer := (writer ?g2)(i := W_out w')\<rparr>"
  let ?g4 = "?g3\<lparr>r_lock := insert j (r_lock ?g3), reader := (reader ?g3)(j := R_in l)\<rparr>"
  let ?g5 = "?g4\<lparr>reader := (reader ?g4)(j := R_in l')\<rparr>"
  let ?g6 = "?g5\<lparr>r_lock := r_lock ?g5 - {j}, reader := (reader ?g5)(j := R_done l')\<rparr>"
  have "step g ?g1" using assms(1-4) by (intro rw_step.w_Lock)
  moreover have "step\<^sup>*\<^sup>* ?g1 ?g2" using assms(5) by (intro writer_runs[of _ w]) auto
  moreover have "step ?g2 ?g3" using assms(6) by (intro rw_step.w_Unlock) auto
  moreover have "step ?g3 ?g4" using assms(7) by (intro rw_step.r_RLock) auto
  moreover have "step\<^sup>*\<^sup>* ?g4 ?g5" using assms(8) by (intro reader_runs[of _ l]) auto
  moreover have "step ?g5 ?g6" using assms(9) by (intro rw_step.r_RUnlock) auto
  ultimately have "step\<^sup>*\<^sup>* g ?g6" by (meson rtranclp.rtrancl_into_rtrancl rtranclp_trans r_into_rtranclp)
  then show ?thesis by (intro exI[of _ ?g6]) simp
qed

end

text \<open>
  The contract that gives progress: whoever is inside the lock can get to the end of the section.
\<close>

locale rw_progress = rw_protected +
  assumes writer_ends: "mid s w \<Longrightarrow> \<exists>s' w'. (\<lambda>(s, w) (s', w'). wsec s w s' w')\<^sup>*\<^sup>* (s, w) (s', w') \<and> wend w'"
    and reader_ends: "inv s \<Longrightarrow> \<exists>l'. (rsec s)\<^sup>*\<^sup>* l l' \<and> rend s l'"
begin

text \<open>The lock can always become free of writers, without touching the readers.\<close>

lemma lock_frees:
  assumes "good g"
  shows "\<exists>g'. step\<^sup>*\<^sup>* g g' \<and> w_lock g' = None \<and> reader g' = reader g"
proof (cases "w_lock g")
  case None
  then show ?thesis by blast
next
  case (Some i)
  then have "is_W_in (writer g i)" using assms by (simp add: good_def rw_excl_def)
  then obtain w where w: "writer g i = W_in w" by (auto simp: is_W_in_def)
  have "mid (shared g) w" using assms Some w by (auto simp: good_def)
  from writer_ends[OF this] obtain s' w' where
    run: "(\<lambda>(s, w) (s', w'). wsec s w s' w')\<^sup>*\<^sup>* (shared g, w) (s', w')" and e: "wend w'" by blast
  let ?g = "g\<lparr>shared := s', writer := (writer g)(i := W_in w')\<rparr>"
  have "step ?g (?g\<lparr>w_lock := None, writer := (writer ?g)(i := W_out w')\<rparr>)" using e by (intro rw_step.w_Unlock) auto
  with writer_runs[OF run w] show ?thesis by (intro exI[of _ "?g\<lparr>w_lock := None, writer := (writer ?g)(i := W_out w')\<rparr>"]) auto
qed

theorem reader_can_finish:
  assumes "good g" "reader g j = R_wait l0"
  shows "\<exists>g' l. step\<^sup>*\<^sup>* g g' \<and> reader g' j = R_done l"
proof -
  obtain g1 where g1: "step\<^sup>*\<^sup>* g g1" "w_lock g1 = None" "reader g1 j = R_wait l0" using lock_frees[OF assms(1)] assms(2) by metis
  let ?g2 = "g1\<lparr>r_lock := insert j (r_lock g1), reader := (reader g1)(j := R_in l0)\<rparr>"
  have s2: "step g1 ?g2" using g1 by (intro rw_step.r_RLock) auto
  have "inv (shared g1)" using steps_good[OF g1(1) assms(1)] g1(2) by (simp add: good_def)
  then obtain l where l: "(rsec (shared g1))\<^sup>*\<^sup>* l0 l" "rend (shared g1) l" using reader_ends by blast
  let ?g3 = "?g2\<lparr>reader := (reader ?g2)(j := R_in l)\<rparr>"
  have s3: "step\<^sup>*\<^sup>* ?g2 ?g3" using l by (intro reader_runs[of _ l0]) auto
  have s4: "step ?g3 (?g3\<lparr>r_lock := r_lock ?g3 - {j}, reader := (reader ?g3)(j := R_done l)\<rparr>)"
    using l by (intro rw_step.r_RUnlock) auto
  have "step\<^sup>*\<^sup>* g (?g3\<lparr>r_lock := r_lock ?g3 - {j}, reader := (reader ?g3)(j := R_done l)\<rparr>)"
    using g1(1) s2 s3 s4 by (meson rtranclp.rtrancl_into_rtrancl rtranclp_trans)
  then show ?thesis by fastforce
qed

end

end
