(* ===== verification/Handler_Lock.thy ===== *)
theory Handler_Lock
  imports Main_Wiring Rw_Mutex
begin

text \<open>
  The mutex of \<open>pkg/metricshandler\<close>: reconfigurations and scrapes as goroutines that share one
  handler. \<open>ConfigureSharding\<close> holds the write lock and runs its statements one by one; a scrape
  holds the read lock while it writes one store after the other, each as it is at some moment
  (\<open>Store_Lock\<close>).
\<close>

subsection \<open>The statements of ConfigureSharding\<close>

fun conf_stmt ::
  "schedule_parser \<Rightarrow> (watch list \<Rightarrow> watch) \<Rightarrow> int \<Rightarrow> int \<Rightarrow> nat \<Rightarrow> 'w MetricsHandler \<Rightarrow> 'w MetricsHandler go" where
  "conf_stmt P merge sh n k m =
     (if k = 0 then Inr (case h_cancel m of None \<Rightarrow> m | Some c \<Rightarrow> m\<lparr>cancelled := c # cancelled m\<rparr>)
      else if k = 1 then Inr (m\<lparr>h_cancel := Some (next_ctx m), next_ctx := Suc (next_ctx m)\<rparr>)
      else if k = 2 then Inr (m\<lparr>storeBuilder := WithSharding sh n (storeBuilder m)\<rparr>)
      else if k = 3 then go_bind (deref (h_cancel m)) (\<lambda>c. Inr (m\<lparr>storeBuilder := WithContext c (storeBuilder m)\<rparr>))
      else if k = 4 then go_bind (Build P merge (storeBuilder m)) (\<lambda>stores. Inr (m\<lparr>h_stores := stores\<rparr>))
      else if k = 5 then Inr (m\<lparr>curShard := sh\<rparr>)
      else Inr (m\<lparr>curTotalShards := n\<rparr>))"

declare conf_stmt.simps [simp del]

definition conf_stmts ::
  "schedule_parser \<Rightarrow> (watch list \<Rightarrow> watch) \<Rightarrow> int \<Rightarrow> int \<Rightarrow> nat \<Rightarrow> 'w MetricsHandler \<Rightarrow> 'w MetricsHandler go" where
  "conf_stmts P merge sh n k m = go_foldM (\<lambda>m i. conf_stmt P merge sh n i m) m [0..<k]"

lemma conf_stmts_all: "conf_stmts P merge sh n 7 m = ConfigureSharding P merge sh n m"
proof -
  have "[0..<7] = [0, 1, 2, 3, 4, 5, 6::nat]" by (simp add: upt_rec)
  then show ?thesis
    by (cases "h_cancel m"; cases "Build P merge (WithContext (next_ctx m) (WithSharding sh n (storeBuilder m)))")
       (simp_all add: conf_stmts_def conf_stmt.simps ConfigureSharding_def Let_def)
qed

lemma go_foldM_snoc: "go_foldM f s (xs @ [x]) = go_bind (go_foldM f s xs) (\<lambda>s'. f s' x)"
proof (induction xs arbitrary: s)
  case Nil
  then show ?case by (cases "f s x") simp_all
next
  case (Cons y xs)
  then show ?case by (cases "f s y") simp_all
qed

lemma conf_stmts_Suc:
  "conf_stmts P merge sh n (Suc k) m = go_bind (conf_stmts P merge sh n k m) (conf_stmt P merge sh n k)"
  by (simp add: conf_stmts_def go_foldM_snoc)

subsection \<open>Goroutines\<close>

text \<open>
  A goroutine that reconfigures works through requests for a shard and a number of shards, which
  stand for the events of the informer; the guard of the event handler may drop a request.
\<close>

datatype conf_pc =
    Requests "(int \<times> int) list"
  | At_stmt nat int int "(int \<times> int) list"
  | Conf_panicked go_panic

inductive conf_loc :: "conf_pc \<Rightarrow> conf_pc \<Rightarrow> bool" where
  conf_call: "conf_loc (Requests ((sh, n) # r)) (At_stmt 0 sh n r)"
| conf_drop: "conf_loc (Requests (x # r)) (Requests r)"
| conf_return: "conf_loc (At_stmt 7 sh n r) (Requests r)"

fun conf_wants :: "conf_pc \<Rightarrow> bool" where
  "conf_wants (At_stmt k sh n r) = (k = 0)"
| "conf_wants pc = False"

inductive conf_sec ::
  "schedule_parser \<Rightarrow> (watch list \<Rightarrow> watch) \<Rightarrow> 'w MetricsHandler \<Rightarrow> conf_pc \<Rightarrow> 'w MetricsHandler \<Rightarrow> conf_pc \<Rightarrow> bool"
  for P merge where
  conf_next: "k < 7 \<Longrightarrow> conf_stmt P merge sh n k m = Inr m' \<Longrightarrow>
    conf_sec P merge m (At_stmt k sh n r) m' (At_stmt (Suc k) sh n r)"
| conf_panic: "k < 7 \<Longrightarrow> conf_stmt P merge sh n k m = Inl p \<Longrightarrow>
    conf_sec P merge m (At_stmt k sh n r) m (Conf_panicked p)"

fun conf_end :: "conf_pc \<Rightarrow> bool" where
  "conf_end (Requests r) = False"
| "conf_end (At_stmt k sh n r) = (k = 7)"
| "conf_end (Conf_panicked p) = True"

inductive_cases conf_secE: "conf_sec P merge m pc m' pc'"

text \<open>
  The loop of \<open>ServeHTTP\<close>: the texts of the stores written so far. \<open>WriteAll\<close> of a store whose
  reflector is running writes the text of one state that the store has reached.
\<close>

definition store_writes :: "MetricsStore \<Rightarrow> string \<Rightarrow> bool" where
  "store_writes s0 t \<longleftrightarrow> (\<exists>s order. store_reachable s0 s \<and> order_ok order \<and> WriteAll order s = Inr t)"

inductive serve_sec :: "'w MetricsHandler \<Rightarrow> string list \<Rightarrow> string list \<Rightarrow> bool" where
  serve_store: "length ts < length (h_stores m) \<Longrightarrow> store_writes (run_store (h_stores m ! length ts)) t \<Longrightarrow>
    serve_sec m ts (ts @ [t])"

definition serve_end :: "'w MetricsHandler \<Rightarrow> string list \<Rightarrow> bool" where
  "serve_end m ts \<longleftrightarrow> length (h_stores m) \<le> length ts"

type_synonym 'w handler_state = "('w MetricsHandler, conf_pc, string list) rw"

definition handler_step ::
  "schedule_parser \<Rightarrow> (watch list \<Rightarrow> watch) \<Rightarrow> 'w handler_state \<Rightarrow> 'w handler_state \<Rightarrow> bool" where
  "handler_step P merge = rw_step conf_loc conf_wants (conf_sec P merge) conf_end serve_sec serve_end"

definition handler_goroutines :: "'w MetricsHandler \<Rightarrow> (nat \<Rightarrow> (int \<times> int) list) \<Rightarrow> 'w handler_state" where
  "handler_goroutines m reqs = rw_init m (\<lambda>i. Requests (reqs i)) (\<lambda>j. [])"

subsection \<open>The contract of the lock\<close>

text \<open>The handlers that whole reconfigurations can produce.\<close>

inductive conf_reachable ::
  "schedule_parser \<Rightarrow> (watch list \<Rightarrow> watch) \<Rightarrow> 'w MetricsHandler \<Rightarrow> 'w MetricsHandler \<Rightarrow> bool"
  for P merge m0 where
  conf_init: "conf_reachable P merge m0 m0"
| conf_step: "conf_reachable P merge m0 m \<Longrightarrow> ConfigureSharding P merge sh n m = Inr m' \<Longrightarrow> conf_reachable P merge m0 m'"

lemma conf_reachable_built: "conf_reachable P merge m0 m \<Longrightarrow> handler_built m0 \<Longrightarrow> handler_built m"
  by (induction rule: conf_reachable.induct) (auto dest: ConfigureSharding_built)

lemma handler_built_returns:
  assumes "handler_built m"
  shows "\<exists>m'. ConfigureSharding P merge sh n m = Inr m'"
proof -
  let ?b = "WithContext (next_ctx m) (WithSharding sh n (storeBuilder m))"
  have "buildStoreFunc ?b = Some Default_store_func" "list_all resourceExists (enabledResources ?b)"
    "allowDenyList ?b \<noteq> None" "ctx ?b = Some (next_ctx m)"
    using assms by (auto simp: handler_built_def WithContext_def WithSharding_def)
  then obtain rs where "Build P merge ?b = Inr rs"
    using build_stores_returns[of ?b "next_ctx m" "enabledResources ?b" P merge] by (auto simp: Build_def list_all_iff)
  then show ?thesis by (auto simp: ConfigureSharding_def Let_def split: option.splits)
qed

definition conf_inv :: "schedule_parser \<Rightarrow> (watch list \<Rightarrow> watch) \<Rightarrow> 'w MetricsHandler \<Rightarrow> 'w MetricsHandler \<Rightarrow> bool" where
  "conf_inv P merge m0 m \<longleftrightarrow> (handler_built m0 \<longrightarrow> conf_reachable P merge m0 m)"

text \<open>Inside the lock, a prefix of the statements has run on such a handler.\<close>

definition conf_mid :: "schedule_parser \<Rightarrow> (watch list \<Rightarrow> watch) \<Rightarrow> 'w MetricsHandler \<Rightarrow> 'w MetricsHandler \<Rightarrow> conf_pc \<Rightarrow> bool" where
  "conf_mid P merge m0 m pc \<longleftrightarrow> (handler_built m0 \<longrightarrow>
     (\<exists>k sh n r m1. pc = At_stmt k sh n r \<and> k \<le> 7 \<and> conf_reachable P merge m0 m1 \<and> conf_stmts P merge sh n k m1 = Inr m))"

lemma conf_stmts_returns:
  assumes "handler_built m" "k \<le> 7"
  shows "\<exists>m'. conf_stmts P merge sh n k m = Inr m'"
proof -
  have "conf_stmts P merge sh n k m \<noteq> Inl p" for p
  proof
    assume p: "conf_stmts P merge sh n k m = Inl p"
    have "conf_stmts P merge sh n (k + d) m = Inl p" for d
      by (induction d) (simp_all add: p conf_stmts_Suc)
    from this[of "7 - k"] show False
      using assms handler_built_returns[OF assms(1), of P merge sh n] by (simp add: conf_stmts_all)
  qed
  then show ?thesis by (cases "conf_stmts P merge sh n k m") auto
qed

lemma conf_mid_section:
  assumes "conf_mid P merge m0 m pc" "conf_sec P merge m pc m' pc'"
  shows "conf_mid P merge m0 m' pc'"
  unfolding conf_mid_def
proof
  assume "handler_built m0"
  then obtain k sh n r m1 where pc: "pc = At_stmt k sh n r" "conf_reachable P merge m0 m1"
    "conf_stmts P merge sh n k m1 = Inr m" using assms(1) by (auto simp: conf_mid_def)
  have "k < 7" using assms(2) pc(1) by (auto elim: conf_secE)
  have next_eq: "conf_stmts P merge sh n (Suc k) m1 = conf_stmt P merge sh n k m" using pc(3) by (simp add: conf_stmts_Suc)
  have "\<exists>m2. conf_stmt P merge sh n k m = Inr m2"
    using conf_stmts_returns[OF conf_reachable_built[OF pc(2) \<open>handler_built m0\<close>], of "Suc k" P merge sh n]
      \<open>k < 7\<close> next_eq by auto
  then show "\<exists>k sh n r m1. pc' = At_stmt k sh n r \<and> k \<le> 7 \<and> conf_reachable P merge m0 m1 \<and> conf_stmts P merge sh n k m1 = Inr m'"
    using assms(2) pc next_eq by (auto elim!: conf_secE)
qed

interpretation handler_lock: rw_protected conf_loc conf_wants "conf_sec P merge" conf_end serve_sec serve_end
  "conf_inv P merge m0" "conf_mid P merge m0" for P merge and m0 :: "'w MetricsHandler"
proof
  show "conf_mid P merge m0 m pc" if "conf_inv P merge m0 m" "conf_wants pc" for m pc
    using that by (cases pc) (auto simp: conf_inv_def conf_mid_def conf_stmts_def)
  show "conf_inv P merge m0 m" if "conf_mid P merge m0 m pc" "conf_end pc" for m pc
    using that by (auto simp: conf_inv_def conf_mid_def conf_stmts_all intro: conf_reachable.conf_step)
qed (rule conf_mid_section)

subsection \<open>Properties\<close>

lemma serve_alone:
  assumes "(serve_sec m)\<^sup>*\<^sup>* [] ts" "serve_end m ts"
  shows "list_all2 (\<lambda>r t. store_writes (run_store r) t) (h_stores m) ts"
proof -
  have "length ts \<le> length (h_stores m) \<and> (\<forall>k < length ts. store_writes (run_store (h_stores m ! k)) (ts ! k))"
    using assms(1)
  proof (induction rule: rtranclp_induct)
    case (step ts1 ts2)
    from step(2) obtain t where "ts2 = ts1 @ [t]" "length ts1 < length (h_stores m)"
      "store_writes (run_store (h_stores m ! length ts1)) t" by (auto elim: serve_sec.cases)
    then show ?case using step(3) by (auto simp: nth_append less_Suc_eq)
  qed simp
  then show ?thesis using assms(2) by (simp add: serve_end_def list_all2_conv_all_nth)
qed

text \<open>
  What every whole reconfiguration leaves behind: stores that were built together, with one context,
  for the shard that the handler reports, and all earlier contexts cancelled.
\<close>

definition generation :: "schedule_parser \<Rightarrow> (watch list \<Rightarrow> watch) \<Rightarrow> 'w MetricsHandler \<Rightarrow> bool" where
  "generation P merge m \<longleftrightarrow>
     (\<exists>c. h_cancel m = Some c \<and> set (cancelled m) = {..<c} \<and> Build P merge (storeBuilder m) = Inr (h_stores m) \<and>
        list_all (\<lambda>r. run_ctx r = c) (h_stores m) \<and>
        shard (storeBuilder m) = curShard m \<and> totalShards (storeBuilder m) = curTotalShards m)"

lemma ConfigureSharding_generation:
  assumes "ConfigureSharding P merge sh n m = Inr m'" "handler_ok m" "handler_built m"
  shows "generation P merge m'"
proof -
  let ?c = "next_ctx m"
  have c: "h_cancel m' = Some ?c" "ctx (storeBuilder m') = Some ?c" using ConfigureSharding_contexts[OF assms(1)] by auto
  have ok: "handler_ok m'" "handler_built m'"
    using ConfigureSharding_handler_ok[OF assms(1,2)] ConfigureSharding_built[OF assms(1,3)] by auto
  have B: "Build P merge (storeBuilder m') = Inr (h_stores m')" using ConfigureSharding_effect[OF assms(1)] by simp
  have "list_all (\<lambda>r. run_ctx r = ?c) (h_stores m')"
    using build_stores_returns[of "storeBuilder m'" ?c "enabledResources (storeBuilder m')" P merge] ok(2) c B
    by (auto simp: Build_def handler_built_def list_all_iff split: if_splits)
  then show ?thesis using c ok(1) B by (auto simp: generation_def handler_ok_def)
qed

lemma conf_reachable_generation:
  assumes "conf_reachable P merge m0 m" "handler_ok m0" "handler_built m0"
  shows "handler_ok m \<and> (m = m0 \<or> generation P merge m)"
  using assms
proof (induction rule: conf_reachable.induct)
  case (conf_step m sh n m')
  then have "handler_ok m" "handler_built m" using conf_reachable_built by auto
  then show ?case using ConfigureSharding_generation ConfigureSharding_handler_ok conf_step by blast
qed simp

lemma main_handler_ok: "main_handler C k opts = Inr m \<Longrightarrow> handler_ok m"
  using handler_ok_New by (fastforce simp: main_handler_def serveMetrics_def split: sum.splits)

text \<open>
  C7. A scrape never mixes two generations of stores: however many goroutines reconfigure the sharding
  while it runs, it writes every store of one generation once, in order, each as it was at some moment;
  the stores of a generation were built together, for the shard the handler reported then. Only a
  scrape before the first configuration finds no stores.
\<close>

theorem scrape_shows_one_generation:
  assumes "main_handler Compile createKubeClient opts = Inr m0"
    and "(handler_step P merge)\<^sup>*\<^sup>* (handler_goroutines m0 reqs) g" "reader g j = R_done ts"
  shows "\<exists>g1. (handler_step P merge)\<^sup>*\<^sup>* (handler_goroutines m0 reqs) g1 \<and> (handler_step P merge)\<^sup>*\<^sup>* g1 g \<and>
    list_all2 (\<lambda>r t. store_writes (run_store r) t) (h_stores (shared g1)) ts \<and>
    (ts = [] \<and> shared g1 = m0 \<or> generation P merge (shared g1))"
proof -
  have m0: "handler_built m0" "handler_ok m0" "h_stores m0 = []"
    using main_handler_built[OF assms(1)] main_handler_ok[OF assms(1)] by auto
  have wait: "reader (handler_goroutines m0 reqs) j = R_wait []" by (simp add: handler_goroutines_def rw_init_def)
  have "handler_lock.good P merge m0 (handler_goroutines m0 reqs)"
    unfolding handler_goroutines_def
    by (rule handler_lock.good_init) (simp add: conf_inv_def conf_reachable.conf_init)
  then obtain g1 where g1: "(handler_step P merge)\<^sup>*\<^sup>* (handler_goroutines m0 reqs) g1" "(handler_step P merge)\<^sup>*\<^sup>* g1 g"
    "conf_inv P merge m0 (shared g1)" "(serve_sec (shared g1))\<^sup>*\<^sup>* [] ts" "serve_end (shared g1) ts"
    using handler_lock.read_is_atomic[OF assms(2)[unfolded handler_step_def] _ wait assms(3)]
    unfolding handler_step_def by blast
  have texts: "list_all2 (\<lambda>r t. store_writes (run_store r) t) (h_stores (shared g1)) ts" using serve_alone[OF g1(4,5)] .
  have "shared g1 = m0 \<or> generation P merge (shared g1)"
    using conf_reachable_generation[OF _ m0(2,1)] g1(3) m0(1) by (auto simp: conf_inv_def)
  then have "ts = [] \<and> shared g1 = m0 \<or> generation P merge (shared g1)" using texts m0(3) by auto
  with g1(1,2) texts show ?thesis by blast
qed

subsection \<open>A run\<close>

lemma conf_sec_runs:
  assumes "conf_stmts P merge sh n k m = Inr m'" "k \<le> 7"
  shows "(\<lambda>(s, w) (s', w'). conf_sec P merge s w s' w')\<^sup>*\<^sup>* (m, At_stmt 0 sh n r) (m', At_stmt k sh n r)"
  using assms
proof (induction k arbitrary: m')
  case 0
  then show ?case by (simp add: conf_stmts_def)
next
  case (Suc k)
  then obtain m1 where m1: "conf_stmts P merge sh n k m = Inr m1" "conf_stmt P merge sh n k m1 = Inr m'"
    by (auto simp: conf_stmts_Suc go_bind_Inr_iff)
  then have "conf_sec P merge m1 (At_stmt k sh n r) m' (At_stmt (Suc k) sh n r)" using Suc(3) by (intro conf_sec.conf_next) auto
  then show ?case using Suc.IH[OF m1(1)] Suc(3) by (auto intro: rtranclp.rtrancl_into_rtrancl)
qed

lemma serve_sec_runs:
  assumes "list_all default_built (h_stores m)" "k \<le> length (h_stores m)"
  shows "\<exists>ts. (serve_sec m)\<^sup>*\<^sup>* [] ts \<and> length ts = k"
  using assms(2)
proof (induction k)
  case (Suc k)
  then obtain ts where ts: "(serve_sec m)\<^sup>*\<^sup>* [] ts" "length ts = k" by auto
  have "store_ok (run_store (h_stores m ! k))" using assms(1) Suc(2) by (simp add: list_all_length default_built_def)
  from WriteAll_text[OF this, of "\<lambda>i m. m"] obtain t where "store_writes (run_store (h_stores m ! k)) t"
    using store_reachable.reach_init by (fastforce simp: store_writes_def order_ok_def)
  then have "serve_sec m ts (ts @ [t])" using ts Suc(2) by (intro serve_sec.serve_store) auto
  then show ?case using ts by (intro exI[of _ "ts @ [t]"]) auto
qed auto

lemma configure_then_scrape:
  assumes "handler_built m0" "ConfigureSharding P merge sh n m0 = Inr m"
  shows "\<exists>g ts. (handler_step P merge)\<^sup>*\<^sup>* (handler_goroutines m0 (\<lambda>i. [(sh, n)])) g \<and> reader g 0 = R_done ts \<and>
    length ts = length (h_stores m)"
proof -
  let ?start = "handler_goroutines m0 (\<lambda>i. [(sh, n)])"
  let ?called = "?start\<lparr>writer := (writer ?start)(0 := W_out (At_stmt 0 sh n []))\<rparr>"
  have first: "handler_step P merge ?start ?called"
    unfolding handler_step_def
    using rw_step.w_local[of ?start 0 "Requests [(sh, n)]" conf_loc "At_stmt 0 sh n []" conf_wants "conf_sec P merge" conf_end serve_sec serve_end]
      conf_loc.conf_call[of sh n "[]"]
    by (simp add: handler_goroutines_def rw_init_def)
  have run: "(\<lambda>(s, w) (s', w'). conf_sec P merge s w s' w')\<^sup>*\<^sup>* (m0, At_stmt 0 sh n []) (m, At_stmt 7 sh n [])"
    using assms(2) by (intro conf_sec_runs) (auto simp: conf_stmts_all)
  obtain ts where ts: "(serve_sec m)\<^sup>*\<^sup>* [] ts" "length ts = length (h_stores m)"
    using serve_sec_runs[of m "length (h_stores m)"] ConfigureSharding_built[OF assms(2,1)] by (auto simp: handler_built_def)
  have "\<exists>g'. (handler_step P merge)\<^sup>*\<^sup>* ?called g' \<and> shared g' = m \<and> reader g' 0 = R_done ts"
    unfolding handler_step_def
    by (rule handler_lock.write_then_read[where i = 0 and w = "At_stmt 0 sh n []" and w' = "At_stmt 7 sh n []" and l = "[]"])
       (use run ts in \<open>auto simp: handler_goroutines_def rw_init_def serve_end_def\<close>)
  then show ?thesis using first ts(2) by (meson converse_rtranclp_into_rtranclp)
qed

theorem scrape_shows_one_generation_witness:
  "\<exists>m0 g g1 ts. demo_main = Inr m0 \<and>
     (handler_step (\<lambda>s. Inr (Inl [])) concat)\<^sup>*\<^sup>* (handler_goroutines m0 (\<lambda>i. [(0, 1)])) g1 \<and>
     (handler_step (\<lambda>s. Inr (Inl [])) concat)\<^sup>*\<^sup>* g1 g \<and> reader g 0 = R_done ts \<and> length ts = 28 \<and>
     generation (\<lambda>s. Inr (Inl [])) concat (shared g1)"
proof -
  let ?P = "\<lambda>s. Inr (Inl []) :: (string + (Time \<Rightarrow> Time)) go"
  obtain m0 :: "unit MetricsHandler" and m where m0: "demo_main = Inr m0"
    and run: "Run ?P concat (\<lambda>a b. Inl (Err [])) (\<lambda>a b. Inl (Err [])) [] m0 = Inr (None, m)" "length (h_stores m) = 28"
    using default_flags_run[of "\<lambda>a k. Inr (empty_client, empty_client)" "(empty_client, empty_client)" "\<lambda>e. Inr (\<lambda>s. Contains s e)"
        ?P concat "\<lambda>a b. Inl (Err [])" "\<lambda>a b. Inl (Err [])" "[]"] unfolding demo_main_def by blast
  note m0' = m0[unfolded demo_main_def]
  have "h_opts m0 = AddFlags NewOptions" "handler_built m0" using main_handler_built[OF m0'] by auto
  then have conf: "ConfigureSharding ?P concat 0 1 m0 = Inr m"
    using run(1) by (auto simp: Run_def Let_def AddFlags_def NewOptions_def go_bind_Inr_iff)
  obtain g ts where g: "(handler_step ?P concat)\<^sup>*\<^sup>* (handler_goroutines m0 (\<lambda>i. [(0, 1)])) g" "reader g 0 = R_done ts" "length ts = 28"
    using configure_then_scrape[OF \<open>handler_built m0\<close> conf] run(2) by metis
  from scrape_shows_one_generation[OF m0' g(1,2)] 
  obtain g1 where "(handler_step ?P concat)\<^sup>*\<^sup>* (handler_goroutines m0 (\<lambda>i. [(0, 1)])) g1" "(handler_step ?P concat)\<^sup>*\<^sup>* g1 g"
    "generation ?P concat (shared g1)" using g(3) by auto
  with g m0 show ?thesis by blast
qed

end
