(* ===== verification/Store_Lock.thy ===== *)
theory Store_Lock
  imports Metrics_Store Rw_Mutex
begin

text \<open>
  The mutex of \<open>pkg/metrics_store\<close>: reflectors and scrapes as goroutines that share one store.
  An operation is cut into the sections between \<open>Lock\<close> and \<open>Unlock\<close>; \<open>Replace\<close> takes the lock once
  to clear the store and once per object. A scrape holds the read lock for the whole of \<open>WriteAll\<close>,
  whose single writes are steps of their own.
\<close>

subsection \<open>Writers\<close>

datatype store_section = Sec_clear | Sec_add kobject | Sec_delete kobject

fun sections_of :: "store_op \<Rightarrow> store_section list" where
  "sections_of (Op_Add obj) = [Sec_add obj]"
| "sections_of (Op_Update obj) = [Sec_add obj]"
| "sections_of (Op_Delete obj) = [Sec_delete obj]"
| "sections_of (Op_Replace list rv) = Sec_clear # map Sec_add list"

text \<open>An object without metadata makes the operation return its error before the lock is taken.\<close>

fun no_object :: "store_section \<Rightarrow> bool" where
  "no_object Sec_clear = False"
| "no_object (Sec_add obj) = (Accessor obj = None)"
| "no_object (Sec_delete obj) = (Accessor obj = None)"

fun run_section :: "MetricsStore \<Rightarrow> store_section \<Rightarrow> MetricsStore go" where
  "run_section s Sec_clear = Inr (s\<lparr>metrics := []\<rparr>)"
| "run_section s (Sec_add obj) = go_bind (Add s obj) (\<lambda>(e, s'). Inr s')"
| "run_section s (Sec_delete obj) = go_bind (Delete s obj) (\<lambda>(e, s'). Inr s')"

text \<open>
  The program counter of a writer: the sections left of the current operation and the operations
  after it; \<open>Pc_unlock\<close> is the same after the body of a section. A panic runs the deferred
  \<open>Unlock\<close> and ends the goroutine.
\<close>

datatype store_pc =
    Pc "store_section list" "store_op list"
  | Pc_unlock "store_section list" "store_op list"
  | Pc_panicked go_panic

inductive store_loc :: "store_pc \<Rightarrow> store_pc \<Rightarrow> bool" where
  loc_call: "store_loc (Pc [] (p # ps)) (Pc (sections_of p) ps)"
| loc_error: "no_object sec \<Longrightarrow> store_loc (Pc (sec # r) ps) (Pc [] ps)"
| loc_on: "store_loc (Pc_unlock r ps) (Pc r ps)"

fun store_wants :: "store_pc \<Rightarrow> bool" where
  "store_wants (Pc (sec # r) ps) = (\<not> no_object sec)"
| "store_wants pc = False"

inductive store_sec :: "MetricsStore \<Rightarrow> store_pc \<Rightarrow> MetricsStore \<Rightarrow> store_pc \<Rightarrow> bool" where
  sec_body: "run_section s sec = Inr s' \<Longrightarrow> store_sec s (Pc (sec # r) ps) s' (Pc_unlock r ps)"
| sec_panic: "run_section s sec = Inl p \<Longrightarrow> store_sec s (Pc (sec # r) ps) s (Pc_panicked p)"

fun store_end :: "store_pc \<Rightarrow> bool" where
  "store_end (Pc r ps) = False"
| "store_end (Pc_unlock r ps) = True"
| "store_end (Pc_panicked p) = True"

subsection \<open>Scrapes\<close>

text \<open>
  \<open>At_header i out\<close>: before the test of the outer loop for header \<open>i\<close>, with \<open>out\<close> written so far;
  \<open>In_range i ks out\<close>: in the inner loop, which still has to visit the keys \<open>ks\<close>, in any order.
  A key that has gone from the map in the meantime would not be visited.
\<close>

datatype scrape_pc = At_header nat string | In_range nat "string list" string | Scrape_panicked go_panic

inductive scrape_sec :: "MetricsStore \<Rightarrow> scrape_pc \<Rightarrow> scrape_pc \<Rightarrow> bool" where
  sc_header: "i < length (headers s) \<Longrightarrow> mset ks = mset (map fst (metrics s)) \<Longrightarrow>
    scrape_sec s (At_header i out) (In_range i ks (out @ headers s ! i @ [newline]))"
| sc_entry: "map_of (metrics s) k = Some fs \<Longrightarrow> index_slice fs i = Inr t \<Longrightarrow>
    scrape_sec s (In_range i (k # ks) out) (In_range i ks (out @ t))"
| sc_gone: "map_of (metrics s) k = None \<Longrightarrow> scrape_sec s (In_range i (k # ks) out) (In_range i ks out)"
| sc_panic: "map_of (metrics s) k = Some fs \<Longrightarrow> index_slice fs i = Inl p \<Longrightarrow>
    scrape_sec s (In_range i (k # ks) out) (Scrape_panicked p)"
| sc_next: "scrape_sec s (In_range i [] out) (At_header (Suc i) out)"

fun scrape_end :: "MetricsStore \<Rightarrow> scrape_pc \<Rightarrow> bool" where
  "scrape_end s (At_header i out) = (length (headers s) \<le> i)"
| "scrape_end s (In_range i ks out) = False"
| "scrape_end s (Scrape_panicked p) = True"

inductive_cases store_secE: "store_sec s pc s' pc'"
inductive_cases scrape_secE: "scrape_sec s pc pc'"

subsection \<open>The goroutines of one store\<close>

type_synonym store_state = "(MetricsStore, store_pc, scrape_pc) rw"

definition store_step_conc :: "store_state \<Rightarrow> store_state \<Rightarrow> bool" where
  "store_step_conc = rw_step store_loc store_wants store_sec store_end scrape_sec scrape_end"

definition store_goroutines :: "MetricsStore \<Rightarrow> (nat \<Rightarrow> store_op list) \<Rightarrow> store_state" where
  "store_goroutines s progs = rw_init s (\<lambda>i. Pc [] (progs i)) (\<lambda>j. At_header 0 [])"

subsection \<open>A scrape that runs alone\<close>

text \<open>The text of the first \<open>i\<close> headers.\<close>

definition partial_text :: "map_order \<Rightarrow> MetricsStore \<Rightarrow> nat \<Rightarrow> string" where
  "partial_text order s i = concat (map (\<lambda>k. headers s ! k @ [newline] @ family_text k (order k (metrics s))) [0..<i])"

lemma enumerate_as_nth: "enumerate 0 xs = map (\<lambda>i. (i, xs ! i)) [0..<length xs]"
  by (rule nth_equalityI) (simp_all add: nth_enumerate_eq)

lemma WriteAll_partial_text:
  "store_ok s \<Longrightarrow> order_ok order \<Longrightarrow> WriteAll order s = Inr (partial_text order s (length (headers s)))"
  by (simp add: WriteAll_text enumerate_as_nth partial_text_def comp_def)

text \<open>The text of the family \<open>i\<close> of the entries with the keys \<open>ks\<close>.\<close>

definition keys_text :: "MetricsStore \<Rightarrow> nat \<Rightarrow> string list \<Rightarrow> string" where
  "keys_text s i ks = concat (map (\<lambda>k. the (map_of (metrics s) k) ! i) ks)"

fun scrape_ok :: "MetricsStore \<Rightarrow> scrape_pc \<Rightarrow> bool" where
  "scrape_ok s (At_header i out) \<longleftrightarrow>
     i \<le> length (headers s) \<and> (\<exists>order. order_ok order \<and> out = partial_text order s i)"
| "scrape_ok s (In_range i ks out) \<longleftrightarrow>
     i < length (headers s) \<and>
     (\<exists>order vs. order_ok order \<and> mset (vs @ ks) = mset (map fst (metrics s)) \<and>
        out = partial_text order s i @ headers s ! i @ [newline] @ keys_text s i vs)"
| "scrape_ok s (Scrape_panicked p) \<longleftrightarrow> False"

text \<open>A visit of all keys is a visit of all entries in some order.\<close>

lemma visit_order:
  assumes "gomap_ok m" "mset vs = mset (map fst m)"
  shows "mset (map (\<lambda>k. (k, the (map_of m k))) vs) = mset m"
proof -
  have "mset (map (\<lambda>k. (k, the (map_of m k))) vs) = mset (map (\<lambda>k. (k, the (map_of m k))) (map fst m))"
    using assms(2) by (simp only: mset_map)
  also have "map (\<lambda>k. (k, the (map_of m k))) (map fst m) = m"
    using assms(1) by (auto simp: gomap_ok_def comp_def intro!: map_idI)
  finally show ?thesis .
qed

lemma partial_text_Suc:
  "partial_text order s (Suc i) = partial_text order s i @ headers s ! i @ [newline] @ family_text i (order i (metrics s))"
  by (simp add: partial_text_def)

lemma partial_text_extend:
  assumes "gomap_ok (metrics s)" "order_ok order" "mset vs = mset (map fst (metrics s))"
  shows "\<exists>order'. order_ok order' \<and>
    partial_text order s i @ headers s ! i @ [newline] @ keys_text s i vs = partial_text order' s (Suc i)"
proof -
  let ?es = "map (\<lambda>k. (k, the (map_of (metrics s) k))) vs"
  let ?order = "order(i := (\<lambda>m. if m = metrics s then ?es else m))"
  have "order_ok ?order" using assms visit_order[OF assms(1,3)] by (simp add: order_ok_def)
  moreover have "partial_text ?order s i = partial_text order s i"
    unfolding partial_text_def by (intro arg_cong[where f = concat] map_cong) auto
  then have "partial_text ?order s (Suc i) = partial_text order s i @ headers s ! i @ [newline] @ keys_text s i vs"
    by (simp add: partial_text_Suc family_text_def keys_text_def comp_def)
  ultimately show ?thesis by (intro exI[of _ ?order]) simp
qed

lemma scrape_sec_ok:
  assumes "scrape_sec s pc pc'" "scrape_ok s pc" "store_ok s"
  shows "scrape_ok s pc'"
  using assms(1)
proof (cases rule: scrape_sec.cases)
  case (sc_header i ks out)
  then obtain order where "order_ok order" "out = partial_text order s i" using assms(2) by auto
  then show ?thesis using sc_header by (auto simp: keys_text_def intro!: exI[of _ order] exI[of _ "[]"])
next
  case (sc_entry k fs i t ks out)
  then obtain order vs where o: "order_ok order" "mset (vs @ k # ks) = mset (map fst (metrics s))"
    "out = partial_text order s i @ headers s ! i @ [newline] @ keys_text s i vs" using assms(2) by auto
  then show ?thesis using sc_entry assms(2)
    by (auto simp: keys_text_def intro!: exI[of _ order] exI[of _ "vs @ [k]"])
next
  case (sc_gone k i ks out)
  then obtain vs where "mset (vs @ k # ks) = mset (map fst (metrics s))" using assms(2) by auto
  then have "k \<in> set (map fst (metrics s))" by (metis in_set_conv_decomp set_mset_mset)
  then show ?thesis using sc_gone by (simp add: map_of_eq_None_iff)
next
  case (sc_panic k fs i p ks out)
  then have "length fs = length (headers s)" using assms(3) by (auto simp: store_ok_def dest!: map_of_SomeD)
  then show ?thesis using sc_panic assms(2) by (auto simp: index_slice_def)
next
  case (sc_next i out)
  then obtain order vs where "order_ok order" "mset vs = mset (map fst (metrics s))"
    "out = partial_text order s i @ headers s ! i @ [newline] @ keys_text s i vs" using assms(2) by auto
  then show ?thesis using sc_next assms(2,3) partial_text_extend[of s order vs i] by (auto simp: store_ok_def)
qed

lemma scrape_alone:
  assumes "(scrape_sec s)\<^sup>*\<^sup>* (At_header 0 []) pc" "scrape_end s pc" "store_ok s"
  shows "\<exists>t order. pc = At_header (length (headers s)) t \<and> order_ok order \<and> WriteAll order s = Inr t"
proof -
  have "scrape_ok s (At_header 0 [])" by (auto simp: partial_text_def order_ok_def intro!: exI[of _ "\<lambda>i m. m"])
  with assms(1) have "scrape_ok s pc" by (induction rule: rtranclp_induct) (auto dest: scrape_sec_ok[OF _ _ assms(3)])
  then show ?thesis using assms(2,3) WriteAll_partial_text[OF assms(3)] by (cases pc) auto
qed

subsection \<open>The contract of the lock\<close>

text \<open>Under the lock a writer runs one section or has run it.\<close>

definition in_section :: "store_pc \<Rightarrow> bool" where
  "in_section pc \<longleftrightarrow> store_wants pc \<or> store_end pc"

lemma run_section_reachable:
  assumes "run_section s sec = Inr s'" "store_reachable s0 s"
  shows "store_reachable s0 s'"
proof -
  have "store_step s s'"
  proof (cases sec)
    case Sec_clear
    then show ?thesis using assms(1) store_step.step_clear by auto
  next
    case (Sec_add obj)
    then obtain e where "apply_op s (Op_Add obj) = Inr (e, s')" using assms(1) by (auto simp: go_bind_Inr_iff)
    then show ?thesis by (rule store_step.step_op)
  next
    case (Sec_delete obj)
    then obtain e where "apply_op s (Op_Delete obj) = Inr (e, s')" using assms(1) by (auto simp: go_bind_Inr_iff)
    then show ?thesis by (rule store_step.step_op)
  qed
  with assms(2) show ?thesis by (rule store_reachable.reach_step)
qed

lemma store_sec_ends:
  assumes "in_section pc"
  shows "\<exists>s' pc'. (\<lambda>(s, pc) (s', pc'). store_sec s pc s' pc')\<^sup>*\<^sup>* (s, pc) (s', pc') \<and> store_end pc'"
proof (cases pc)
  case (Pc r ps)
  with assms obtain sec r' where r: "r = sec # r'" by (cases r) (auto simp: in_section_def)
  obtain s' pc' where "store_sec s pc s' pc'" "store_end pc'"
    using store_sec.intros[of s sec] Pc r by (cases "run_section s sec") fastforce+
  then show ?thesis by (intro exI[of _ s'] exI[of _ pc']) auto
qed (metis rtranclp.rtrancl_refl store_end.simps(2,3))+

lemma scrape_range_ends:
  "\<exists>pc. (scrape_sec s)\<^sup>*\<^sup>* (In_range i ks out) pc \<and> ((\<exists>out'. pc = At_header (Suc i) out') \<or> (\<exists>p. pc = Scrape_panicked p))"
proof (induction ks arbitrary: out)
  case Nil
  then show ?case using scrape_sec.sc_next by blast
next
  case (Cons k ks)
  have "\<exists>pc. scrape_sec s (In_range i (k # ks) out) pc \<and> ((\<exists>out'. pc = In_range i ks out') \<or> (\<exists>p. pc = Scrape_panicked p))"
  proof (cases "map_of (metrics s) k")
    case None
    then show ?thesis using scrape_sec.sc_gone by blast
  next
    case (Some fs)
    then show ?thesis using scrape_sec.sc_entry scrape_sec.sc_panic by (cases "index_slice fs i") blast+
  qed
  then show ?case using Cons.IH by (metis converse_rtranclp_into_rtranclp rtranclp.rtrancl_refl)
qed

lemma scrape_sec_ends: "\<exists>pc'. (scrape_sec s)\<^sup>*\<^sup>* pc pc' \<and> scrape_end s pc'"
proof -
  have header: "\<exists>pc'. (scrape_sec s)\<^sup>*\<^sup>* (At_header i out) pc' \<and> scrape_end s pc'" for i out
  proof (induction "length (headers s) - i" arbitrary: i out)
    case 0
    then have "scrape_end s (At_header i out)" by simp
    then show ?case by blast
  next
    case (Suc n)
    let ?r = "In_range i (map fst (metrics s)) (out @ headers s ! i @ [newline])"
    have first: "scrape_sec s (At_header i out) ?r" using Suc(2) by (intro scrape_sec.sc_header) auto
    obtain pc where pc: "(scrape_sec s)\<^sup>*\<^sup>* ?r pc" "(\<exists>out'. pc = At_header (Suc i) out') \<or> (\<exists>p. pc = Scrape_panicked p)"
      using scrape_range_ends by blast
    moreover have "\<exists>pc'. (scrape_sec s)\<^sup>*\<^sup>* pc pc' \<and> scrape_end s pc'"
      using pc(2) Suc(1)[of "Suc i"] Suc(2) by fastforce
    ultimately show ?case using first by (meson converse_rtranclp_into_rtranclp rtranclp_trans)
  qed
  show ?thesis
  proof (cases pc)
    case (In_range i ks out)
    then show ?thesis using scrape_range_ends[of s i ks out] header by (metis rtranclp_trans scrape_end.simps(3))
  next
    case (Scrape_panicked p)
    then show ?thesis by (metis rtranclp.rtrancl_refl scrape_end.simps(3))
  qed (use header in blast)
qed

interpretation store_lock: rw_progress store_loc store_wants store_sec store_end scrape_sec scrape_end
  "store_reachable s0" "\<lambda>s pc. store_reachable s0 s \<and> in_section pc" for s0
proof
  show "store_reachable s0 s \<and> in_section pc" if "store_reachable s0 s" "store_wants pc" for s pc
    using that by (simp add: in_section_def)
  show "store_reachable s0 s' \<and> in_section pc'" if "store_reachable s0 s \<and> in_section pc" "store_sec s pc s' pc'" for s pc s' pc'
    using that by (auto simp: in_section_def elim!: store_secE intro: run_section_reachable)
qed (auto simp: store_sec_ends scrape_sec_ends)

subsection \<open>Properties\<close>

lemma goroutines_good:
  assumes "store_step_conc\<^sup>*\<^sup>* (store_goroutines s0 progs) g"
  shows "store_lock.good s0 g"
  using store_lock.steps_good[OF assms[unfolded store_step_conc_def store_goroutines_def]]
    store_lock.good_init[OF store_reachable.reach_init] by blast

text \<open>The snapshot of a scrape, as the properties use it.\<close>

lemma scrape_snapshot:
  assumes "store_ok s0" "arity_ok s0"
    and "store_step_conc\<^sup>*\<^sup>* (store_goroutines s0 progs) g" "reader g j = R_wait (At_header 0 [])"
    and "store_step_conc\<^sup>*\<^sup>* g g'" "reader g' j = R_done pc"
  obtains t g1 order where "pc = At_header (length (headers s0)) t" "store_step_conc\<^sup>*\<^sup>* g g1" "store_step_conc\<^sup>*\<^sup>* g1 g'"
    "w_lock g1 = None" "store_reachable s0 (shared g1)" "order_ok order" "WriteAll order (shared g1) = Inr t"
proof -
  obtain g1 where g1: "store_step_conc\<^sup>*\<^sup>* g g1" "store_step_conc\<^sup>*\<^sup>* g1 g'" "w_lock g1 = None" "store_reachable s0 (shared g1)"
    "(scrape_sec (shared g1))\<^sup>*\<^sup>* (At_header 0 []) pc" "scrape_end (shared g1) pc"
    using store_lock.read_is_atomic[OF assms(5)[unfolded store_step_conc_def] goroutines_good[OF assms(3)] assms(4,6)]
    unfolding store_step_conc_def by blast
  have "store_ok (shared g1)" using store_reachable_ok[OF g1(4) assms(1,2)] by simp
  moreover have "headers (shared g1) = headers s0" using store_reachable_frame[OF g1(4)] by (simp add: same_frame_def)
  ultimately show thesis using scrape_alone[OF g1(5,6)] g1 that by metis
qed

text \<open>
  C6. Scrapes are atomic: whatever the writers of a store do at the same time, the text that a scrape
  has written when it is done is the text of the whole store as it was at one moment between the start
  and the end of the scrape, with no write in progress; no scrape panics.
\<close>

theorem scrape_is_atomic:
  assumes "store_ok s0" "arity_ok s0"
    and "store_step_conc\<^sup>*\<^sup>* (store_goroutines s0 progs) g" "reader g j = R_wait (At_header 0 [])"
    and "store_step_conc\<^sup>*\<^sup>* g g'" "reader g' j = R_done pc"
  shows "\<exists>t g1 order. pc = At_header (length (headers s0)) t \<and> store_step_conc\<^sup>*\<^sup>* g g1 \<and> store_step_conc\<^sup>*\<^sup>* g1 g' \<and>
    w_lock g1 = None \<and> store_reachable s0 (shared g1) \<and> order_ok order \<and> WriteAll order (shared g1) = Inr t"
  using scrape_snapshot[OF assms] by metis


subsection \<open>What a scrape sees of Replace\<close>

inductive_cases store_locE: "store_loc pc pc'"

text \<open>
  The states of a system in which one goroutine calls \<open>Replace\<close>: the old store, or the first \<open>k\<close>
  objects of the list in a store that was cleared.
\<close>

definition replaced :: "MetricsStore \<Rightarrow> kobject list \<Rightarrow> nat \<Rightarrow> MetricsStore \<Rightarrow> bool" where
  "replaced s0 list k s \<longleftrightarrow> k \<le> length list \<and> add_all (s0\<lparr>metrics := []\<rparr>) (take k list) = Inr (None, s)"

definition replace_pc :: "MetricsStore \<Rightarrow> kobject list \<Rightarrow> string \<Rightarrow> MetricsStore \<Rightarrow> store_pc \<Rightarrow> bool" where
  "replace_pc s0 list rv s pc \<longleftrightarrow>
     s = s0 \<and> (pc = Pc [] [Op_Replace list rv] \<or> pc = Pc (Sec_clear # map Sec_add list) []) \<or>
     (\<exists>k. replaced s0 list k s \<and>
        (pc = Pc (map Sec_add (drop k list)) [] \<or> pc = Pc_unlock (map Sec_add (drop k list)) [] \<or> pc = Pc [] [] \<or>
         (\<exists>p. pc = Pc_panicked p)))"

definition only_replace :: "MetricsStore \<Rightarrow> kobject list \<Rightarrow> string \<Rightarrow> store_state \<Rightarrow> bool" where
  "only_replace s0 list rv g \<longleftrightarrow>
     replace_pc s0 list rv (shared g) (wpc (writer g 0)) \<and> (\<forall>i. i \<noteq> 0 \<longrightarrow> writer g i = W_out (Pc [] []))"

lemma add_all_snoc:
  "add_all s list = Inr (None, s') \<Longrightarrow> Add s' ob = Inr (e, s'') \<Longrightarrow> add_all s (list @ [ob]) = Inr (e, s'')"
proof (induction list arbitrary: s)
  case Nil
  then show ?case by (cases e) simp_all
next
  case (Cons x list)
  then obtain s1 where "Add s x = Inr (None, s1)" "add_all s1 list = Inr (None, s')"
    by (auto simp: go_bind_Inr_iff split: option.splits)
  then show ?case using Cons by simp
qed

lemma replaced_Suc:
  assumes "replaced s0 list k s" "drop k list = ob # r" "Add s ob = Inr (None, s')"
  shows "replaced s0 list (Suc k) s' \<and> drop (Suc k) list = r"
proof -
  have k: "k < length list" using assms(2) by (metis drop_all list.distinct(1) not_less)
  then have "take (Suc k) list = take k list @ [ob]" "drop (Suc k) list = r"
    using assms(2) by (simp_all add: take_Suc_conv_app_nth Cons_nth_drop_Suc[symmetric])
  then show ?thesis using add_all_snoc[OF _ assms(3)] assms(1) k by (simp add: replaced_def)
qed

lemma replaced_0: "replaced s0 list 0 (s0\<lparr>metrics := []\<rparr>)"
  by (simp add: replaced_def)

lemma replace_pc_section:
  assumes "replace_pc s0 list rv s pc" "store_sec s pc s' pc'" "store_wants pc"
  shows "replace_pc s0 list rv s' pc'"
  using assms(2)
proof (cases rule: store_sec.cases)
  case (sec_body sec r ps)
  show ?thesis
  proof (cases "s = s0 \<and> pc = Pc (Sec_clear # map Sec_add list) []")
    case True
    then show ?thesis using sec_body replaced_0[of s0 list] by (auto simp: replace_pc_def intro!: exI[of _ 0])
  next
    case False
    then obtain k where k: "replaced s0 list k s" "map Sec_add (drop k list) = sec # r" "ps = []"
      using assms(1) sec_body by (auto simp: replace_pc_def)
    then obtain ob r' where r: "drop k list = ob # r'" "sec = Sec_add ob" "r = map Sec_add r'"
      by (cases "drop k list") auto
    then have "Add s ob = Inr (None, s')"
      using sec_body assms(3) by (auto simp: go_bind_Inr_iff Add_def split: option.splits)
    with replaced_Suc[OF k(1) r(1)] show ?thesis using sec_body k r by (auto simp: replace_pc_def)
  qed
next
  case (sec_panic sec p r ps)
  then have "sec \<noteq> Sec_clear" by auto
  then show ?thesis using sec_panic assms(1) by (auto simp: replace_pc_def)
qed

lemma only_replace_step:
  assumes "store_step_conc g g'" "only_replace s0 list rv g" "store_lock.good s g"
  shows "only_replace s0 list rv g'"
  using assms(1) unfolding store_step_conc_def
proof (cases rule: rw_step.cases)
  case (w_local i w w')
  then have "i = 0" using assms(2) by (auto simp: only_replace_def elim!: store_locE)
  moreover have "replace_pc s0 list rv (shared g) w'" if "replace_pc s0 list rv (shared g) w"
    using that w_local(3) by (auto simp: replace_pc_def elim!: store_locE)
  ultimately show ?thesis using w_local assms(2) by (auto simp: only_replace_def)
next
  case (w_Lock i w)
  then have "i = 0" using assms(2) by (cases "i = 0") (auto simp: only_replace_def)
  then show ?thesis using w_Lock assms(2) by (auto simp: only_replace_def)
next
  case (w_section i w s' w')
  then have "i = 0" using assms(2) by (auto simp: only_replace_def)
  moreover have "store_wants w"
    using store_lock.good_mid[OF assms(3) w_section(2)] w_section(3) by (auto simp: in_section_def elim!: store_secE)
  ultimately show ?thesis using w_section assms(2) replace_pc_section by (auto simp: only_replace_def)
next
  case (w_Unlock i w)
  then have "i = 0" using assms(2) by (auto simp: only_replace_def)
  then show ?thesis using w_Unlock assms(2) by (auto simp: only_replace_def)
qed (use assms(2) in \<open>auto simp: only_replace_def\<close>)

lemma only_replace_steps:
  assumes "store_step_conc\<^sup>*\<^sup>* (store_goroutines s0 (\<lambda>i. if i = 0 then [Op_Replace list rv] else [])) g"
  shows "only_replace s0 list rv g"
  using assms
proof (induction rule: rtranclp_induct)
  case base
  then show ?case by (simp add: only_replace_def store_goroutines_def rw_init_def replace_pc_def)
next
  case (step g1 g2)
  then show ?case using only_replace_step goroutines_good by blast
qed

text \<open>
  C20. While a list replaces the contents of a store, a scrape shows either all of the old contents or
  exactly the first \<open>k\<close> objects of the new list for some \<open>k\<close>, possibly none of them; old and new
  objects are never mixed.
\<close>

theorem scrape_during_Replace:
  assumes "store_ok s0" "arity_ok s0"
    and "store_step_conc\<^sup>*\<^sup>* (store_goroutines s0 (\<lambda>i. if i = 0 then [Op_Replace list rv] else [])) g"
    and "reader g j = R_done pc"
  shows "\<exists>t s order. pc = At_header (length (headers s0)) t \<and> order_ok order \<and> WriteAll order s = Inr t \<and>
    (s = s0 \<or> (\<exists>k \<le> length list. add_all (s0\<lparr>metrics := []\<rparr>) (take k list) = Inr (None, s)))"
proof -
  let ?g0 = "store_goroutines s0 (\<lambda>i. if i = 0 then [Op_Replace list rv] else [])"
  obtain t g1 order where g1: "pc = At_header (length (headers s0)) t" "store_step_conc\<^sup>*\<^sup>* ?g0 g1"
    "order_ok order" "WriteAll order (shared g1) = Inr t"
    by (rule scrape_snapshot[OF assms(1,2) rtranclp.rtrancl_refl _ assms(3,4)])
       (auto simp: store_goroutines_def rw_init_def)
  from only_replace_steps[OF g1(2)] have "shared g1 = s0 \<or> (\<exists>k. replaced s0 list k (shared g1))"
    by (auto simp: only_replace_def replace_pc_def)
  then show ?thesis using g1 unfolding replaced_def by blast
qed

subsection \<open>A run\<close>

text \<open>One goroutine replaces the contents of a store while another scrapes it.\<close>

definition demo_goroutines :: store_state where
  "demo_goroutines = store_goroutines demo_store (\<lambda>i. if i = 0 then [Op_Replace [demo_obj ''a'', demo_obj ''b''] ''7''] else [])"

lemma demo_store_fine: "store_ok demo_store" "arity_ok demo_store"
  unfolding demo_store_def using arity_ok_Compose by auto

lemma demo_scrape_waits: "reader demo_goroutines 0 = R_wait (At_header 0 [])"
  by (simp add: demo_goroutines_def store_goroutines_def rw_init_def)

lemma demo_scrape_done: "\<exists>g pc. store_step_conc\<^sup>*\<^sup>* demo_goroutines g \<and> reader g 0 = R_done pc"
  using store_lock.reader_can_finish[OF goroutines_good[OF rtranclp.rtrancl_refl]] demo_scrape_waits
  unfolding demo_goroutines_def store_step_conc_def by metis

theorem scrape_is_atomic_witness:
  "\<exists>g' t g1 order. store_step_conc\<^sup>*\<^sup>* demo_goroutines g1 \<and> store_step_conc\<^sup>*\<^sup>* g1 g' \<and>
     reader g' 0 = R_done (At_header 1 t) \<and> WriteAll order (shared g1) = Inr t"
proof -
  obtain g pc where g: "store_step_conc\<^sup>*\<^sup>* demo_goroutines g" "reader g 0 = R_done pc" using demo_scrape_done by blast
  have "length (headers demo_store) = 1" by (simp add: demo_store_def NewMetricsStore_def ExtractMetricFamilyHeaders_def)
  with scrape_is_atomic[OF demo_store_fine rtranclp.rtrancl_refl
      demo_scrape_waits[unfolded demo_goroutines_def] g(1)[unfolded demo_goroutines_def] g(2)] g(2)
  show ?thesis unfolding demo_goroutines_def by metis
qed


theorem scrape_during_Replace_witness:
  "\<exists>g t s. store_step_conc\<^sup>*\<^sup>* demo_goroutines g \<and> reader g 0 = R_done (At_header 1 t) \<and>
     (s = demo_store \<or> (\<exists>k \<le> 2. add_all demo_store (take k [demo_obj ''a'', demo_obj ''b'']) = Inr (None, s)))"
proof -
  obtain g pc where g: "store_step_conc\<^sup>*\<^sup>* demo_goroutines g" "reader g 0 = R_done pc" using demo_scrape_done by blast
  have d: "length (headers demo_store) = 1" "demo_store\<lparr>metrics := []\<rparr> = demo_store"
    by (simp_all add: demo_store_def NewMetricsStore_def ExtractMetricFamilyHeaders_def)
  from scrape_during_Replace[OF demo_store_fine g(1)[unfolded demo_goroutines_def] g(2)] g(1) d show ?thesis
    using g(2) by (auto simp: numeral_2_eq_2)
qed

end
