(* ===== verification/Go_Http.thy ===== *)
theory Go_Http
  imports Go_Strings Prelude
begin

text \<open>
  The parts of Go's \<open>path\<close>, \<open>path/filepath\<close>, \<open>net\<close> and \<open>net/http\<close> that \<open>main.go\<close> and
  \<open>pkg/version\<close> use: cleaning of URL paths, the request multiplexer, the join of host and port,
  and the last element of a file name.

  The multiplexer is the one for patterns without a host name, and for requests whose method is not
  CONNECT and whose target is not \<open>*\<close>.
\<close>

subsection \<open>Paths\<close>

text \<open>The stack of elements of a rooted path; \<open>..\<close> at the root is dropped.\<close>

definition clean_element :: "string list \<Rightarrow> string \<Rightarrow> string list" where
  "clean_element stack e =
     (if e = [] \<or> e = ''.'' then stack else if e = ''..'' then tl stack else e # stack)"

definition path_elements :: "string \<Rightarrow> string list" where
  "path_elements p = rev (foldl clean_element [] (Split (CHR ''/'') p))"

text \<open>\<open>path.Clean\<close> of a rooted path.\<close>

definition path_Clean :: "string \<Rightarrow> string" where
  "path_Clean p = CHR ''/'' # Join (path_elements p) ''/''"

text \<open>\<open>cleanPath\<close> of \<open>net/http\<close>: like \<open>path.Clean\<close>, but a trailing slash stays.\<close>

definition cleanPath :: "string \<Rightarrow> string" where
  "cleanPath p =
     (if p = [] then ''/''
      else let q = (if hd p \<noteq> CHR ''/'' then CHR ''/'' # p else p); np = path_Clean q
           in if last q = CHR ''/'' \<and> np \<noteq> ''/'' then np @ ''/'' else np)"

text \<open>\<open>filepath.Base\<close>, on a system whose separator is the slash.\<close>

definition Base :: "string \<Rightarrow> string" where
  "Base p =
     (if p = [] then ''.''
      else let q = rev (dropWhile (\<lambda>c. c = CHR ''/'') (rev p)); b = last (Split (CHR ''/'') q)
           in if b = [] then ''/'' else b)"

definition JoinHostPort :: "string \<Rightarrow> string \<Rightarrow> string" where
  "JoinHostPort host port =
     (if CHR '':'' \<in> set host then ''['' @ host @ '']:'' @ port else host @ '':'' @ port)"

subsection \<open>The request multiplexer\<close>

type_synonym 'h mux = "(string \<times> 'h) list"

text \<open>Registering a pattern twice or an empty one panics.\<close>

definition mux_Handle :: "string \<Rightarrow> 'h \<Rightarrow> 'h mux \<Rightarrow> 'h mux go" where
  "mux_Handle pattern h mux =
     (if pattern = [] then Inl (Panic_msg ''http: invalid pattern'')
      else if map_of mux pattern \<noteq> None then Inl (Panic_msg (''http: multiple registrations for '' @ pattern))
      else Inr (mux @ [(pattern, h)]))"

definition mux_register :: "(string \<times> 'h) list \<Rightarrow> 'h mux go" where
  "mux_register hs = go_foldM (\<lambda>mux (pattern, h). mux_Handle pattern h mux) [] hs"

text \<open>The patterns that end in a slash, longest first, match all paths below them.\<close>

definition subtree_patterns :: "'h mux \<Rightarrow> (string \<times> 'h) list" where
  "subtree_patterns mux = sort_key (\<lambda>(p, h). - int (length p)) (filter (\<lambda>(p, h). last p = CHR ''/'') mux)"

definition mux_match :: "'h mux \<Rightarrow> string \<Rightarrow> 'h option" where
  "mux_match mux path =
     (case map_of mux path of
        Some h \<Rightarrow> Some h
      | None \<Rightarrow> map_option snd (find (\<lambda>(p, h). HasPrefix path p) (subtree_patterns mux)))"

definition mux_shouldRedirect :: "'h mux \<Rightarrow> string \<Rightarrow> bool" where
  "mux_shouldRedirect mux path \<longleftrightarrow>
     map_of mux path = None \<and> path \<noteq> [] \<and> map_of mux (path @ ''/'') \<noteq> None \<and> last path \<noteq> CHR ''/''"

datatype 'h routed = Moved_permanently string | To 'h | Not_found

definition mux_Handler :: "'h mux \<Rightarrow> string \<Rightarrow> 'h routed" where
  "mux_Handler mux urlPath =
     (let path = cleanPath urlPath in
      if mux_shouldRedirect mux path then Moved_permanently (path @ ''/'')
      else if path \<noteq> urlPath then Moved_permanently path
      else case mux_match mux urlPath of Some h \<Rightarrow> To h | None \<Rightarrow> Not_found)"

subsection \<open>Lemmas\<close>

text \<open>The elements of a clean path.\<close>

definition element_ok :: "string \<Rightarrow> bool" where
  "element_ok e \<longleftrightarrow> e \<noteq> [] \<and> e \<noteq> ''.'' \<and> e \<noteq> ''..'' \<and> CHR ''/'' \<notin> set e"

lemma clean_element_ok:
  "list_all element_ok st \<Longrightarrow> list_all (\<lambda>e. CHR ''/'' \<notin> set e) es \<Longrightarrow> list_all element_ok (foldl clean_element st es)"
proof (induction es arbitrary: st)
  case (Cons e es)
  have "list_all element_ok (clean_element st e)"
    using Cons.prems by (cases st) (auto simp: clean_element_def element_ok_def list_all_iff)
  then show ?case using Cons by simp
qed simp

lemma path_elements_ok: "list_all element_ok (path_elements p)"
proof -
  have "list_all (\<lambda>e. CHR ''/'' \<notin> set e) (Split (CHR ''/'') p)" by (auto simp: list_all_iff dest: Split_no_sep)
  then show ?thesis using clean_element_ok[of "[]"] by (simp add: path_elements_def)
qed

lemma clean_element_ok_elements: "list_all element_ok es \<Longrightarrow> foldl clean_element st es = rev es @ st"
  by (induction es arbitrary: st) (auto simp: clean_element_def element_ok_def)

lemma clean_element_Nil [simp]: "clean_element st [] = st"
  by (simp add: clean_element_def)

lemma Split_slash [simp]: "Split c (c # s) = [] # Split c s"
  by simp

lemma Split_trailing: "Split c (s @ [c]) = Split c s @ [[]]"
  by (induction s) (auto split: list.splits)

lemma path_elements_trailing: "path_elements (p @ ''/'') = path_elements p"
  by (simp add: path_elements_def Split_trailing)

text \<open>A clean path has the elements it was made of.\<close>

lemma path_elements_Join:
  assumes "list_all element_ok es"
  shows "path_elements (CHR ''/'' # Join es ''/'') = es"
proof (cases "es = []")
  case True
  then show ?thesis by (simp add: path_elements_def)
next
  case False
  then have "Split (CHR ''/'') (Join es ''/'') = es"
    using assms by (intro Split_Join) (auto simp: list_all_iff element_ok_def)
  then show ?thesis using assms by (simp add: path_elements_def clean_element_ok_elements)
qed

lemma path_Clean_idem [simp]: "path_Clean (path_Clean p) = path_Clean p"
  unfolding path_Clean_def using path_elements_Join[OF path_elements_ok] by simp

lemma path_Clean_trailing: "path_Clean (p @ ''/'') = path_Clean p"
  by (simp add: path_Clean_def path_elements_trailing)

lemma hd_path_Clean [simp]: "path_Clean p \<noteq> []" "hd (path_Clean p) = CHR ''/''"
  by (simp_all add: path_Clean_def)

lemma last_Join: "es \<noteq> [] \<Longrightarrow> last es \<noteq> [] \<Longrightarrow> Join es sep \<noteq> [] \<and> last (Join es sep) = last (last es)"
  by (induction es sep rule: Join.induct) auto

lemma path_Clean_last: "path_Clean p \<noteq> ''/'' \<Longrightarrow> last (path_Clean p) \<noteq> CHR ''/''"
proof -
  assume "path_Clean p \<noteq> ''/''"
  then have ne: "path_elements p \<noteq> []" by (auto simp: path_Clean_def)
  then have "element_ok (last (path_elements p))" using path_elements_ok[of p] by (simp add: list_all_iff)
  then have l: "last (path_elements p) \<noteq> []" "CHR ''/'' \<notin> set (last (path_elements p))" by (auto simp: element_ok_def)
  then have "last (last (path_elements p)) \<noteq> CHR ''/''" by (metis last_in_set)
  then show ?thesis using last_Join[OF ne l(1), of "''/''"] by (simp add: path_Clean_def)
qed

lemma cleanPath_rooted: "cleanPath p \<noteq> []" "hd (cleanPath p) = CHR ''/''"
  by (simp_all add: cleanPath_def Let_def path_Clean_def)

lemma cleanPath_idem: "cleanPath (cleanPath p) = cleanPath p"
proof -
  have clean: "cleanPath (path_Clean q) = path_Clean q" for q
    using path_Clean_last[of q] by (auto simp: cleanPath_def Let_def)
  have "cleanPath (path_Clean q @ ''/'') = path_Clean q @ ''/''" if "path_Clean q \<noteq> ''/''" for q
    using that path_Clean_trailing[of "path_Clean q"] by (simp add: cleanPath_def Let_def hd_append)
  moreover have "cleanPath ''/'' = ''/''" using clean[of "[]"] by (simp add: path_Clean_def path_elements_def)
  ultimately show ?thesis using clean unfolding cleanPath_def[of p] by (auto simp: Let_def)
qed

lemma cleanPath_add_slash:
  assumes "cleanPath p = p" "last p \<noteq> CHR ''/''"
  shows "cleanPath (p @ ''/'') = p @ ''/''"
proof -
  have p: "p \<noteq> []" "hd p = CHR ''/''" using cleanPath_rooted[of p] assms(1) by auto
  have "path_Clean p = p" using assms p by (auto simp: cleanPath_def Let_def split: if_splits)
  moreover have "p \<noteq> ''/''" using assms(2) by auto
  ultimately show ?thesis using p path_Clean_trailing[of p] by (simp add: cleanPath_def Let_def)
qed

text \<open>The target of a redirect is clean, and a clean path is only redirected to add a slash.\<close>

lemma redirect_clean: "mux_Handler mux p = Moved_permanently q \<Longrightarrow> cleanPath q = q"
  using cleanPath_idem[of p] cleanPath_add_slash[of "cleanPath p"]
  by (auto simp: mux_Handler_def mux_shouldRedirect_def Let_def split: if_splits option.splits)

end
