(* ===== verification/Program.thy ===== *)
theory Program
  imports Main_Wiring Go_Http
begin

text \<open>
  The rest of \<open>main.go\<close> and \<open>pkg/version\<close>: the whole of \<open>main\<close> from the command line to the two
  servers, the creation of the API clients, and the routing of the requests.

  The flag parser, the client constructors and the server's version request are parameters, as are
  the profiling handlers. Response headers are those the program sets itself.
\<close>

subsection \<open>Version (pkg/version)\<close>

text \<open>What the linker and the Go runtime provide.\<close>

record build_env =
  Release :: string
  Commit :: string
  env_BuildDate :: string
  runtime_Version :: string
  runtime_Compiler :: string
  GOOS :: string
  GOARCH :: string
  Args0 :: string

record version_info =
  GitCommit :: string
  BuildDate :: string
  vi_Release :: string
  GoVersion :: string
  vi_Compiler :: string
  vi_Platform :: string

definition GetVersion :: "build_env \<Rightarrow> version_info" where
  "GetVersion env = \<lparr>GitCommit = Commit env, BuildDate = env_BuildDate env, vi_Release = Release env,
     GoVersion = runtime_Version env, vi_Compiler = runtime_Compiler env, vi_Platform = GOOS env @ ''/'' @ GOARCH env\<rparr>"

definition Version_String :: "build_env \<Rightarrow> version_info \<Rightarrow> string" where
  "Version_String env v =
     Base (Args0 env) @ ''/'' @ vi_Release v @ '' ('' @ GOOS env @ ''/'' @ GOARCH env @ '') kube-state-metrics/'' @ GitCommit v"

subsection \<open>API clients\<close>

record rest_config =
  cfg_Host :: string
  UserAgent :: string
  AcceptContentTypes :: string
  ContentType :: string

text \<open>The library calls that \<open>createKubeClient\<close> makes.\<close>

record 'w kube_api =
  BuildConfigFromFlags :: "string \<Rightarrow> string \<Rightarrow> err + rest_config"
  kube_NewForConfig :: "rest_config \<Rightarrow> err + 'w world client"
  vpa_NewForConfig :: "rest_config \<Rightarrow> err + 'w world client"
  ServerVersion :: "'w world client \<Rightarrow> err + string"

definition createKubeClient ::
  "'w kube_api \<Rightarrow> build_env \<Rightarrow> string \<Rightarrow> string \<Rightarrow> err + 'w world client \<times> 'w world client" where
  "createKubeClient api env apiserver kubeconfig =
     (case BuildConfigFromFlags api apiserver kubeconfig of
        Inl e \<Rightarrow> Inl e
      | Inr config0 \<Rightarrow>
          (let config = config0\<lparr>UserAgent := Version_String env (GetVersion env),
                 AcceptContentTypes := ''application/vnd.kubernetes.protobuf,application/json'',
                 ContentType := ''application/vnd.kubernetes.protobuf''\<rparr> in
           case kube_NewForConfig api config of
             Inl e \<Rightarrow> Inl e
           | Inr kc \<Rightarrow>
               (case vpa_NewForConfig api config of
                  Inl e \<Rightarrow> Inl e
                | Inr vc \<Rightarrow>
                    (case ServerVersion api kc of
                       Inl (Err e) \<Rightarrow> Inl (Err (''error while trying to communicate with apiserver: '' @ e))
                     | Inr v \<Rightarrow> Inr (kc, vc)))))"

subsection \<open>main\<close>

text \<open>How the program goes on after the set-up.\<close>

datatype 'w outcome =
    Fatal string
  | Prints_version version_info
  | Prints_usage
  | Serves (serving: "'w MetricsHandler") (listen: string) (telemetry_listen: string)

fun err_text :: "err \<Rightarrow> string" where
  "err_text (Err e) = e"

definition main ::
  "(string list \<Rightarrow> Options \<Rightarrow> err + Options) \<Rightarrow> regexp_compiler \<Rightarrow> 'w kube_api \<Rightarrow> build_env \<Rightarrow> string list \<Rightarrow> 'w outcome" where
  "main parse_flags Compile api env args =
     (case parse_flags args (AddFlags NewOptions) of
        Inl (Err e) \<Rightarrow> Fatal (''Error: '' @ e)
      | Inr opts \<Rightarrow>
          (if Version opts then Prints_version (GetVersion env)
           else if Help opts then Prints_usage
           else (case main_handler Compile (createKubeClient api env) opts of
                   Inl e \<Rightarrow> Fatal (err_text e)
                 | Inr m \<Rightarrow> Serves m (JoinHostPort (opts_Host opts) (Itoa (opts_Port opts)))
                              (JoinHostPort (TelemetryHost opts) (Itoa (TelemetryPort opts))))))"

subsection \<open>Routes\<close>

datatype endpoint =
    Pprof_Index | Pprof_Cmdline | Pprof_Profile | Pprof_Symbol | Pprof_Trace
  | Metrics_endpoint | Healthz_endpoint | Index_endpoint

definition serve_routes :: "(string \<times> endpoint) list" where
  "serve_routes =
    [(''/debug/pprof/'', Pprof_Index),
     (''/debug/pprof/cmdline'', Pprof_Cmdline),
     (''/debug/pprof/profile'', Pprof_Profile),
     (''/debug/pprof/symbol'', Pprof_Symbol),
     (''/debug/pprof/trace'', Pprof_Trace),
     (metricsPath, Metrics_endpoint),
     (healthzPath, Healthz_endpoint),
     (''/'', Index_endpoint)]"

definition serve_mux :: "endpoint mux go" where
  "serve_mux = mux_register serve_routes"

datatype telemetry_endpoint = Telemetry_metrics | Telemetry_index

definition telemetry_mux :: "telemetry_endpoint mux go" where
  "telemetry_mux = mux_register [(metricsPath, Telemetry_metrics), (''/'', Telemetry_index)]"

definition quote_char :: char where
  "quote_char = CHR 0x27"

definition tab_char :: char where
  "tab_char = CHR 0x09"

text \<open>An entry of an index page.\<close>

definition index_link :: "string \<Rightarrow> string \<Rightarrow> string" where
  "index_link target name =
     ''             <li><a href='' @ [quote_char] @ target @ [quote_char] @ ''>'' @ name @ ''</a></li>''"

definition index_page :: string where
  "index_page = Join
    [''<html>'',
     ''             <head><title>Kube Metrics Server</title></head>'',
     ''             <body>'',
     ''             <h1>Kube Metrics</h1>'',
     [tab_char, tab_char, tab_char] @ '' <ul>'',
     index_link metricsPath ''metrics'',
     index_link healthzPath ''healthz'',
     [tab_char, tab_char, tab_char] @ '' </ul>'',
     ''             </body>'',
     ''             </html>''] [newline]"

definition telemetry_index_page :: string where
  "telemetry_index_page = Join
    [''<html>'',
     ''             <head><title>Kube-State-Metrics Metrics Server</title></head>'',
     ''             <body>'',
     ''             <h1>Kube-State-Metrics Metrics</h1>'',
     [tab_char, tab_char, tab_char] @ '' <ul>'',
     index_link metricsPath ''metrics'',
     [tab_char, tab_char, tab_char] @ '' </ul>'',
     ''             </body>'',
     ''             </html>''] [newline]"

text \<open>An answer: a redirect, or a status with the response.\<close>

datatype answer = Redirected string | Answer (status: int) (response: response)

definition plain :: "string \<Rightarrow> response" where
  "plain body = \<lparr>resp_header = [], resp_body = body\<rparr>"

fun respond ::
  "(endpoint \<Rightarrow> string \<Rightarrow> int \<times> response) \<Rightarrow> (nat \<Rightarrow> string) \<Rightarrow> map_order \<Rightarrow> 'w MetricsHandler \<Rightarrow> string \<Rightarrow> string \<Rightarrow> endpoint \<Rightarrow> answer go" where
  "respond pprof gzip_tail order m acceptEncoding path Metrics_endpoint =
     go_bind (ServeHTTP gzip_tail order acceptEncoding m) (\<lambda>r. Inr (Answer 200 r))"
| "respond pprof gzip_tail order m acceptEncoding path Healthz_endpoint = Inr (Answer 200 (plain ''OK''))"
| "respond pprof gzip_tail order m acceptEncoding path Index_endpoint = Inr (Answer 200 (plain index_page))"
| "respond pprof gzip_tail order m acceptEncoding path e = (case pprof e path of (code, r) \<Rightarrow> Inr (Answer code r))"

definition serve_request ::
  "(endpoint \<Rightarrow> string \<Rightarrow> int \<times> response) \<Rightarrow> (nat \<Rightarrow> string) \<Rightarrow> map_order \<Rightarrow> 'w MetricsHandler \<Rightarrow> string \<Rightarrow> string \<Rightarrow> answer go" where
  "serve_request pprof gzip_tail order m acceptEncoding path =
     go_bind serve_mux (\<lambda>mux.
       case mux_Handler mux path of
         Moved_permanently u \<Rightarrow> Inr (Redirected u)
       | To e \<Rightarrow> respond pprof gzip_tail order m acceptEncoding path e
       | Not_found \<Rightarrow> Inr (Answer 404 (plain ''404 page not found'')))"

definition telemetry_request :: "int \<times> response \<Rightarrow> string \<Rightarrow> answer go" where
  "telemetry_request gathered path =
     go_bind telemetry_mux (\<lambda>mux.
       case mux_Handler mux path of
         Moved_permanently u \<Rightarrow> Inr (Redirected u)
       | To Telemetry_metrics \<Rightarrow> (case gathered of (code, r) \<Rightarrow> Inr (Answer code r))
       | To Telemetry_index \<Rightarrow> Inr (Answer 200 (plain telemetry_index_page))
       | Not_found \<Rightarrow> Inr (Answer 404 (plain ''404 page not found'')))"

subsection \<open>Lemmas\<close>

lemma serve_mux_routes: "serve_mux = Inr serve_routes"
  unfolding serve_mux_def serve_routes_def mux_register_def mux_Handle_def metricsPath_def healthzPath_def by simp

lemma subtrees: "subtree_patterns serve_routes = [(''/debug/pprof/'', Pprof_Index), (''/'', Index_endpoint)]"
  by (simp add: subtree_patterns_def serve_routes_def metricsPath_def healthzPath_def)

text \<open>The routes as a case distinction on the path.\<close>

definition route :: "string \<Rightarrow> endpoint" where
  "route path =
     (if path = ''/metrics'' then Metrics_endpoint
      else if path = ''/healthz'' then Healthz_endpoint
      else if path = ''/debug/pprof/cmdline'' then Pprof_Cmdline
      else if path = ''/debug/pprof/profile'' then Pprof_Profile
      else if path = ''/debug/pprof/symbol'' then Pprof_Symbol
      else if path = ''/debug/pprof/trace'' then Pprof_Trace
      else if HasPrefix path ''/debug/pprof/'' then Pprof_Index
      else Index_endpoint)"

lemma mux_match_route:
  assumes "hd path = CHR ''/''" "path \<noteq> []"
  shows "mux_match serve_routes path = Some (route path)"
proof -
  have "HasPrefix path ''/''" using assms by (cases path) (auto simp: HasPrefix_def)
  then have below: "map_option snd (find (\<lambda>(p, h). HasPrefix path p) (subtree_patterns serve_routes)) =
      Some (if HasPrefix path ''/debug/pprof/'' then Pprof_Index else Index_endpoint)"
    by (simp add: subtrees)
  show ?thesis
    unfolding mux_match_def below
    by (simp add: route_def serve_routes_def metricsPath_def healthzPath_def HasPrefix_def)
qed

lemma shouldRedirect_route:
  "mux_shouldRedirect serve_routes path \<longleftrightarrow> path = ''/debug/pprof''"
  by (auto simp: mux_shouldRedirect_def serve_routes_def metricsPath_def healthzPath_def split: if_splits)

lemma mux_Handler_routes:
  "mux_Handler serve_routes path =
     (let p = cleanPath path in
      if p = ''/debug/pprof'' then Moved_permanently ''/debug/pprof/''
      else if p \<noteq> path then Moved_permanently p
      else To (route path))"
  using mux_match_route[of path] cleanPath_rooted[of path]
  by (auto simp: mux_Handler_def shouldRedirect_route Let_def)

lemma pprof_slash_clean: "cleanPath ''/debug/pprof/'' = ''/debug/pprof/''"
  by code_simp

lemma respond_returns:
  assumes "list_all (\<lambda>r. store_ok (run_store r)) (h_stores m)" "order_ok order"
  shows "\<exists>code r. respond pprof gzip_tail order m hdr path e = Inr (Answer code r)"
proof (cases e)
  case Metrics_endpoint
  then show ?thesis using ServeHTTP_text[OF assms] by (auto simp: ServeHTTP_def Let_def)
qed (auto split: prod.splits)

text \<open>When every enabled resource, list and client is fine, the set-up succeeds, and only then.\<close>

lemma compile_all_returns: "(\<exists>rs. compile_all C items = Inr rs) \<longleftrightarrow> list_all (\<lambda>e. \<not> isl (C e)) items"
  by (induction items) (auto split: sum.splits)

definition lists_ok :: "regexp_compiler \<Rightarrow> Options \<Rightarrow> bool" where
  "lists_ok Compile opts \<longleftrightarrow>
     (MetricAllowlist opts = [] \<or> MetricDenylist opts = []) \<and>
     list_all (\<lambda>e. \<not> isl (Compile e)) (MetricAllowlist opts @ MetricDenylist opts)"

lemma lists_ok_iff:
  "(\<exists>l l'. New (MetricAllowlist opts) (MetricDenylist opts) = Inr l \<and> Parse Compile l = (None, l')) \<longleftrightarrow> lists_ok Compile opts"
proof -
  have parse: "(\<exists>l'. Parse Compile l = (None, l')) \<longleftrightarrow> list_all (\<lambda>e. \<not> isl (Compile e)) (adl_list l)" for l
    using compile_all_returns[of Compile "adl_list l"] by (auto simp: Parse_def split: sum.splits)
  have copy: "list_all P (copyList l) \<longleftrightarrow> list_all P l" for P l by (simp add: list_all_iff)
  show ?thesis
    by (cases "MetricAllowlist opts = []"; cases "MetricDenylist opts = []")
       (auto simp: New_def lists_ok_def parse copy)
qed

lemma main_builder_iff:
  fixes k :: "string \<Rightarrow> string \<Rightarrow> err + 'w world client \<times> 'w world client"
  shows "(\<exists>b. main_builder Compile k opts = Inr b) \<longleftrightarrow>
   list_all resourceExists (enabled_resources_of opts) \<and> lists_ok Compile opts \<and> \<not> isl (k (Apiserver opts) (Kubeconfig opts))"
proof -
  let ?b = "WithMetrics (Some []) NewBuilder :: 'w Builder"
  note W = WithEnabledResources_cases[of "enabled_resources_of opts" ?b]
  show ?thesis
  proof (cases "list_all resourceExists (enabled_resources_of opts) \<and> lists_ok Compile opts")
    case True
    then obtain l l' where l: "New (MetricAllowlist opts) (MetricDenylist opts) = Inr l" "Parse Compile l = (None, l')"
      using lists_ok_iff by blast
    show ?thesis using True W l by (auto simp: main_builder_def Let_def split: sum.splits err.splits)
  next
    case False
    then have "\<nexists>b. main_builder Compile k opts = Inr b"
      using W lists_ok_iff[of opts Compile]
      by (auto simp: main_builder_def Let_def split: sum.splits prod.splits option.splits err.splits)
    then show ?thesis using False by blast
  qed
qed

subsection \<open>From the flags to the builder\<close>

text \<open>
  What repeated flags give the builder: the resources of all \<open>--resources\<close> together, or the default
  ones, and the namespaces of all \<open>--namespace\<close> one after the other, or every namespace.
\<close>

lemma flags_reach_builder:
  assumes "main (\<lambda>args opts. parse_assignments ps opts (read args)) Compile api env args = Serves m l t"
  defines "rs \<equiv> \<Union>v \<in> set (flag_values ''resources'' (read args)). set (flag_entries v)"
    and "ns \<equiv> concat (map flag_entries (flag_values ''namespace'' (read args)))"
  shows "set (enabledResources (storeBuilder m)) = (if rs = {} then set DefaultResources else rs) \<and>
    b_namespaces (storeBuilder m) = (if ns = [] then DefaultNamespaces else ns)"
proof -
  obtain opts where opts: "parse_assignments ps (AddFlags NewOptions) (read args) = Inr opts"
    "main_handler Compile (createKubeClient api env) opts = Inr m"
    using assms(1) by (auto simp: main_def split: sum.splits err.splits if_splits)
  have "set (Resources opts) = rs" "Namespaces opts = ns"
    using list_flags_accumulate[OF opts(1)] by (auto simp: rs_def ns_def AddFlags_def NewOptions_def)
  moreover have "Resources opts = [] \<longleftrightarrow> set (Resources opts) = {}" by simp
  moreover have "enabledResources (storeBuilder m) = sort (enabled_resources_of opts)" "b_namespaces (storeBuilder m) = namespaces_of opts"
    using main_builder_ok main_handler_built[OF opts(2)] by blast+
  ultimately show ?thesis
    by (simp add: enabled_resources_of_def namespaces_of_def ResourceSet_AsSlice_def asSlice_def)
qed

subsection \<open>Properties\<close>


text \<open>
  C34. Requests are routed as documented: a path that is not clean is redirected to its clean form and
  \<open>/debug/pprof\<close> to \<open>/debug/pprof/\<close>; \<open>/metrics\<close> scrapes, \<open>/healthz\<close> answers 200 OK, everything
  below \<open>/debug/pprof/\<close> goes to the profiler, and every other path gets the index page.
\<close>

theorem serve_request_routes:
  "serve_request pprof gzip_tail order m hdr path =
     (if cleanPath path = ''/debug/pprof'' then Inr (Redirected ''/debug/pprof/'')
      else if cleanPath path \<noteq> path then Inr (Redirected (cleanPath path))
      else if path = ''/metrics'' then go_bind (ServeHTTP gzip_tail order hdr m) (\<lambda>r. Inr (Answer 200 r))
      else if path = ''/healthz'' then Inr (Answer 200 (plain ''OK''))
      else if HasPrefix path ''/debug/pprof/''
        then (case pprof (route path) path of (code, r) \<Rightarrow> Inr (Answer code r))
      else Inr (Answer 200 (plain index_page)))"
proof -
  have "serve_request pprof gzip_tail order m hdr path =
    (if cleanPath path = ''/debug/pprof'' then Inr (Redirected ''/debug/pprof/'')
     else if cleanPath path \<noteq> path then Inr (Redirected (cleanPath path))
     else respond pprof gzip_tail order m hdr path (route path))"
    by (simp add: serve_request_def serve_mux_routes mux_Handler_routes Let_def)
  then show ?thesis by (simp add: route_def HasPrefix_def split: prod.split)
qed

text \<open>
  Every request is answered after at most one redirect: no redirect leads to another one, no path
  is unknown, and no handler panics.
\<close>

lemma requests_are_answered:
  assumes "list_all (\<lambda>r. store_ok (run_store r)) (h_stores m)" "order_ok order"
  shows "\<exists>path' code r. (path' = path \<or> serve_request pprof gzip_tail order m hdr path = Inr (Redirected path')) \<and>
    serve_request pprof gzip_tail order m hdr path' = Inr (Answer code r)"
proof -
  have direct: "\<exists>code r. serve_request pprof gzip_tail order m hdr p = Inr (Answer code r)"
    if "cleanPath p = p" "p \<noteq> ''/debug/pprof''" for p
    using that respond_returns[OF assms]
    by (simp add: serve_request_def serve_mux_routes mux_Handler_routes Let_def)
  have redirected: "serve_request pprof gzip_tail order m hdr path =
      (if cleanPath path = ''/debug/pprof'' then Inr (Redirected ''/debug/pprof/'') else Inr (Redirected (cleanPath path)))"
    if "cleanPath path \<noteq> path \<or> path = ''/debug/pprof''"
    using that by (auto simp: serve_request_def serve_mux_routes mux_Handler_routes Let_def)
  consider "cleanPath path = ''/debug/pprof''" | "cleanPath path \<noteq> ''/debug/pprof''" "cleanPath path \<noteq> path"
    | "cleanPath path = path" "path \<noteq> ''/debug/pprof''" by auto
  then show ?thesis
  proof cases
    case 1
    then show ?thesis using direct[of "''/debug/pprof/''"] redirected pprof_slash_clean by fastforce
  next
    case 2
    then show ?thesis using direct[OF cleanPath_idem] redirected by fastforce
  next
    case 3
    then show ?thesis using direct[of path] by blast
  qed
qed

definition idle_handler :: "unit MetricsHandler" where
  "idle_handler = New_handler NewOptions NewBuilder False"

lemma requests_are_answered_witness:
  "\<exists>path' code r. (path' = ''/x/../metrics'' \<or>
       serve_request (\<lambda>e p. (200, plain [])) (\<lambda>n. []) (\<lambda>i m. m) idle_handler [] ''/x/../metrics'' = Inr (Redirected path')) \<and>
     serve_request (\<lambda>e p. (200, plain [])) (\<lambda>n. []) (\<lambda>i m. m) idle_handler [] path' = Inr (Answer code r)"
proof -
  have "list_all (\<lambda>r. store_ok (run_store r)) (h_stores idle_handler)" "order_ok (\<lambda>i m. m)"
    by (simp_all add: idle_handler_def New_handler_def order_ok_def)
  from requests_are_answered[OF this] show ?thesis .
qed

end
