(* ===== verification/Public_Builder.thy ===== *)
theory Public_Builder
  imports Builder
begin

text \<open>
  \<open>pkg/builder\<close>: the builder that other programs use. It holds an internal builder behind
  \<open>BuilderInterface\<close> and passes every call on. The locale \<open>builder_interface\<close> states what a client of
  the interface relies on; both builders are interpreted as one.
\<close>

record 'w Public_Builder =
  internal :: "'w Builder"

definition Public_NewBuilder :: "'w Public_Builder" where
  "Public_NewBuilder = \<lparr>internal = NewBuilder\<rparr>"

definition Public_WithMetrics :: "string list option \<Rightarrow> 'w Public_Builder \<Rightarrow> 'w Public_Builder" where
  "Public_WithMetrics r b = b\<lparr>internal := WithMetrics r (internal b)\<rparr>"

definition Public_WithEnabledResources :: "string list \<Rightarrow> 'w Public_Builder \<Rightarrow> err option \<times> 'w Public_Builder" where
  "Public_WithEnabledResources c b = (case WithEnabledResources c (internal b) of (e, i) \<Rightarrow> (e, b\<lparr>internal := i\<rparr>))"

definition Public_WithNamespaces :: "string list \<Rightarrow> 'w Public_Builder \<Rightarrow> 'w Public_Builder" where
  "Public_WithNamespaces n b = b\<lparr>internal := WithNamespaces n (internal b)\<rparr>"

definition Public_WithSharding :: "int \<Rightarrow> int \<Rightarrow> 'w Public_Builder \<Rightarrow> 'w Public_Builder" where
  "Public_WithSharding sh n b = b\<lparr>internal := WithSharding sh n (internal b)\<rparr>"

definition Public_WithContext :: "nat \<Rightarrow> 'w Public_Builder \<Rightarrow> 'w Public_Builder" where
  "Public_WithContext c b = b\<lparr>internal := WithContext c (internal b)\<rparr>"

definition Public_WithKubeClient :: "'w world client \<Rightarrow> 'w Public_Builder \<Rightarrow> 'w Public_Builder" where
  "Public_WithKubeClient c b = b\<lparr>internal := WithKubeClient c (internal b)\<rparr>"

definition Public_WithVPAClient :: "'w world client \<Rightarrow> 'w Public_Builder \<Rightarrow> 'w Public_Builder" where
  "Public_WithVPAClient c b = b\<lparr>internal := WithVPAClient c (internal b)\<rparr>"

definition Public_WithAllowDenyList :: "AllowDenyList option \<Rightarrow> 'w Public_Builder \<Rightarrow> 'w Public_Builder" where
  "Public_WithAllowDenyList l b = b\<lparr>internal := WithAllowDenyList l (internal b)\<rparr>"

definition Public_WithGenerateStoreFunc :: "'w store_func \<Rightarrow> 'w Public_Builder \<Rightarrow> 'w Public_Builder" where
  "Public_WithGenerateStoreFunc f b = b\<lparr>internal := WithGenerateStoreFunc f (internal b)\<rparr>"

definition Public_DefaultGenerateStoreFunc :: "'w Public_Builder \<Rightarrow> 'w store_func" where
  "Public_DefaultGenerateStoreFunc b = DefaultGenerateStoreFunc (internal b)"

definition Public_Build :: "schedule_parser \<Rightarrow> (watch list \<Rightarrow> watch) \<Rightarrow> 'w Public_Builder \<Rightarrow> 'w running list go" where
  "Public_Build ParseStandard merge b = Build ParseStandard merge (internal b)"

subsection \<open>BuilderInterface\<close>

text \<open>
  The calls that configure a builder. \<open>Call_WithDefaultStoreFunc\<close> is
  \<open>b.WithGenerateStoreFunc(b.DefaultGenerateStoreFunc())\<close>, which every user writes.
\<close>

datatype 'w builder_call =
    Call_WithMetrics "string list option"
  | Call_WithEnabledResources "string list"
  | Call_WithNamespaces "string list"
  | Call_WithSharding int int
  | Call_WithContext nat
  | Call_WithKubeClient "'w world client"
  | Call_WithVPAClient "'w world client"
  | Call_WithAllowDenyList "AllowDenyList option"
  | Call_WithGenerateStoreFunc "'w store_func"
  | Call_WithDefaultStoreFunc

fun internal_call :: "'w Builder \<Rightarrow> 'w builder_call \<Rightarrow> err option \<times> 'w Builder" where
  "internal_call b (Call_WithMetrics r) = (None, WithMetrics r b)"
| "internal_call b (Call_WithEnabledResources c) = WithEnabledResources c b"
| "internal_call b (Call_WithNamespaces n) = (None, WithNamespaces n b)"
| "internal_call b (Call_WithSharding sh n) = (None, WithSharding sh n b)"
| "internal_call b (Call_WithContext c) = (None, WithContext c b)"
| "internal_call b (Call_WithKubeClient c) = (None, WithKubeClient c b)"
| "internal_call b (Call_WithVPAClient c) = (None, WithVPAClient c b)"
| "internal_call b (Call_WithAllowDenyList l) = (None, WithAllowDenyList l b)"
| "internal_call b (Call_WithGenerateStoreFunc f) = (None, WithGenerateStoreFunc f b)"
| "internal_call b Call_WithDefaultStoreFunc = (None, WithGenerateStoreFunc (DefaultGenerateStoreFunc b) b)"

fun public_call :: "'w Public_Builder \<Rightarrow> 'w builder_call \<Rightarrow> err option \<times> 'w Public_Builder" where
  "public_call b (Call_WithMetrics r) = (None, Public_WithMetrics r b)"
| "public_call b (Call_WithEnabledResources c) = Public_WithEnabledResources c b"
| "public_call b (Call_WithNamespaces n) = (None, Public_WithNamespaces n b)"
| "public_call b (Call_WithSharding sh n) = (None, Public_WithSharding sh n b)"
| "public_call b (Call_WithContext c) = (None, Public_WithContext c b)"
| "public_call b (Call_WithKubeClient c) = (None, Public_WithKubeClient c b)"
| "public_call b (Call_WithVPAClient c) = (None, Public_WithVPAClient c b)"
| "public_call b (Call_WithAllowDenyList l) = (None, Public_WithAllowDenyList l b)"
| "public_call b (Call_WithGenerateStoreFunc f) = (None, Public_WithGenerateStoreFunc f b)"
| "public_call b Call_WithDefaultStoreFunc = (None, Public_WithGenerateStoreFunc (Public_DefaultGenerateStoreFunc b) b)"

text \<open>A client makes a list of calls and sees their errors.\<close>

fun run_calls :: "('b \<Rightarrow> 'c \<Rightarrow> err option \<times> 'b) \<Rightarrow> 'b \<Rightarrow> 'c list \<Rightarrow> err option list \<times> 'b" where
  "run_calls call b [] = ([], b)"
| "run_calls call b (c # cs) =
     (case call b c of (e, b') \<Rightarrow> (case run_calls call b' cs of (es, b'') \<Rightarrow> (e # es, b'')))"

locale builder_interface =
  fixes abs_builder :: "'b \<Rightarrow> 'w Builder"
    and call :: "'b \<Rightarrow> 'w builder_call \<Rightarrow> err option \<times> 'b"
    and build :: "schedule_parser \<Rightarrow> (watch list \<Rightarrow> watch) \<Rightarrow> 'b \<Rightarrow> 'w running list go"
  assumes call_refines: "map_prod id abs_builder (call b c) = internal_call (abs_builder b) c"
    and build_refines: "build P merge b = Build P merge (abs_builder b)"
begin

lemma calls_refine: "map_prod id abs_builder (run_calls call b cs) = run_calls internal_call (abs_builder b) cs"
proof (induction cs arbitrary: b)
  case (Cons c cs)
  obtain e b' where eb: "call b c = (e, b')" by fastforce
  then have "internal_call (abs_builder b) c = (e, abs_builder b')" using call_refines[of b c] by simp
  then show ?case using eb Cons.IH[of b'] by (auto split: prod.splits)
qed simp

text \<open>Whatever a client configures, the builder builds what an internal builder would.\<close>

lemma client_builds:
  "fst (run_calls call b cs) = fst (run_calls internal_call (abs_builder b) cs) \<and>
   build P merge (snd (run_calls call b cs)) = Build P merge (snd (run_calls internal_call (abs_builder b) cs))"
  by (simp add: calls_refine[symmetric] build_refines fst_map_prod snd_map_prod)

end

interpretation internal_builder: builder_interface id internal_call Build
  by unfold_locales (simp_all add: prod.map_id0)

lemmas public_builder_defs =
  Public_WithMetrics_def Public_WithEnabledResources_def Public_WithNamespaces_def Public_WithSharding_def
  Public_WithContext_def Public_WithKubeClient_def Public_WithVPAClient_def Public_WithAllowDenyList_def
  Public_WithGenerateStoreFunc_def Public_DefaultGenerateStoreFunc_def

interpretation public_builder: builder_interface internal public_call Public_Build
proof
  show "map_prod id internal (public_call b c) = internal_call (internal b) c" for b :: "'w Public_Builder" and c
    by (cases c) (auto simp: public_builder_defs split: prod.split)
qed (simp add: Public_Build_def)

text \<open>A program that uses the public builder gets the stores of the internal one, with the same errors.\<close>

lemma public_builder_builds:
  "fst (run_calls public_call Public_NewBuilder cs) = fst (run_calls internal_call NewBuilder cs) \<and>
   Public_Build P merge (snd (run_calls public_call Public_NewBuilder cs)) =
   Build P merge (snd (run_calls internal_call NewBuilder cs))"
  using public_builder.client_builds[of Public_NewBuilder cs P merge] by (simp add: Public_NewBuilder_def)

end
