(* ===== verification/Reaper.thy ===== *)
theory Reaper
  imports Prelude
begin

text \<open>
  \<open>pkg/util/proc\<close>: the reaper that the program starts when it is process 1, and that collects the
  children it inherits. The state has the kernel's view of the children, the pending SIGCHLD (signals
  of one kind do not queue), the channel of capacity one into which the Go runtime puts a signal
  without blocking, and the program counter of the goroutine.
\<close>

datatype reaper_pc = Starting | Waiting | Reaping

record reaper_state =
  children :: "nat set"
  zombies :: "nat set"
  sigchld :: bool
  sigs :: bool
  pc :: reaper_pc

definition StartReaper :: "nat \<Rightarrow> nat set \<Rightarrow> nat set \<Rightarrow> reaper_state option" where
  "StartReaper pid running dead =
     (if pid = 1 then Some \<lparr>children = running, zombies = dead, sigchld = False, sigs = False, pc = Starting\<rparr> else None)"

text \<open>On other platforms than Linux it has no effect.\<close>

definition StartReaper_unsupported :: "nat \<Rightarrow> nat set \<Rightarrow> nat set \<Rightarrow> reaper_state option" where
  "StartReaper_unsupported pid running dead = None"

text \<open>
  \<open>Wait4(-1, nil, WNOHANG, nil)\<close>: the pid of a dead child, 0 if all children are alive, -1 if there
  are none.
\<close>

inductive Wait4 :: "reaper_state \<Rightarrow> int \<Rightarrow> bool" where
  wait_dead: "c \<in> zombies s \<Longrightarrow> 0 < c \<Longrightarrow> Wait4 s (int c)"
| wait_alive: "zombies s = {} \<Longrightarrow> children s \<noteq> {} \<Longrightarrow> Wait4 s 0"
| wait_none: "zombies s = {} \<Longrightarrow> children s = {} \<Longrightarrow> Wait4 s (- 1)"

inductive reaper_step :: "reaper_state \<Rightarrow> reaper_state \<Rightarrow> bool" where
  inherit: "0 < c \<Longrightarrow> c \<notin> children s \<union> zombies s \<Longrightarrow> reaper_step s (s\<lparr>children := insert c (children s)\<rparr>)"
| child_exits: "c \<in> children s \<Longrightarrow>
    reaper_step s (s\<lparr>children := children s - {c}, zombies := insert c (zombies s), sigchld := True\<rparr>)"
| notify: "pc s = Starting \<Longrightarrow> reaper_step s (s\<lparr>pc := Waiting\<rparr>)"
| ignored: "sigchld s \<Longrightarrow> pc s = Starting \<Longrightarrow> reaper_step s (s\<lparr>sigchld := False\<rparr>)"
| deliver: "sigchld s \<Longrightarrow> pc s \<noteq> Starting \<Longrightarrow> reaper_step s (s\<lparr>sigchld := False, sigs := True\<rparr>)"
| receive: "pc s = Waiting \<Longrightarrow> sigs s \<Longrightarrow> reaper_step s (s\<lparr>sigs := False, pc := Reaping\<rparr>)"
| reap: "pc s = Reaping \<Longrightarrow> Wait4 s cpid \<Longrightarrow> \<not> cpid < 1 \<Longrightarrow>
    reaper_step s (s\<lparr>zombies := zombies s - {nat cpid}\<rparr>)"
| break: "pc s = Reaping \<Longrightarrow> Wait4 s cpid \<Longrightarrow> cpid < 1 \<Longrightarrow> reaper_step s (s\<lparr>pc := Waiting\<rparr>)"

inductive_cases reaper_stepE: "reaper_step s s'"
inductive_cases Wait4E: "Wait4 s cpid"

text \<open>The reaper is idle: it waits, and no signal is on its way.\<close>

definition idle :: "reaper_state \<Rightarrow> bool" where
  "idle s \<longleftrightarrow> pc s = Waiting \<and> \<not> sigchld s \<and> \<not> sigs s"

text \<open>Once a signal was raised after \<open>signal.Notify\<close>, dead children never go unnoticed.\<close>

definition noticed :: "reaper_state \<Rightarrow> bool" where
  "noticed s \<longleftrightarrow> pc s \<noteq> Starting \<and> (zombies s \<noteq> {} \<longrightarrow> sigchld s \<or> sigs s \<or> pc s = Reaping)"

definition pids_ok :: "reaper_state \<Rightarrow> bool" where
  "pids_ok s \<longleftrightarrow> finite (zombies s) \<and> 0 \<notin> zombies s \<union> children s"

lemma pids_ok_step: "reaper_step s s' \<Longrightarrow> pids_ok s \<Longrightarrow> pids_ok s'"
  by (erule reaper_stepE) (auto simp: pids_ok_def intro: gr0I)

lemma pids_ok_steps: "reaper_step\<^sup>*\<^sup>* s s' \<Longrightarrow> pids_ok s \<Longrightarrow> pids_ok s'"
  by (induction rule: rtranclp_induct) (auto dest: pids_ok_step)

lemma noticed_step: "reaper_step s s' \<Longrightarrow> noticed s \<Longrightarrow> noticed s'"
  by (erule reaper_stepE) (auto simp: noticed_def elim!: Wait4E)

lemma noticed_steps: "reaper_step\<^sup>*\<^sup>* s s' \<Longrightarrow> noticed s \<Longrightarrow> noticed s'"
  by (induction rule: rtranclp_induct) (auto dest: noticed_step)

text \<open>The inner loop collects every dead child and then breaks.\<close>

lemma reap_all:
  assumes "finite (zombies s)" "0 \<notin> zombies s" "pc s = Reaping"
  shows "reaper_step\<^sup>*\<^sup>* s (s\<lparr>zombies := {}, pc := Waiting\<rparr>)"
  using assms
proof (induction "card (zombies s)" arbitrary: s)
  case 0
  then have z: "zombies s = {}" by simp
  obtain cpid where "Wait4 s cpid" "cpid < 1" using Wait4.wait_alive[OF z] Wait4.wait_none[OF z] by force
  then have "reaper_step s (s\<lparr>pc := Waiting\<rparr>)" using 0 by (intro reaper_step.break)
  moreover have "s\<lparr>zombies := {}, pc := Waiting\<rparr> = s\<lparr>pc := Waiting\<rparr>" using z by simp
  ultimately show ?case by simp
next
  case (Suc n)
  then obtain c where c: "c \<in> zombies s" by (metis card.empty equals0I nat.distinct(1))
  then have "0 < c" using Suc.prems(2) by (metis gr0I)
  let ?s = "s\<lparr>zombies := zombies s - {c}\<rparr>"
  have "reaper_step s ?s" using reaper_step.reap[of s "int c"] Wait4.wait_dead[OF c \<open>0 < c\<close>] Suc.prems(3) \<open>0 < c\<close> by simp
  moreover have "reaper_step\<^sup>*\<^sup>* ?s (?s\<lparr>zombies := {}, pc := Waiting\<rparr>)"
    using Suc c by (intro Suc.hyps(1)) auto
  ultimately show ?case by (simp add: converse_rtranclp_into_rtranclp)
qed

lemma reaper_catches_up:
  assumes "pids_ok s" "pc s \<noteq> Starting"
  shows "\<exists>s'. reaper_step\<^sup>*\<^sup>* s s' \<and> idle s' \<and> children s' = children s"
proof -
  have fin: "finite (zombies t) \<and> 0 \<notin> zombies t" if "reaper_step\<^sup>*\<^sup>* s t" for t
    using pids_ok_steps[OF that assms(1)] by (simp add: pids_ok_def)
  obtain s1 where s1: "reaper_step\<^sup>*\<^sup>* s s1" "\<not> sigchld s1" "children s1 = children s" "pc s1 \<noteq> Starting"
  proof (cases "sigchld s")
    case True
    show thesis
      by (rule that[of "s\<lparr>sigchld := False, sigs := True\<rparr>"]) (use True assms(2) reaper_step.deliver[of s] in auto)
  next
    case False
    then show thesis using that[of s] assms(2) by simp
  qed
  obtain s2 where s2: "reaper_step\<^sup>*\<^sup>* s1 s2" "\<not> sigchld s2" "children s2 = children s" "pc s2 = Waiting"
  proof (cases "pc s1 = Reaping")
    case True
    show thesis
      by (rule that[of "s1\<lparr>zombies := {}, pc := Waiting\<rparr>"]) (use True s1 reap_all[of s1] fin[OF s1(1)] in auto)
  next
    case False
    then show thesis using that[of s1] s1 by (cases "pc s1") auto
  qed
  show ?thesis
  proof (cases "sigs s2")
    case True
    let ?s3 = "s2\<lparr>sigs := False, pc := Reaping\<rparr>"
    have s3: "reaper_step\<^sup>*\<^sup>* s ?s3"
      using s1(1) s2(1) reaper_step.receive[OF s2(4) True] by (meson rtranclp.rtrancl_into_rtrancl rtranclp_trans)
    have "reaper_step\<^sup>*\<^sup>* ?s3 (?s3\<lparr>zombies := {}, pc := Waiting\<rparr>)" using fin[OF s3] by (intro reap_all) auto
    with s3 have "reaper_step\<^sup>*\<^sup>* s (?s3\<lparr>zombies := {}, pc := Waiting\<rparr>)" by (rule rtranclp_trans)
    then show ?thesis using s2 by (intro exI[of _ "?s3\<lparr>zombies := {}, pc := Waiting\<rparr>"]) (simp add: idle_def)
  next
    case False
    then show ?thesis using s1(1) s2 by (intro exI[of _ s2]) (auto simp: idle_def)
  qed
qed

text \<open>
  C40. No zombies remain: once a child has exited after the reaper registered for signals, the reaper is
  never idle while there is a dead child, even though signals coalesce in the kernel and in the
  channel; and from every state it can get to be idle.
\<close>

theorem reaper_leaves_no_zombies:
  assumes "StartReaper pid running dead = Some s0" "finite dead" "0 \<notin> running \<union> dead"
    and "reaper_step\<^sup>*\<^sup>* s0 s" "pc s \<noteq> Starting" "c \<in> children s"
    and "reaper_step\<^sup>*\<^sup>* (s\<lparr>children := children s - {c}, zombies := insert c (zombies s), sigchld := True\<rparr>) t"
  shows "(idle t \<longrightarrow> zombies t = {}) \<and> (\<exists>u. reaper_step\<^sup>*\<^sup>* t u \<and> idle u \<and> zombies u = {})"
proof -
  let ?s = "s\<lparr>children := children s - {c}, zombies := insert c (zombies s), sigchld := True\<rparr>"
  have "pids_ok s0" using assms(1-3) by (auto simp: StartReaper_def pids_ok_def split: if_splits)
  then have "pids_ok ?s" using pids_ok_steps[OF assms(4)] pids_ok_step[OF reaper_step.child_exits[OF assms(6)]] by blast
  then have t: "pids_ok t" using pids_ok_steps[OF assms(7)] by blast
  have n: "noticed t" using noticed_steps[OF assms(7)] assms(5) by (simp add: noticed_def)
  have clean: "zombies u = {}" if "noticed u" "idle u" for u using that by (auto simp: noticed_def idle_def)
  obtain u where u: "reaper_step\<^sup>*\<^sup>* t u" "idle u" using reaper_catches_up[OF t] n by (auto simp: noticed_def)
  show ?thesis using clean n u noticed_steps[OF u(1) n] by blast
qed

text \<open>
  A child that died before the registration is not noticed by itself: its signal was ignored, and the
  reaper waits for the next one.
\<close>

lemma early_zombie_waits: "\<exists>s. reaper_step\<^sup>*\<^sup>* (the (StartReaper 1 {} {7})) s \<and> idle s \<and> zombies s = {7}"
proof -
  let ?s = "the (StartReaper 1 {} {7})"
  have "reaper_step ?s (?s\<lparr>pc := Waiting\<rparr>)" by (rule reaper_step.notify) (simp add: StartReaper_def)
  then show ?thesis by (intro exI[of _ "?s\<lparr>pc := Waiting\<rparr>"]) (auto simp: idle_def StartReaper_def)
qed

theorem reaper_leaves_no_zombies_witness:
  "\<exists>s0 s u. StartReaper 1 {5} {7} = Some s0 \<and> reaper_step\<^sup>*\<^sup>* s0 s \<and>
     reaper_step\<^sup>*\<^sup>* (s\<lparr>children := {}, zombies := {5, 7}, sigchld := True\<rparr>) u \<and> idle u \<and> zombies u = {}"
proof -
  let ?s0 = "\<lparr>children = {5}, zombies = {7}, sigchld = False, sigs = False, pc = Starting\<rparr>"
  have s0: "StartReaper 1 {5} {7} = Some ?s0" by (simp add: StartReaper_def)
  have s: "reaper_step\<^sup>*\<^sup>* ?s0 (?s0\<lparr>pc := Waiting\<rparr>)" using reaper_step.notify[of ?s0] by simp
  have "\<exists>u. reaper_step\<^sup>*\<^sup>* (?s0\<lparr>pc := Waiting, children := {}, zombies := {5, 7}, sigchld := True\<rparr>) u \<and> idle u \<and> zombies u = {}"
    using reaper_leaves_no_zombies[OF s0 _ _ s, of 5 "?s0\<lparr>pc := Waiting, children := {}, zombies := {5, 7}, sigchld := True\<rparr>"] by simp
  then obtain u where "reaper_step\<^sup>*\<^sup>* (?s0\<lparr>pc := Waiting, children := {}, zombies := {5, 7}, sigchld := True\<rparr>) u" "idle u" "zombies u = {}"
    by blast
  then show ?thesis using s0 s by (intro exI[of _ ?s0] exI[of _ "?s0\<lparr>pc := Waiting\<rparr>"] exI[of _ u]) simp
qed

end
