(* ===== verification/Go_Time.thy ===== *)
theory Go_Time
  imports K8s_Meta
begin

text \<open>
  The parts of Go's \<open>time\<close> package that cron schedules use: the proleptic Gregorian calendar, the
  fields of a time in a location, \<open>Date\<close>, \<open>Add\<close>, \<open>AddDate\<close>, \<open>Truncate\<close> and \<open>ParseDuration\<close>.

  A location is its distance from UTC in seconds. The local zone of the program's container is UTC; zones
  whose distance changes, as with daylight saving, are not modelled. Days are counted from January 1 of
  year 1, as Go counts seconds from its own origin.
\<close>

subsection \<open>The calendar\<close>

type_synonym Location = int

definition isLeap :: "int \<Rightarrow> bool" where
  "isLeap year \<longleftrightarrow> year mod 4 = 0 \<and> (year mod 100 \<noteq> 0 \<or> year mod 400 = 0)"

definition daysBefore :: "int list" where
  "daysBefore = [0, 31, 59, 90, 120, 151, 181, 212, 243, 273, 304, 334, 365]"

text \<open>The days before January 1 of a year.\<close>

definition year_start :: "int \<Rightarrow> int" where
  "year_start year =
     (let y = year - 1; n400 = y div 400; y1 = y - 400 * n400; n100 = y1 div 100; y2 = y1 - 100 * n100;
          n4 = y2 div 4; n = y2 - 4 * n4
      in 146097 * n400 + 36524 * n100 + 1461 * n4 + 365 * n)"

text \<open>The year and the day of the year that a day falls on.\<close>

definition abs_year :: "int \<Rightarrow> int \<times> int" where
  "abs_year d0 =
     (let n400 = d0 div 146097; d1 = d0 - 146097 * n400;
          q100 = d1 div 36524; n100 = q100 - q100 div 4; d2 = d1 - 36524 * n100;
          n4 = d2 div 1461; d3 = d2 - 1461 * n4;
          q1 = d3 div 365; n = q1 - q1 div 4; d4 = d3 - 365 * n
      in (400 * n400 + 100 * n100 + 4 * n4 + n + 1, d4))"

text \<open>The month and the day of the month of a day of the year.\<close>

definition month_day :: "int \<Rightarrow> int \<Rightarrow> int \<times> int" where
  "month_day year yday =
     (if isLeap year \<and> yday = 59 then (2, 29)
      else let day = (if isLeap year \<and> 59 < yday then yday - 1 else yday);
               month = day div 31; end_day = daysBefore ! nat (month + 1)
           in if end_day \<le> day then (month + 2, day - end_day + 1)
              else (month + 1, day - daysBefore ! nat month + 1))"

definition absDate :: "int \<Rightarrow> int \<times> int \<times> int" where
  "absDate d = (let (year, yday) = abs_year d; (month, day) = month_day year yday in (year, month, day))"

text \<open>The day of a date: the month may lie outside of the year and the day outside of the month.\<close>

definition date_day :: "int \<Rightarrow> int \<Rightarrow> int \<Rightarrow> int" where
  "date_day year0 month0 day =
     (let m = month0 - 1; year = year0 + m div 12; month = m mod 12 + 1
      in year_start year + daysBefore ! nat (month - 1) + (if isLeap year \<and> 3 \<le> month then 1 else 0) + (day - 1))"

subsection \<open>Times\<close>

definition abs_sec :: "Location \<Rightarrow> Time \<Rightarrow> int" where
  "abs_sec loc t = unix_sec t + loc + 62135596800"

definition abs_day :: "Location \<Rightarrow> Time \<Rightarrow> int" where
  "abs_day loc t = abs_sec loc t div 86400"

definition time_Year :: "Location \<Rightarrow> Time \<Rightarrow> int" where
  "time_Year loc t = fst (absDate (abs_day loc t))"

definition time_Month :: "Location \<Rightarrow> Time \<Rightarrow> int" where
  "time_Month loc t = fst (snd (absDate (abs_day loc t)))"

definition time_Day :: "Location \<Rightarrow> Time \<Rightarrow> int" where
  "time_Day loc t = snd (snd (absDate (abs_day loc t)))"

text \<open>January 1 of year 1 was a Monday; Sunday is 0.\<close>

definition time_Weekday :: "Location \<Rightarrow> Time \<Rightarrow> int" where
  "time_Weekday loc t = (abs_day loc t + 1) mod 7"

definition time_Hour :: "Location \<Rightarrow> Time \<Rightarrow> int" where
  "time_Hour loc t = abs_sec loc t mod 86400 div 3600"

definition time_Minute :: "Location \<Rightarrow> Time \<Rightarrow> int" where
  "time_Minute loc t = abs_sec loc t mod 3600 div 60"

definition time_Second :: "Location \<Rightarrow> Time \<Rightarrow> int" where
  "time_Second loc t = abs_sec loc t mod 60"

definition time_Date :: "int \<Rightarrow> int \<Rightarrow> int \<Rightarrow> int \<Rightarrow> int \<Rightarrow> int \<Rightarrow> int \<Rightarrow> Location \<Rightarrow> Time" where
  "time_Date year month day hour minute sec ns loc =
     (let sec' = sec + ns div 1000000000
      in \<lparr>unix_sec = date_day year month day * 86400 + hour * 3600 + minute * 60 + sec' - 62135596800 - loc,
          nsec = ns mod 1000000000\<rparr>)"

text \<open>Durations are nanoseconds.\<close>

definition time_Add :: "Time \<Rightarrow> int \<Rightarrow> Time" where
  "time_Add t d =
     \<lparr>unix_sec = unix_sec t + (nsec t + d) div 1000000000, nsec = (nsec t + d) mod 1000000000\<rparr>"

definition AddDate :: "Location \<Rightarrow> Time \<Rightarrow> int \<Rightarrow> int \<Rightarrow> int \<Rightarrow> Time" where
  "AddDate loc t years months days =
     time_Date (time_Year loc t + years) (time_Month loc t + months) (time_Day loc t + days)
       (time_Hour loc t) (time_Minute loc t) (time_Second loc t) (nsec t) loc"

text \<open>Rounding down to a multiple of a duration since the zero time.\<close>

definition Truncate :: "Time \<Rightarrow> int \<Rightarrow> Time" where
  "Truncate t d =
     (if d \<le> 0 then t
      else time_Add t (- (((unix_sec t + 62135596800) * 1000000000 + nsec t) mod d)))"

subsection \<open>Durations\<close>

text \<open>The value of leading digits, and the rest of the text; \<open>None\<close> when the value exceeds int64.\<close>

fun leadingInt :: "int \<Rightarrow> string \<Rightarrow> (int \<times> string) option" where
  "leadingInt x [] = Some (x, [])"
| "leadingInt x (c # s) =
     (if \<not> is_digit c then Some (x, c # s)
      else if (2 ^ 63 - 1) div 10 < x then None
      else if 2 ^ 63 \<le> x * 10 + digit_val c then None
      else leadingInt (x * 10 + digit_val c) s)"

text \<open>The digits of a fraction and their scale; digits that would exceed int64 are read and dropped.\<close>

fun leadingFraction :: "int \<Rightarrow> int \<Rightarrow> bool \<Rightarrow> string \<Rightarrow> int \<times> int \<times> string" where
  "leadingFraction x scale overflow [] = (x, scale, [])"
| "leadingFraction x scale overflow (c # s) =
     (if \<not> is_digit c then (x, scale, c # s)
      else if overflow \<or> (2 ^ 63 - 1) div 10 < x \<or> 2 ^ 63 \<le> x * 10 + digit_val c
        then leadingFraction x scale True s
      else leadingFraction (x * 10 + digit_val c) (scale * 10) False s)"

definition unitMap :: "string \<Rightarrow> int option" where
  "unitMap = map_of
    [(''ns'', 1), (''us'', 1000), ([CHR 0xC2, CHR 0xB5, CHR ''s''], 1000), ([CHR 0xCE, CHR 0xBC, CHR ''s''], 1000),
     (''ms'', 1000000), (''s'', 1000000000), (''m'', 60000000000), (''h'', 3600000000000)]"

definition duration_start :: "char \<Rightarrow> bool" where
  "duration_start c \<longleftrightarrow> c = CHR ''.'' \<or> is_digit c"

text \<open>One number with its unit.\<close>

definition duration_part :: "string \<Rightarrow> (int \<times> string) option" where
  "duration_part s =
     (case leadingInt 0 s of
        None \<Rightarrow> None
      | Some (v, s1) \<Rightarrow>
          (let pre = (length s \<noteq> length s1);
               dot = (s1 \<noteq> [] \<and> hd s1 = CHR ''.'');
               (f, scale, s2) = (if dot then leadingFraction 0 1 False (tl s1) else (0, 1, s1));
               post = (dot \<and> length (tl s1) \<noteq> length s2);
               u = takeWhile (\<lambda>c. \<not> duration_start c) s2; s3 = dropWhile (\<lambda>c. \<not> duration_start c) s2
           in if \<not> pre \<and> \<not> post then None
              else case unitMap u of
                None \<Rightarrow> None
              | Some unit \<Rightarrow>
                  if (2 ^ 63 - 1) div unit < v then None
                  else let v' = v * unit + (if 0 < f then int64_of_f64 (f64_mult (float64_of_int f)
                                                  (f64_div_fin (float64_of_int unit) (of_int scale))) else 0)
                       in if 2 ^ 63 \<le> v' then None else Some (v', s3)))"

text \<open>The sum of the parts: \<open>None\<close> is an error.\<close>

lemma leadingInt_length: "leadingInt x s = Some (v, s') \<Longrightarrow> length s' \<le> length s"
  by (induction x s rule: leadingInt.induct) (auto split: if_splits)

lemma leadingFraction_length: "leadingFraction x scale ov s = (f, sc, s') \<Longrightarrow> length s' \<le> length s"
  by (induction x scale ov s rule: leadingFraction.induct) (auto split: if_splits)

lemma duration_part_length:
  assumes "duration_part s = Some (v, s')"
  shows "length s' < length s"
proof -
  obtain v1 s1 where v1: "leadingInt 0 s = Some (v1, s1)" using assms by (auto simp: duration_part_def split: option.splits)
  obtain f scale s2 where s2: "(if s1 \<noteq> [] \<and> hd s1 = CHR ''.'' then leadingFraction 0 1 False (tl s1) else (0, 1, s1)) = (f, scale, s2)"
    by (metis prod_cases3)
  have "length s2 \<le> length s1" using s2 leadingFraction_length[of 0 1 False "tl s1"] by (auto split: if_splits)
  moreover have "takeWhile (\<lambda>c. \<not> duration_start c) s2 \<noteq> []" "s' = dropWhile (\<lambda>c. \<not> duration_start c) s2"
    using assms v1 s2 by (auto simp: duration_part_def unitMap_def Let_def split: option.splits if_splits)
  then have "length s' < length s2" by (cases s2) (auto simp: less_Suc_eq_le length_dropWhile_le split: if_splits)
  ultimately show ?thesis using leadingInt_length[OF v1] by simp
qed

function sum_parts :: "int \<Rightarrow> string \<Rightarrow> int option" where
  "sum_parts d s =
     (if s = [] then Some d
      else if \<not> duration_start (hd s) then None
      else case duration_part s of
        None \<Rightarrow> None
      | Some (v, s') \<Rightarrow> if 2 ^ 63 \<le> d + v then None else sum_parts (d + v) s')"
  by pat_completeness auto
termination
  by (relation "measure (\<lambda>(d, s). length s)") (auto dest: duration_part_length)

declare sum_parts.simps [simp del]

definition ParseDuration :: "string \<Rightarrow> int option" where
  "ParseDuration orig =
     (let neg = (orig \<noteq> [] \<and> hd orig = CHR ''-'');
          s = (if orig \<noteq> [] \<and> (hd orig = CHR ''-'' \<or> hd orig = CHR ''+'') then tl orig else orig)
      in if s = ''0'' then Some 0
         else if s = [] then None
         else map_option (\<lambda>d. if neg then - d else d) (sum_parts 0 s))"

subsection \<open>Properties of the calendar\<close>

definition year_days :: "int \<Rightarrow> int" where
  "year_days year = (if isLeap year then 366 else 365)"

definition month_start :: "int \<Rightarrow> int \<Rightarrow> int" where
  "month_start year month = daysBefore ! nat (month - 1) + (if isLeap year \<and> 3 \<le> month then 1 else 0)"

text \<open>A year in its cycles of 400, 100 and 4 years.\<close>

lemma year_start_cycles:
  assumes "year = 400 * a + 100 * b + 4 * c + e + 1" "0 \<le> b" "b < 4" "0 \<le> c" "c < 25" "0 \<le> e" "e < 4"
  shows "year_start year = 146097 * a + 36524 * b + 1461 * c + 365 * e"
proof -
  have "(year - 1) div 400 = a" using assms by (intro int_div_pos_eq[where r = "100 * b + 4 * c + e"]) auto
  moreover have "(100 * b + 4 * c + e) div 100 = b" using assms by (intro int_div_pos_eq[where r = "4 * c + e"]) auto
  moreover have "(4 * c + e) div 4 = c" using assms by (intro int_div_pos_eq[where r = e]) auto
  ultimately show ?thesis using assms by (simp add: year_start_def Let_def)
qed

lemma isLeap_cycles:
  assumes "year = 400 * a + 100 * b + 4 * c + e + 1" "0 \<le> b" "b < 4" "0 \<le> c" "c < 25" "0 \<le> e" "e < 4"
  shows "isLeap year \<longleftrightarrow> e = 3 \<and> (c = 24 \<longrightarrow> b = 3)"
proof -
  have last4: "year mod 4 = (if e = 3 then 0 else e + 1)"
    using assms by (intro int_mod_pos_eq[where q = "100 * a + 25 * b + c + (if e = 3 then 1 else 0)"]) auto
  have last100: "year mod 100 = (if c = 24 \<and> e = 3 then 0 else 4 * c + e + 1)"
    using assms by (intro int_mod_pos_eq[where q = "4 * a + b + (if c = 24 \<and> e = 3 then 1 else 0)"]) auto
  have last400: "year mod 400 = (if b = 3 \<and> c = 24 \<and> e = 3 then 0 else 100 * b + 4 * c + e + 1)"
    using assms by (intro int_mod_pos_eq[where q = "a + (if b = 3 \<and> c = 24 \<and> e = 3 then 1 else 0)"]) auto
  show ?thesis unfolding isLeap_def last4 last100 last400 using assms by auto
qed

lemma year_cycles:
  obtains a b c e :: int where "year = 400 * a + 100 * b + 4 * c + e + 1" "0 \<le> b" "b < 4" "0 \<le> c" "c < 25" "0 \<le> e" "e < 4"
proof
  let ?y = "year - 1"
  let ?r = "?y mod 400"
  let ?s = "?r mod 100"
  have "?y = 400 * (?y div 400) + ?r" "?r = 100 * (?r div 100) + ?s" "?s = 4 * (?s div 4) + ?s mod 4" by simp_all
  then show "year = 400 * (?y div 400) + 100 * (?r div 100) + 4 * (?s div 4) + ?s mod 4 + 1" by linarith
  show "0 \<le> ?r div 100" "0 \<le> ?s div 4" "0 \<le> ?s mod 4" "?s mod 4 < 4" by simp_all
  have "?r < 400" "?s < 100" by simp_all
  then show "?r div 100 < 4" "?s div 4 < 25" by linarith+
qed

lemma year_start_Suc: "year_start (year + 1) = year_start year + year_days year"
proof -
  obtain a b c e where y: "year = 400 * a + 100 * b + 4 * c + e + 1" "0 \<le> b" "b < 4" "0 \<le> c" "c < 25" "0 \<le> e" "e < 4"
    by (rule year_cycles)
  note this_year = year_start_cycles[OF y] isLeap_cycles[OF y]
  consider "e < 3" | "e = 3" "c < 24" | "e = 3" "c = 24" "b < 3" | "e = 3" "c = 24" "b = 3" using y by linarith
  then show ?thesis
  proof cases
    case 1
    then show ?thesis using year_start_cycles[of "year + 1" a b c "e + 1"] y this_year by (simp add: year_days_def)
  next
    case 2
    then show ?thesis using year_start_cycles[of "year + 1" a b "c + 1" 0] y this_year by (simp add: year_days_def)
  next
    case 3
    then show ?thesis using year_start_cycles[of "year + 1" a "b + 1" 0 0] y this_year by (simp add: year_days_def)
  next
    case 4
    then show ?thesis using year_start_cycles[of "year + 1" "a + 1" 0 0 0] y this_year by (simp add: year_days_def)
  qed
qed

lemma year_days_pos [simp]: "0 < year_days year"
  by (simp add: year_days_def)

lemma year_start_mono: "y \<le> y' \<Longrightarrow> year_start y \<le> year_start y'"
proof (induction y' rule: int_ge_induct)
  case (step i)
  then show ?case using year_start_Suc[of i] year_days_pos[of i] by linarith
qed simp

lemma year_start_strict: "year_start y' < year_start (y + 1) \<Longrightarrow> y' \<le> y"
  using year_start_mono[of "y + 1" y'] by linarith

text \<open>Go's search for the year of a day: the last of four parts may be one day longer.\<close>

lemma quarter_bounds:
  fixes d n :: int
  assumes "0 < n" "0 \<le> d" "d \<le> 4 * n"
  defines "m \<equiv> d div n - d div n div 4"
  shows "0 \<le> m" "m < 4" "0 \<le> d - n * m" "d - n * m < n \<or> m = 3 \<and> d = 4 * n"
proof -
  have "0 \<le> m \<and> m < 4 \<and> 0 \<le> d - n * m \<and> (d - n * m < n \<or> m = 3 \<and> d = 4 * n)"
  proof (cases "d = 4 * n")
    case True
    then show ?thesis using assms(1) by (simp add: m_def)
  next
    case False
    then have "n * (d div n) < n * 4"
      using assms(1,3) pos_mod_sign[of n d] unfolding minus_mod_eq_mult_div[symmetric] by linarith
    then have "d div n < 4" "0 \<le> d div n" using assms(1,2) by (simp_all add: pos_imp_zdiv_nonneg_iff)
    then have "m = d div n" by (simp add: m_def)
    then show ?thesis using assms(1) \<open>d div n < 4\<close> \<open>0 \<le> d div n\<close> by (simp add: minus_mult_div_eq_mod)
  qed
  then show "0 \<le> m" "m < 4" "0 \<le> d - n * m" "d - n * m < n \<or> m = 3 \<and> d = 4 * n" by auto
qed

lemma abs_year_bounds:
  assumes "abs_year d = (year, yday)"
  shows "d = year_start year + yday \<and> 0 \<le> yday \<and> yday < year_days year"
proof -
  define a where "a = d div 146097"
  define d1 where "d1 = d - 146097 * a"
  define b where "b = d1 div 36524 - d1 div 36524 div 4"
  define d2 where "d2 = d1 - 36524 * b"
  define c where "c = d2 div 1461"
  define d3 where "d3 = d2 - 1461 * c"
  define e where "e = d3 div 365 - d3 div 365 div 4"
  have y: "year = 400 * a + 100 * b + 4 * c + e + 1" "yday = d3 - 365 * e"
    using assms[unfolded abs_year_def Let_def, folded a_def, folded d1_def, folded b_def, folded d2_def, folded c_def,
        folded d3_def, folded e_def] by simp_all
  have d1: "0 \<le> d1" "d1 < 146097" by (simp_all add: d1_def a_def minus_mult_div_eq_mod)
  then have b: "0 \<le> b" "b < 4" "0 \<le> d2" "d2 < 36524 \<or> b = 3 \<and> d2 = 36524"
    using quarter_bounds[of 36524 d1, folded b_def] by (auto simp: d2_def)
  have d3: "0 \<le> d3" "d3 < 1461" by (simp_all add: d3_def c_def minus_mult_div_eq_mod)
  have "0 \<le> c" using b(3) by (simp add: c_def pos_imp_zdiv_nonneg_iff)
  moreover have "c < 25" "c = 24 \<longrightarrow> d3 < 1460 \<or> b = 3" using d3 b(4) by (auto simp: d3_def)
  ultimately have c: "0 \<le> c" "c < 25" "0 \<le> d3" "d3 < 1461" "c = 24 \<longrightarrow> d3 < 1460 \<or> b = 3" using d3 by simp_all
  then have e: "0 \<le> e" "e < 4" "0 \<le> d3 - 365 * e" "d3 - 365 * e < 365 \<or> e = 3 \<and> d3 = 1460"
    using quarter_bounds[of 365 d3, folded e_def] by auto
  have "d = year_start year + yday"
    using year_start_cycles[OF y(1)] b c e y(2) by (simp add: d1_def d2_def d3_def)
  moreover have "yday < year_days year"
    using isLeap_cycles[OF y(1)] b c e y(2) by (auto simp: year_days_def)
  ultimately show ?thesis using e y by simp
qed

text \<open>Go's search for the month of a day: a guess that is at most one month too small.\<close>

definition month_days :: "int \<Rightarrow> int \<Rightarrow> int" where
  "month_days year month =
     (if month = 2 then if isLeap year then 29 else 28 else if month \<in> {4, 6, 9, 11} then 30 else 31)"

lemma daysBefore_nth [simp]:
  "daysBefore ! 0 = 0" "daysBefore ! Suc 0 = 31" "daysBefore ! 2 = 59" "daysBefore ! 3 = 90" "daysBefore ! 4 = 120"
  "daysBefore ! 5 = 151" "daysBefore ! 6 = 181" "daysBefore ! 7 = 212" "daysBefore ! 8 = 243" "daysBefore ! 9 = 273"
  "daysBefore ! 10 = 304" "daysBefore ! 11 = 334" "daysBefore ! 12 = 365"
  by (simp_all add: daysBefore_def)

lemma int_month_cases:
  fixes m :: int
  assumes "1 \<le> m" "m \<le> 12"
  obtains "m = 1" | "m = 2" | "m = 3" | "m = 4" | "m = 5" | "m = 6" | "m = 7" | "m = 8" | "m = 9" | "m = 10" | "m = 11" | "m = 12"
proof -
  have "m = 1 \<or> m = 2 \<or> m = 3 \<or> m = 4 \<or> m = 5 \<or> m = 6 \<or> m = 7 \<or> m = 8 \<or> m = 9 \<or> m = 10 \<or> m = 11 \<or> m = 12"
    using assms by arith
  then show thesis using that by blast
qed

lemma month_start_Suc: "1 \<le> m \<Longrightarrow> m \<le> 11 \<Longrightarrow> month_start y (m + 1) = month_start y m + month_days y m"
  by (rule int_month_cases[of m]) (auto simp: month_start_def month_days_def)

lemma month_start_1 [simp]: "month_start y 1 = 0"
  by (simp add: month_start_def)

lemma month_start_12: "month_start y 12 + month_days y 12 = year_days y"
  by (simp add: month_start_def month_days_def year_days_def)

lemma month_days_bounds: "28 \<le> month_days y m" "month_days y m \<le> 31"
  by (auto simp: month_days_def)

lemma month_day_bounds:
  assumes "month_day y yday = (m, d)" "0 \<le> yday" "yday < year_days y"
  shows "1 \<le> m \<and> m \<le> 12 \<and> 1 \<le> d \<and> d \<le> month_days y m \<and> yday = month_start y m + d - 1"
proof (cases "isLeap y \<and> yday = 59")
  case True
  then show ?thesis using assms by (auto simp: month_day_def month_days_def month_start_def)
next
  case False
  define day where "day = (if isLeap y \<and> 59 < yday then yday - 1 else yday)"
  define g where "g = day div 31"
  have day: "0 \<le> day" "day < 365" using assms(2,3) by (auto simp: day_def year_days_def)
  have g: "31 * g \<le> day" "day < 31 * g + 31" unfolding g_def by linarith+
  then have "1 \<le> g + 1" "g + 1 \<le> 12" using day by linarith+
  moreover have md: "(m, d) = (if daysBefore ! nat (g + 1) \<le> day then (g + 2, day - daysBefore ! nat (g + 1) + 1)
              else (g + 1, day - daysBefore ! nat g + 1))"
    using assms(1) unfolding month_day_def if_not_P[OF False] Let_def day_def[symmetric] g_def[symmetric] by simp
  ultimately show ?thesis
    using g day False
    by (cases rule: int_month_cases[of "g + 1"])
       (auto simp: month_days_def month_start_def day_def split: if_splits)
qed

text \<open>The date of a day, and the day of a date.\<close>

definition valid_date :: "int \<Rightarrow> int \<Rightarrow> int \<Rightarrow> bool" where
  "valid_date y m d \<longleftrightarrow> 1 \<le> m \<and> m \<le> 12 \<and> 1 \<le> d \<and> d \<le> month_days y m"

lemma date_day_eq: "1 \<le> m \<Longrightarrow> m \<le> 12 \<Longrightarrow> date_day y m d = year_start y + month_start y m + d - 1"
  by (simp add: date_day_def month_start_def Let_def)

lemma date_day_plus: "date_day y m (d + k) = date_day y m d + k"
  by (simp add: date_day_def Let_def)

lemma month_start_mono:
  assumes "1 \<le> m" "m < m'" "m' \<le> 12"
  shows "month_start y m + month_days y m \<le> month_start y m'"
proof -
  have "m' \<le> 12 \<longrightarrow> month_start y m + month_days y m \<le> month_start y m'" if "m + 1 \<le> m'"
    using that
  proof (induction m' rule: int_ge_induct)
    case base
    then show ?case using month_start_Suc[of m y] assms(1) by auto
  next
    case (step i)
    then show ?case using month_start_Suc[of i y] month_days_bounds(1)[of y i] assms(1) by auto
  qed
  then show ?thesis using assms by simp
qed

lemma valid_date_in_year:
  assumes "valid_date y m d"
  shows "year_start y \<le> date_day y m d" "date_day y m d < year_start (y + 1)"
proof -
  have m: "1 \<le> m" "m \<le> 12" and d: "1 \<le> d" "d \<le> month_days y m" using assms by (auto simp: valid_date_def)
  have "0 \<le> month_start y m" using month_start_mono[of 1 m y] month_days_bounds(1)[of y 1] m by (cases "m = 1") auto
  then show "year_start y \<le> date_day y m d" using m d by (simp add: date_day_eq)
  have "month_start y m + month_days y m \<le> year_days y"
    using month_start_mono[of m 12 y] month_days_bounds(1)[of y 12] month_start_12[of y] m by (cases "m = 12") auto
  then show "date_day y m d < year_start (y + 1)" using m d by (simp add: date_day_eq year_start_Suc)
qed

lemma valid_date_unique:
  assumes "valid_date y m d" "valid_date y' m' d'" "date_day y m d = date_day y' m' d'"
  shows "y = y' \<and> m = m' \<and> d = d'"
proof -
  have "y = y'"
    using valid_date_in_year[OF assms(1)] valid_date_in_year[OF assms(2)] assms(3)
      year_start_strict[of y y'] year_start_strict[of y' y] by linarith
  moreover have "\<not> m < m'" "\<not> m' < m"
    using month_start_mono[of m m' y] month_start_mono[of m' m y] assms calculation
    by (auto simp: valid_date_def date_day_eq)
  then have "m = m'" by simp
  ultimately show ?thesis using assms by (simp add: valid_date_def date_day_eq)
qed

lemma absDate_day:
  assumes "absDate n = (y, m, d)"
  shows "valid_date y m d \<and> n = date_day y m d"
proof -
  obtain yday where yd: "abs_year n = (y, yday)" "month_day y yday = (m, d)"
    using assms by (auto simp: absDate_def Let_def split: prod.splits)
  then show ?thesis
    using abs_year_bounds[OF yd(1)] month_day_bounds[OF yd(2)] by (simp add: valid_date_def date_day_eq)
qed

lemma absDate_of_date: "valid_date y m d \<Longrightarrow> absDate (date_day y m d) = (y, m, d)"
  using absDate_day[of "date_day y m d"] valid_date_unique by (metis prod_cases3)

lemma absDate_year:
  assumes "absDate n = (y, m, d)"
  shows "year_start y \<le> n" "n < year_start (y + 1)"
  using absDate_day[OF assms] valid_date_in_year by auto

text \<open>A month later, and a day later.\<close>

lemma date_day_next_month:
  assumes "valid_date y m d"
  shows "date_day y (m + 1) d = date_day y m d + month_days y m"
proof (cases "m = 12")
  case True
  have "date_day y 13 d = date_day (y + 1) 1 d" by (simp add: date_day_def)
  then show ?thesis using True month_start_12[of y] by (simp add: date_day_eq year_start_Suc)
next
  case False
  then show ?thesis using assms month_start_Suc[of m y] by (simp add: date_day_eq valid_date_def)
qed

lemma absDate_next_month:
  assumes "valid_date y m d"
  shows "absDate (date_day y (m + 1) d) =
    (if m = 12 then (y + 1, 1, d)
     else if d \<le> month_days y (m + 1) then (y, m + 1, d) else (y, m + 2, d - month_days y (m + 1)))"
proof (cases "m = 12")
  case True
  have "date_day y 13 d = date_day (y + 1) 1 d" by (simp add: date_day_def)
  moreover have "valid_date (y + 1) 1 d"
    using assms month_days_bounds(2)[of y m] by (auto simp: valid_date_def month_days_def)
  ultimately show ?thesis using True absDate_of_date by simp
next
  case False
  then have m: "1 \<le> m" "m \<le> 11" using assms by (auto simp: valid_date_def)
  show ?thesis
  proof (cases "d \<le> month_days y (m + 1)")
    case True
    then have "valid_date y (m + 1) d" using assms m by (simp add: valid_date_def)
    then show ?thesis using True False absDate_of_date by simp
  next
    case long: False
    have "d \<le> 31" using assms month_days_bounds(2)[of y m] by (simp add: valid_date_def)
    then have "m \<noteq> 11" using long by (auto simp: month_days_def)
    then have "date_day y (m + 1) d = date_day y (m + 2) (d - month_days y (m + 1))"
      using m month_start_Suc[of "m + 1" y] by (simp add: date_day_eq add.commute)
    moreover have "valid_date y (m + 2) (d - month_days y (m + 1))"
      using long \<open>d \<le> 31\<close> \<open>m \<noteq> 11\<close> m month_days_bounds(1)[of y "m + 1"] month_days_bounds(1)[of y "m + 2"]
      by (simp add: valid_date_def)
    ultimately show ?thesis using long False absDate_of_date by simp
  qed
qed

lemma absDate_next_day:
  assumes "absDate n = (y, m, d)"
  shows "absDate (n + 1) = (if d < month_days y m then (y, m, d + 1) else if m < 12 then (y, m + 1, 1) else (y + 1, 1, 1))"
proof -
  have v: "valid_date y m d" "n = date_day y m d" using absDate_day[OF assms] by auto
  show ?thesis
  proof (cases "d < month_days y m")
    case True
    then show ?thesis using v absDate_of_date[of y m "d + 1"] by (simp add: date_day_plus valid_date_def)
  next
    case False
    then have "d = month_days y m" using v by (simp add: valid_date_def)
    moreover have "valid_date y m 1" using v by (simp add: valid_date_def)
    ultimately have "n + 1 = date_day y (m + 1) 1"
      using date_day_next_month[of y m 1] date_day_plus[of y m 1 "d - 1"] v by simp
    then show ?thesis
      using absDate_next_month[OF \<open>valid_date y m 1\<close>] False v month_days_bounds(1)[of y "m + 1"]
      by (auto simp: valid_date_def)
  qed
qed

subsection \<open>Properties of times\<close>

text \<open>Go keeps the nanoseconds below a second.\<close>

definition norm_time :: "Time \<Rightarrow> bool" where
  "norm_time t \<longleftrightarrow> 0 \<le> nsec t \<and> nsec t < 1000000000"

lemma norm_time_ops [simp]:
  "norm_time (time_Date y m d h mi s ns loc)" "norm_time (time_Add t dur)" "norm_time (AddDate loc t ys ms ds)"
  by (simp_all add: norm_time_def time_Date_def time_Add_def AddDate_def Let_def)

lemma abs_sec_Date [simp]:
  "0 \<le> ns \<Longrightarrow> ns < 1000000000 \<Longrightarrow>
   abs_sec loc (time_Date y m d h mi s ns loc) = date_day y m d * 86400 + h * 3600 + mi * 60 + s"
  by (simp add: abs_sec_def time_Date_def)

lemma nsec_Date [simp]: "0 \<le> ns \<Longrightarrow> ns < 1000000000 \<Longrightarrow> nsec (time_Date y m d h mi s ns loc) = ns"
  by (simp add: time_Date_def)

lemma nsec_Add_seconds: "norm_time t \<Longrightarrow> nsec (time_Add t (k * 1000000000)) = nsec t"
  by (simp add: time_Add_def norm_time_def)

lemma abs_sec_Add_seconds: "norm_time t \<Longrightarrow> abs_sec loc (time_Add t (k * 1000000000)) = abs_sec loc t + k"
  by (simp add: abs_sec_def time_Add_def norm_time_def)

text \<open>The parts of a time of day.\<close>

lemma mod_next:
  fixes k n :: int
  assumes "0 < n"
  shows "(k + 1) mod n = (if k mod n = n - 1 then 0 else k mod n + 1)"
proof (cases "k mod n = n - 1")
  case True
  then have "k + 1 = n * (k div n + 1)" using mult_div_mod_eq[of n k] unfolding distrib_left by linarith
  then show ?thesis using True by simp
next
  case False
  then have "k mod n + 1 < n" using pos_mod_bound[OF assms, of k] by linarith
  then show ?thesis
    using False assms by (simp, intro int_mod_pos_eq[where q = "k div n"]) (simp_all add: algebra_simps)
qed

lemma time_Hour_alt: "time_Hour loc t = abs_sec loc t div 3600 mod 24"
  using zmod_zmult2_eq[of 24 "abs_sec loc t" 3600] by (simp add: time_Hour_def)

lemma time_Minute_alt: "time_Minute loc t = abs_sec loc t div 60 mod 60"
  using zmod_zmult2_eq[of 60 "abs_sec loc t" 60] by (simp add: time_Minute_def)

lemma day_seconds:
  "abs_sec loc t = abs_day loc t * 86400 + time_Hour loc t * 3600 + time_Minute loc t * 60 + time_Second loc t"
proof -
  have "abs_sec loc t mod 86400 = time_Hour loc t * 3600 + abs_sec loc t mod 3600"
    using mod_mod_cancel[of 3600 86400 "abs_sec loc t"] div_mult_mod_eq[of "abs_sec loc t mod 86400" 3600]
    by (simp add: time_Hour_def)
  moreover have "abs_sec loc t mod 3600 = time_Minute loc t * 60 + abs_sec loc t mod 60"
    using mod_mod_cancel[of 60 3600 "abs_sec loc t"] div_mult_mod_eq[of "abs_sec loc t mod 3600" 60]
    by (simp add: time_Minute_def)
  ultimately show ?thesis
    using div_mult_mod_eq[of "abs_sec loc t" 86400] by (simp add: abs_day_def time_Second_def)
qed

lemma abs_day_bounds: "abs_day loc t * 86400 \<le> abs_sec loc t" "abs_sec loc t < (abs_day loc t + 1) * 86400"
  using div_mult_mod_eq[of "abs_sec loc t" 86400] pos_mod_bound[of 86400 "abs_sec loc t"] pos_mod_sign[of 86400 "abs_sec loc t"]
  unfolding abs_day_def distrib_right by linarith+

lemma time_of_day_bounds:
  "0 \<le> time_Hour loc t" "time_Hour loc t < 24" "0 \<le> time_Minute loc t" "time_Minute loc t < 60"
  "0 \<le> time_Second loc t" "time_Second loc t < 60"
proof -
  have "abs_sec loc t mod 86400 < 86400" "abs_sec loc t mod 3600 < 3600" by simp_all
  then show "time_Hour loc t < 24" "time_Minute loc t < 60" unfolding time_Hour_def time_Minute_def by linarith+
qed (simp_all add: time_Hour_def time_Minute_def time_Second_def pos_imp_zdiv_nonneg_iff)

lemma fields_of_seconds:
  assumes "abs_sec loc t = n * 86400 + h * 3600 + mi * 60 + s" "0 \<le> h" "h < 24" "0 \<le> mi" "mi < 60" "0 \<le> s" "s < 60"
  shows "abs_day loc t = n \<and> time_Hour loc t = h \<and> time_Minute loc t = mi \<and> time_Second loc t = s"
proof -
  have "abs_day loc t = n"
    using assms unfolding abs_day_def by (intro int_div_pos_eq[where r = "h * 3600 + mi * 60 + s"]) auto
  moreover have d: "abs_sec loc t mod 86400 = h * 3600 + mi * 60 + s"
    using assms by (intro int_mod_pos_eq[where q = n]) auto
  have h: "abs_sec loc t mod 3600 = mi * 60 + s"
    using assms by (intro int_mod_pos_eq[where q = "n * 24 + h"]) auto
  have "time_Hour loc t = h"
    unfolding time_Hour_def d using assms by (intro int_div_pos_eq[where r = "mi * 60 + s"]) auto
  moreover have "time_Minute loc t = mi"
    unfolding time_Minute_def h using assms by (intro int_div_pos_eq[where r = s]) auto
  moreover have "time_Second loc t = s"
    unfolding time_Second_def using assms by (intro int_mod_pos_eq[where q = "n * 1440 + h * 60 + mi"]) auto
  ultimately show ?thesis by simp
qed

lemma date_fields: "absDate (abs_day loc t) = (time_Year loc t, time_Month loc t, time_Day loc t)"
  by (simp add: time_Year_def time_Month_def time_Day_def)

lemma time_valid_date: "valid_date (time_Year loc t) (time_Month loc t) (time_Day loc t)"
  and abs_day_date: "date_day (time_Year loc t) (time_Month loc t) (time_Day loc t) = abs_day loc t"
  using absDate_day[OF date_fields[of loc t]] by simp_all

lemma time_Month_bounds: "1 \<le> time_Month loc t" "time_Month loc t \<le> 12"
  using time_valid_date[of loc t] by (simp_all add: valid_date_def)

lemma time_Day_bounds: "1 \<le> time_Day loc t" "time_Day loc t \<le> 31"
  using time_valid_date[of loc t] month_days_bounds(2)[of "time_Year loc t" "time_Month loc t"]
  by (simp_all add: valid_date_def)

lemma time_Weekday_bounds: "0 \<le> time_Weekday loc t" "time_Weekday loc t < 7"
  by (simp_all add: time_Weekday_def)

text \<open>Adding days and months.\<close>

lemma AddDate_days:
  assumes "norm_time t"
  shows "abs_sec loc (AddDate loc t 0 0 k) = abs_sec loc t + 86400 * k \<and> nsec (AddDate loc t 0 0 k) = nsec t"
  using assms day_seconds[of loc t] date_day_plus[of "time_Year loc t" "time_Month loc t" "time_Day loc t" k]
  by (simp add: AddDate_def norm_time_def abs_day_date algebra_simps)

lemma AddDate_month:
  assumes "norm_time t"
  shows "abs_sec loc (AddDate loc t 0 1 0) = abs_sec loc t + 86400 * month_days (time_Year loc t) (time_Month loc t)"
  using assms day_seconds[of loc t] date_day_next_month[OF time_valid_date[of loc t]]
  by (simp add: AddDate_def norm_time_def abs_day_date algebra_simps)

lemma AddDate_month_later:
  assumes "norm_time t"
  shows "time_Month loc (AddDate loc t 0 1 0) = 1 \<or> time_Month loc t < time_Month loc (AddDate loc t 0 1 0)"
proof -
  have "abs_day loc (AddDate loc t 0 1 0) = date_day (time_Year loc t) (time_Month loc t + 1) (time_Day loc t)"
    using fields_of_seconds[of loc "AddDate loc t 0 1 0"] time_of_day_bounds[of loc t] assms
    by (simp add: AddDate_def norm_time_def)
  then show ?thesis
    using absDate_next_month[OF time_valid_date[of loc t]] date_fields[of loc "AddDate loc t 0 1 0"] by (auto split: if_splits)
qed

lemma Truncate_seconds:
  assumes "norm_time t" "0 < k"
  shows "unix_sec (Truncate t (k * 1000000000)) = unix_sec t - (unix_sec t + 62135596800) mod k"
    and "nsec (Truncate t (k * 1000000000)) = 0"
proof -
  let ?u = "unix_sec t + 62135596800"
  have u: "0 \<le> ?u mod k" "?u mod k < k" "?u = k * (?u div k) + ?u mod k" using assms(2) by simp_all
  have "(?u mod k) * 1000000000 + nsec t < k * 1000000000"
    using u(2) assms(1) unfolding norm_time_def by linarith
  moreover have "0 \<le> (?u mod k) * 1000000000 + nsec t" using u(1) assms(1) by (simp add: norm_time_def)
  moreover have "?u * 1000000000 + nsec t = k * 1000000000 * (?u div k) + ((?u mod k) * 1000000000 + nsec t)"
    by (subst u(3)) (simp only: algebra_simps)
  ultimately have "(?u * 1000000000 + nsec t) mod (k * 1000000000) = (?u mod k) * 1000000000 + nsec t"
    by (intro int_mod_pos_eq[where q = "?u div k"])
  then have "Truncate t (k * 1000000000) = time_Add t (- ((?u mod k) * 1000000000 + nsec t))"
    using assms(2) by (simp add: Truncate_def)
  moreover have "nsec t + - ((?u mod k) * 1000000000 + nsec t) = - (?u mod k) * 1000000000" by simp
  ultimately have "Truncate t (k * 1000000000) = \<lparr>unix_sec = unix_sec t + - (?u mod k), nsec = 0\<rparr>"
    unfolding time_Add_def by (simp only:) simp
  then show "unix_sec (Truncate t (k * 1000000000)) = unix_sec t - ?u mod k" "nsec (Truncate t (k * 1000000000)) = 0"
    by simp_all
qed

text \<open>The time at a second of the calendar.\<close>

definition time_at :: "Location \<Rightarrow> int \<Rightarrow> Time" where
  "time_at loc x = \<lparr>unix_sec = x - loc - 62135596800, nsec = 0\<rparr>"

lemma abs_sec_time_at [simp]: "abs_sec loc (time_at loc x) = x"
  by (simp add: time_at_def abs_sec_def)

lemma time_at_abs_sec: "nsec t = 0 \<Longrightarrow> time_at loc (abs_sec loc t) = t"
  by (cases t) (simp add: time_at_def abs_sec_def)

end
