(* ===== verification/Cron_Spec.thy ===== *)
theory Cron_Spec
  imports Go_Time "HOL-Library.Word"
begin

unbundle bit_operations_syntax

text \<open>
  \<open>robfig/cron/v3/spec.go\<close> and \<open>constantdelay.go\<close>: schedules as bit sets, and the search for the next
  time a schedule fires. The search is Go's: five loops, one per field from the month to the second,
  and a jump back to the first one (\<open>WRAP\<close>) whenever a field runs over.
\<close>

subsection \<open>Schedules\<close>

text \<open>\<open>None\<close> is the local zone.\<close>

record SpecSchedule =
  ss_Second :: "64 word"
  ss_Minute :: "64 word"
  ss_Hour :: "64 word"
  ss_Dom :: "64 word"
  ss_Month :: "64 word"
  ss_Dow :: "64 word"
  ss_Location :: "Location option"

definition starBit :: "64 word" where
  "starBit = push_bit 63 1"

text \<open>\<open>1 << uint(x) & bits\<close> is not zero.\<close>

definition has_bit :: "64 word \<Rightarrow> int \<Rightarrow> bool" where
  "has_bit bits x \<longleftrightarrow> push_bit (nat x) 1 AND bits \<noteq> 0"

definition dayMatches :: "SpecSchedule \<Rightarrow> Location \<Rightarrow> Time \<Rightarrow> bool" where
  "dayMatches s loc t =
     (let domMatch = has_bit (ss_Dom s) (time_Day loc t); dowMatch = has_bit (ss_Dow s) (time_Weekday loc t)
      in if ss_Dom s AND starBit \<noteq> 0 \<or> ss_Dow s AND starBit \<noteq> 0 then domMatch \<and> dowMatch
         else domMatch \<or> dowMatch)"

subsection \<open>The loops of Next\<close>

text \<open>
  The state of the search: whether a field has been incremented, and the time reached. A loop falls
  through to the next one, or jumps back to \<open>WRAP\<close>.
\<close>

type_synonym scan = "bool \<times> Time"

datatype flow = Wrap scan | Fall scan

definition Nanosecond :: int where "Nanosecond = 1"
definition Second :: int where "Second = 1000000000 * Nanosecond"
definition Minute :: int where "Minute = 60 * Second"
definition Hour :: int where "Hour = 60 * Minute"

definition month_step :: "Location \<Rightarrow> bool \<Rightarrow> Time \<Rightarrow> Time" where
  "month_step loc added t =
     AddDate loc (if \<not> added then time_Date (time_Year loc t) (time_Month loc t) 1 0 0 0 0 loc else t) 0 1 0"

definition day_step :: "Location \<Rightarrow> bool \<Rightarrow> Time \<Rightarrow> Time" where
  "day_step loc added t =
     (let t1 = AddDate loc (if \<not> added then time_Date (time_Year loc t) (time_Month loc t) (time_Day loc t) 0 0 0 0 loc else t) 0 0 1
      in if time_Hour loc t1 \<noteq> 0
         then if 12 < time_Hour loc t1 then time_Add t1 ((24 - time_Hour loc t1) * Hour)
              else time_Add t1 (- time_Hour loc t1 * Hour)
         else t1)"

definition hour_step :: "Location \<Rightarrow> bool \<Rightarrow> Time \<Rightarrow> Time" where
  "hour_step loc added t =
     time_Add (if \<not> added then time_Date (time_Year loc t) (time_Month loc t) (time_Day loc t) (time_Hour loc t) 0 0 0 loc
               else t) (1 * Hour)"

definition minute_step :: "bool \<Rightarrow> Time \<Rightarrow> Time" where
  "minute_step added t = time_Add (if \<not> added then Truncate t Minute else t) (1 * Minute)"

definition second_step :: "bool \<Rightarrow> Time \<Rightarrow> Time" where
  "second_step added t = time_Add (if \<not> added then Truncate t Second else t) (1 * Second)"

lemmas units_def = Hour_def Minute_def Second_def Nanosecond_def

text \<open>Each step leads to a later time, whatever the state.\<close>

lemma month_step_norm [simp]: "norm_time (month_step loc added t)"
  and day_step_norm [simp]: "norm_time (day_step loc added t)"
  and hour_step_norm [simp]: "norm_time (hour_step loc added t)"
  and minute_step_norm [simp]: "norm_time (minute_step added t)"
  and second_step_norm [simp]: "norm_time (second_step added t)"
  by (simp_all add: month_step_def day_step_def hour_step_def minute_step_def second_step_def Let_def)

lemma month_reset_fields:
  fixes loc :: Location and t :: Time
  defines "t1 \<equiv> time_Date (time_Year loc t) (time_Month loc t) 1 0 0 0 0 loc"
  shows "time_Year loc t1 = time_Year loc t" "time_Month loc t1 = time_Month loc t"
proof -
  have v: "valid_date (time_Year loc t) (time_Month loc t) 1" using time_valid_date[of loc t] by (simp add: valid_date_def)
  have "abs_day loc t1 = date_day (time_Year loc t) (time_Month loc t) 1"
    using fields_of_seconds[of loc t1 "date_day (time_Year loc t) (time_Month loc t) 1" 0 0 0] by (simp add: t1_def)
  then show "time_Year loc t1 = time_Year loc t" "time_Month loc t1 = time_Month loc t"
    using absDate_of_date[OF v] by (simp_all add: time_Year_def time_Month_def)
qed

lemma month_step_later:
  assumes "norm_time t"
  shows "abs_sec loc t < abs_sec loc (month_step loc added t)"
proof (cases added)
  case True
  then show ?thesis
    using assms AddDate_month[of t loc] month_days_bounds(1)[of "time_Year loc t" "time_Month loc t"] by (simp add: month_step_def)
next
  case False
  define t1 where "t1 = time_Date (time_Year loc t) (time_Month loc t) 1 0 0 0 0 loc"
  have "abs_sec loc (month_step loc added t) =
      date_day (time_Year loc t) (time_Month loc t) 1 * 86400 + 86400 * month_days (time_Year loc t) (time_Month loc t)"
    using False AddDate_month[of t1 loc] month_reset_fields[of loc t] by (simp add: month_step_def t1_def)
  moreover have "abs_day loc t + 1 \<le> date_day (time_Year loc t) (time_Month loc t) 1 + month_days (time_Year loc t) (time_Month loc t)"
    using abs_day_date[of loc t] date_day_plus[of "time_Year loc t" "time_Month loc t" 1 "time_Day loc t - 1"]
      time_valid_date[of loc t] by (simp add: valid_date_def)
  ultimately show ?thesis using abs_day_bounds(2)[of loc t] unfolding distrib_right by linarith
qed

lemma reset_day:
  fixes loc :: Location and t :: Time
  defines "t0 \<equiv> time_Date (time_Year loc t) (time_Month loc t) (time_Day loc t) 0 0 0 0 loc"
  shows "abs_sec loc t0 = abs_day loc t * 86400" "norm_time t0" "nsec t0 = 0"
  by (simp_all add: t0_def abs_day_date)

lemma reset_hour:
  fixes loc :: Location and t :: Time
  defines "t0 \<equiv> time_Date (time_Year loc t) (time_Month loc t) (time_Day loc t) (time_Hour loc t) 0 0 0 loc"
  shows "abs_sec loc t0 = abs_day loc t * 86400 + time_Hour loc t * 3600" "norm_time t0" "nsec t0 = 0"
  by (simp_all add: t0_def abs_day_date)

text \<open>A day later: at the same time of day, and then at midnight.\<close>

lemma day_step_cases:
  fixes loc :: Location and t :: Time and added :: bool
  assumes "norm_time t"
  defines "u \<equiv> (if added then abs_sec loc t else abs_day loc t * 86400) + 86400"
  defines "h \<equiv> (if added then time_Hour loc t else 0)"
  shows "abs_sec loc (day_step loc added t) = (if 12 < h then u + (24 - h) * 3600 else u - h * 3600)"
    and "time_Hour loc (day_step loc added t) = 0"
proof -
  define t1 where "t1 = AddDate loc (if \<not> added then time_Date (time_Year loc t) (time_Month loc t) (time_Day loc t) 0 0 0 0 loc else t) 0 0 1"
  have u: "abs_sec loc t1 = u"
    using AddDate_days[of t loc 1] AddDate_days[of _ loc 1, OF reset_day(2)[of loc t]] assms(1) reset_day(1)[of loc t]
    by (simp add: t1_def u_def)
  define n where "n = abs_day loc t + 1"
  define r where "r = (if added then time_Minute loc t * 60 + time_Second loc t else 0)"
  have u': "u = n * 86400 + h * 3600 + r" using day_seconds[of loc t] by (simp add: u_def h_def n_def r_def)
  have h: "0 \<le> h" "h < 24" using time_of_day_bounds[of loc t] by (auto simp: h_def)
  have hour: "time_Hour loc t' = k" if "abs_sec loc t' = m * 86400 + k * 3600 + r" "0 \<le> k" "k < 24" for t' m k
    using fields_of_seconds[of loc t' m k "if added then time_Minute loc t else 0" "if added then time_Second loc t else 0"]
      time_of_day_bounds[of loc t] that by (auto simp: r_def split: if_splits)
  have h1: "time_Hour loc t1 = h" using hour[of t1 n h] u u' h by simp
  have n1: "norm_time t1" by (simp add: t1_def)
  have step: "day_step loc added t =
    (if h \<noteq> 0 then if 12 < h then time_Add t1 ((24 - h) * Hour) else time_Add t1 (- h * Hour) else t1)"
    unfolding day_step_def Let_def t1_def[symmetric] h1 ..
  have add: "abs_sec loc (time_Add t1 (k * Hour)) = u + k * 3600" for k
    using abs_sec_Add_seconds[OF n1, of loc "k * 3600"] u by (simp add: units_def mult.assoc)
  show sec: "abs_sec loc (day_step loc added t) = (if 12 < h then u + (24 - h) * 3600 else u - h * 3600)"
    using step add[of "24 - h"] add[of "- h"] u by auto
  have "abs_sec loc (day_step loc added t) = (if 12 < h then n + 1 else n) * 86400 + 0 * 3600 + r"
    unfolding sec u' by (simp add: algebra_simps)
  then show "time_Hour loc (day_step loc added t) = 0" by (rule hour) simp_all
qed

lemma day_step_later:
  assumes "norm_time t"
  shows "abs_sec loc t < abs_sec loc (day_step loc added t)"
  using day_step_cases(1)[OF assms, of loc added] abs_day_bounds(2)[of loc t] time_of_day_bounds(2)[of loc t]
  by (auto simp: distrib_right)

lemma hour_step_sec:
  assumes "norm_time t"
  shows "abs_sec loc (hour_step loc added t) =
    (if added then abs_sec loc t else abs_day loc t * 86400 + time_Hour loc t * 3600) + 3600"
  using abs_sec_Add_seconds[OF assms, of loc 3600] abs_sec_Add_seconds[OF reset_hour(2)[of loc t], of loc 3600] reset_hour(1)[of loc t]
  by (simp add: hour_step_def units_def)

lemma hour_step_later:
  assumes "norm_time t"
  shows "abs_sec loc t < abs_sec loc (hour_step loc added t)"
  using hour_step_sec[OF assms, of loc added] day_seconds[of loc t] time_of_day_bounds(4,6)[of loc t] by auto

lemma Truncate_norm: "norm_time t \<Longrightarrow> 0 < k \<Longrightarrow> norm_time (Truncate t (k * 1000000000))"
  by (simp add: Truncate_seconds norm_time_def)

lemma minute_step_sec:
  assumes "norm_time t"
  shows "abs_sec loc (minute_step added t) =
    (if added then abs_sec loc t else abs_sec loc t - (unix_sec t + 62135596800) mod 60) + 60"
  using abs_sec_Add_seconds[OF assms, of loc 60] abs_sec_Add_seconds[OF Truncate_norm[OF assms, of 60], of loc 60]
    Truncate_seconds(1)[OF assms, of 60]
  by (simp add: minute_step_def units_def abs_sec_def)

lemma minute_step_later:
  assumes "norm_time t"
  shows "abs_sec loc t < abs_sec loc (minute_step added t)"
  using minute_step_sec[OF assms, of loc added] pos_mod_bound[of 60 "unix_sec t + 62135596800"] by auto

lemma second_step_sec:
  assumes "norm_time t"
  shows "abs_sec loc (second_step added t) = abs_sec loc t + 1"
  using abs_sec_Add_seconds[OF assms, of loc 1] abs_sec_Add_seconds[OF Truncate_norm[OF assms, of 1], of loc 1]
    Truncate_seconds(1)[OF assms, of 1]
  by (simp add: second_step_def units_def abs_sec_def)

text \<open>The field that a loop increments grows until it runs over.\<close>

lemma month_step_field:
  assumes "added \<longrightarrow> norm_time t"
  shows "time_Month loc (month_step loc added t) = 1 \<or> time_Month loc t < time_Month loc (month_step loc added t)"
proof (cases added)
  case True
  then show ?thesis using assms AddDate_month_later[of t loc] by (simp add: month_step_def)
next
  case False
  then show ?thesis
    using AddDate_month_later[of "time_Date (time_Year loc t) (time_Month loc t) 1 0 0 0 0 loc" loc] month_reset_fields[of loc t]
    by (simp add: month_step_def)
qed

lemma day_step_field:
  assumes "norm_time t" "added \<longrightarrow> time_Hour loc t = 0"
  shows "time_Day loc (day_step loc added t) = 1 \<or> time_Day loc t < time_Day loc (day_step loc added t)"
proof -
  have "abs_sec loc (day_step loc added t) = (if added then abs_sec loc t else abs_day loc t * 86400) + 86400"
    using day_step_cases(1)[OF assms(1), of loc added] assms(2) by auto
  then have "abs_day loc (day_step loc added t) = abs_day loc t + 1" by (auto simp: abs_day_def)
  then show ?thesis using absDate_next_day[OF date_fields[of loc t]] date_fields[of loc "day_step loc added t"] by (auto split: if_splits)
qed

lemma hour_step_field:
  assumes "norm_time t"
  shows "time_Hour loc (hour_step loc added t) = (if time_Hour loc t = 23 then 0 else time_Hour loc t + 1)"
proof -
  have "abs_sec loc t div 3600 = abs_day loc t * 24 + time_Hour loc t"
    using day_seconds[of loc t] time_of_day_bounds[of loc t]
    by (intro int_div_pos_eq[where r = "time_Minute loc t * 60 + time_Second loc t"]) auto
  then have "abs_day loc t * 86400 + time_Hour loc t * 3600 = abs_sec loc t div 3600 * 3600" by simp
  then have "abs_sec loc (hour_step loc added t) div 3600 = abs_sec loc t div 3600 + 1"
    using hour_step_sec[OF assms, of loc added] by auto
  then show ?thesis unfolding time_Hour_alt by (simp add: mod_next)
qed

lemma minute_step_field:
  assumes "norm_time t"
  shows "time_Minute loc (minute_step True t) = (if time_Minute loc t = 59 then 0 else time_Minute loc t + 1)"
  using minute_step_sec[OF assms, of loc True] unfolding time_Minute_alt by (simp add: mod_next)

lemma second_step_field:
  assumes "norm_time t"
  shows "time_Second loc (second_step added t) = (if time_Second loc t = 59 then 0 else time_Second loc t + 1)"
  unfolding time_Second_def second_step_sec[OF assms] by (simp add: mod_next)

definition abnormal :: "scan \<Rightarrow> nat" where
  "abnormal = (\<lambda>(added, t). if norm_time t then 0 else 1)"

lemma abnormal_simps [simp]: "norm_time t \<Longrightarrow> abnormal (added, t) = 0" "\<not> norm_time t \<Longrightarrow> abnormal (added, t) = 1"
  by (simp_all add: abnormal_def)

function month_loop :: "SpecSchedule \<Rightarrow> Location \<Rightarrow> scan \<Rightarrow> flow" where
  "month_loop s loc (added, t) =
     (if has_bit (ss_Month s) (time_Month loc t) then Fall (added, t)
      else let t' = month_step loc added t
           in if time_Month loc t' = 1 then Wrap (True, t') else month_loop s loc (True, t'))"
  by pat_completeness auto
termination
proof (relation "measures [\<lambda>(s, loc, st). abnormal st, \<lambda>(s, loc, added, t). nat (12 - time_Month loc t)]")
  fix s :: SpecSchedule and loc :: Location and added :: bool and t t' :: Time
  assume "t' = month_step loc added t" "time_Month loc t' \<noteq> 1"
  then show "((s, loc, True, t'), (s, loc, added, t)) \<in> measures [\<lambda>(s, loc, st). abnormal st, \<lambda>(s, loc, added, t). nat (12 - time_Month loc t)]"
    using month_step_field[of added t loc] time_Month_bounds[of loc t'] by (cases "norm_time t") auto
qed simp

function day_loop :: "SpecSchedule \<Rightarrow> Location \<Rightarrow> scan \<Rightarrow> flow" where
  "day_loop s loc (added, t) =
     (if dayMatches s loc t then Fall (added, t)
      else let t' = day_step loc added t
           in if time_Day loc t' = 1 then Wrap (True, t') else day_loop s loc (True, t'))"
  by pat_completeness auto
termination
proof (relation "measures [\<lambda>(s, loc, st). abnormal st, \<lambda>(s, loc, added, t). if added \<and> time_Hour loc t \<noteq> 0 then 1 else 0,
    \<lambda>(s, loc, added, t). nat (31 - time_Day loc t)]")
  fix s :: SpecSchedule and loc :: Location and added :: bool and t t' :: Time
  assume t': "t' = day_step loc added t" "time_Day loc t' \<noteq> 1"
  show "((s, loc, True, t'), (s, loc, added, t)) \<in> measures [\<lambda>(s, loc, st). abnormal st,
      \<lambda>(s, loc, added, t). if added \<and> time_Hour loc t \<noteq> 0 then 1 else 0, \<lambda>(s, loc, added, t). nat (31 - time_Day loc t)]"
  proof (cases "norm_time t")
    case True
    show ?thesis
      using True t' day_step_cases(2)[OF True, of loc added] day_step_field[OF True, of added loc] time_Day_bounds[of loc t'] by auto
  qed (use t' in auto)
qed simp

function hour_loop :: "SpecSchedule \<Rightarrow> Location \<Rightarrow> scan \<Rightarrow> flow" where
  "hour_loop s loc (added, t) =
     (if has_bit (ss_Hour s) (time_Hour loc t) then Fall (added, t)
      else let t' = hour_step loc added t
           in if time_Hour loc t' = 0 then Wrap (True, t') else hour_loop s loc (True, t'))"
  by pat_completeness auto
termination
proof (relation "measures [\<lambda>(s, loc, st). abnormal st, \<lambda>(s, loc, added, t). nat (24 - time_Hour loc t)]")
  fix s :: SpecSchedule and loc :: Location and added :: bool and t t' :: Time
  assume "t' = hour_step loc added t" "time_Hour loc t' \<noteq> 0"
  then show "((s, loc, True, t'), (s, loc, added, t)) \<in> measures [\<lambda>(s, loc, st). abnormal st, \<lambda>(s, loc, added, t). nat (24 - time_Hour loc t)]"
    using hour_step_field[of t loc added] time_of_day_bounds(2)[of loc t] by (cases "norm_time t") (auto split: if_splits)
qed simp

function minute_loop :: "SpecSchedule \<Rightarrow> Location \<Rightarrow> scan \<Rightarrow> flow" where
  "minute_loop s loc (added, t) =
     (if has_bit (ss_Minute s) (time_Minute loc t) then Fall (added, t)
      else let t' = minute_step added t
           in if time_Minute loc t' = 0 then Wrap (True, t') else minute_loop s loc (True, t'))"
  by pat_completeness auto
termination
proof (relation "measures [\<lambda>(s, loc, st). abnormal st, \<lambda>(s, loc, added, t). if added then 0 else 1,
    \<lambda>(s, loc, added, t). nat (60 - time_Minute loc t)]")
  fix s :: SpecSchedule and loc :: Location and added :: bool and t t' :: Time
  assume "t' = minute_step added t" "time_Minute loc t' \<noteq> 0"
  then show "((s, loc, True, t'), (s, loc, added, t)) \<in> measures [\<lambda>(s, loc, st). abnormal st, \<lambda>(s, loc, added, t). if added then 0 else 1,
      \<lambda>(s, loc, added, t). nat (60 - time_Minute loc t)]"
    using minute_step_field[of t loc] time_of_day_bounds(4)[of loc t] by (cases "norm_time t"; cases added) (auto split: if_splits)
qed simp

function second_loop :: "SpecSchedule \<Rightarrow> Location \<Rightarrow> scan \<Rightarrow> flow" where
  "second_loop s loc (added, t) =
     (if has_bit (ss_Second s) (time_Second loc t) then Fall (added, t)
      else let t' = second_step added t
           in if time_Second loc t' = 0 then Wrap (True, t') else second_loop s loc (True, t'))"
  by pat_completeness auto
termination
proof (relation "measures [\<lambda>(s, loc, st). abnormal st, \<lambda>(s, loc, added, t). nat (60 - time_Second loc t)]")
  fix s :: SpecSchedule and loc :: Location and added :: bool and t t' :: Time
  assume "t' = second_step added t" "time_Second loc t' \<noteq> 0"
  then show "((s, loc, True, t'), (s, loc, added, t)) \<in> measures [\<lambda>(s, loc, st). abnormal st, \<lambda>(s, loc, added, t). nat (60 - time_Second loc t)]"
    using second_step_field[of t loc added] time_of_day_bounds(6)[of loc t] by (cases "norm_time t") (auto split: if_splits)
qed simp

declare month_loop.simps [simp del] day_loop.simps [simp del] hour_loop.simps [simp del]
  minute_loop.simps [simp del] second_loop.simps [simp del]

subsection \<open>What the loops share\<close>

text \<open>
  A loop of the search: it stops at the first time that passes its check, leaves by \<open>WRAP\<close> when its
  field runs over, and otherwise steps to a later time.
\<close>

locale scan_loop =
  fixes loc :: Location and check :: "Time \<Rightarrow> bool" and step :: "bool \<Rightarrow> Time \<Rightarrow> Time" and wrapped :: "Time \<Rightarrow> bool"
    and loop :: "scan \<Rightarrow> flow"
  assumes loop_eq: "loop (added, t) =
      (if check t then Fall (added, t) else if wrapped (step added t) then Wrap (True, step added t) else loop (True, step added t))"
    and loop_induct: "(\<And>added t. (\<not> check t \<Longrightarrow> \<not> wrapped (step added t) \<Longrightarrow> P (True, step added t)) \<Longrightarrow> P (added, t)) \<Longrightarrow> P st"
    and step_norm: "norm_time (step added t)"
    and step_later: "norm_time t \<Longrightarrow> abs_sec loc t < abs_sec loc (step added t)"
begin

lemma loop_norm: "case loop st of Wrap (a, t') \<Rightarrow> norm_time t' | Fall (a, t') \<Rightarrow> norm_time t' \<or> (a, t') = st"
proof (induction st rule: loop_induct)
  case (1 added t)
  then show ?case by (subst loop_eq) (auto simp: step_norm split: flow.splits)
qed

lemma loop_later:
  "norm_time (snd st) \<Longrightarrow>
   case loop st of Wrap (a, t') \<Rightarrow> abs_sec loc (snd st) < abs_sec loc t' | Fall (a, t') \<Rightarrow> abs_sec loc (snd st) \<le> abs_sec loc t'"
proof (induction st rule: loop_induct)
  case (1 added t)
  then show ?case
    using step_norm[of added t] step_later[of t added] by (subst loop_eq) (auto split: flow.splits)
qed

lemma Wrap_later: "loop (added, t) = Wrap (a, t') \<Longrightarrow> norm_time t' \<and> (norm_time t \<longrightarrow> abs_sec loc t < abs_sec loc t')"
  using loop_norm[of "(added, t)"] loop_later[of "(added, t)"] by auto

lemma Fall_later:
  "loop (added, t) = Fall (a, t') \<Longrightarrow> (norm_time t' \<or> t' = t) \<and> (norm_time t \<longrightarrow> norm_time t' \<and> abs_sec loc t \<le> abs_sec loc t')"
  using loop_norm[of "(added, t)"] loop_later[of "(added, t)"] by auto

end

interpretation month_scan: scan_loop loc "\<lambda>t. has_bit (ss_Month s) (time_Month loc t)" "month_step loc" "\<lambda>t. time_Month loc t = 1" "month_loop s loc"
proof
  fix P :: "scan \<Rightarrow> bool" and st
  assume "\<And>added t. (\<not> has_bit (ss_Month s) (time_Month loc t) \<Longrightarrow> time_Month loc (month_step loc added t) \<noteq> 1 \<Longrightarrow> P (True, month_step loc added t)) \<Longrightarrow> P (added, t)"
  then show "P st" by (induction s loc st rule: month_loop.induct) blast
qed (simp_all add: month_loop.simps Let_def month_step_later)

interpretation day_scan: scan_loop loc "dayMatches s loc" "day_step loc" "\<lambda>t. time_Day loc t = 1" "day_loop s loc"
proof
  fix P :: "scan \<Rightarrow> bool" and st
  assume "\<And>added t. (\<not> dayMatches s loc t \<Longrightarrow> time_Day loc (day_step loc added t) \<noteq> 1 \<Longrightarrow> P (True, day_step loc added t)) \<Longrightarrow> P (added, t)"
  then show "P st" by (induction s loc st rule: day_loop.induct) blast
qed (simp_all add: day_loop.simps Let_def day_step_later)

interpretation hour_scan: scan_loop loc "\<lambda>t. has_bit (ss_Hour s) (time_Hour loc t)" "hour_step loc" "\<lambda>t. time_Hour loc t = 0" "hour_loop s loc"
proof
  fix P :: "scan \<Rightarrow> bool" and st
  assume "\<And>added t. (\<not> has_bit (ss_Hour s) (time_Hour loc t) \<Longrightarrow> time_Hour loc (hour_step loc added t) \<noteq> 0 \<Longrightarrow> P (True, hour_step loc added t)) \<Longrightarrow> P (added, t)"
  then show "P st" by (induction s loc st rule: hour_loop.induct) blast
qed (simp_all add: hour_loop.simps Let_def hour_step_later)

interpretation minute_scan: scan_loop loc "\<lambda>t. has_bit (ss_Minute s) (time_Minute loc t)" minute_step "\<lambda>t. time_Minute loc t = 0" "minute_loop s loc"
proof
  fix P :: "scan \<Rightarrow> bool" and st
  assume "\<And>added t. (\<not> has_bit (ss_Minute s) (time_Minute loc t) \<Longrightarrow> time_Minute loc (minute_step added t) \<noteq> 0 \<Longrightarrow> P (True, minute_step added t)) \<Longrightarrow> P (added, t)"
  then show "P st" by (induction s loc st rule: minute_loop.induct) blast
qed (simp_all add: minute_loop.simps Let_def minute_step_later)

interpretation second_scan: scan_loop loc "\<lambda>t. has_bit (ss_Second s) (time_Second loc t)" second_step "\<lambda>t. time_Second loc t = 0" "second_loop s loc"
proof
  fix P :: "scan \<Rightarrow> bool" and st
  assume "\<And>added t. (\<not> has_bit (ss_Second s) (time_Second loc t) \<Longrightarrow> time_Second loc (second_step added t) \<noteq> 0 \<Longrightarrow> P (True, second_step added t)) \<Longrightarrow> P (added, t)"
  then show "P st" by (induction s loc st rule: second_loop.induct) blast
qed (simp_all add: second_loop.simps Let_def second_step_sec)

subsection \<open>Next\<close>

text \<open>From \<open>WRAP\<close> to the return or to the next \<open>WRAP\<close>: one pass through the loops.\<close>

definition next_pass :: "SpecSchedule \<Rightarrow> Location \<Rightarrow> scan \<Rightarrow> flow" where
  "next_pass s loc st =
     (case month_loop s loc st of
        Wrap st' \<Rightarrow> Wrap st'
      | Fall st1 \<Rightarrow>
          (case day_loop s loc st1 of
             Wrap st' \<Rightarrow> Wrap st'
           | Fall st2 \<Rightarrow>
               (case hour_loop s loc st2 of
                  Wrap st' \<Rightarrow> Wrap st'
                | Fall st3 \<Rightarrow>
                    (case minute_loop s loc st3 of
                       Wrap st' \<Rightarrow> Wrap st'
                     | Fall st4 \<Rightarrow> second_loop s loc st4))))"

lemma next_pass_later:
  assumes "next_pass s loc (added, t) = Wrap (a, t')"
  shows "norm_time t' \<and> (norm_time t \<longrightarrow> abs_sec loc t < abs_sec loc t')"
  using assms
  by (auto simp: next_pass_def split: flow.splits
      dest!: month_scan.Wrap_later day_scan.Wrap_later hour_scan.Wrap_later minute_scan.Wrap_later second_scan.Wrap_later
        month_scan.Fall_later day_scan.Fall_later hour_scan.Fall_later minute_scan.Fall_later)

function next_loop :: "SpecSchedule \<Rightarrow> Location \<Rightarrow> int \<Rightarrow> scan \<Rightarrow> Time" where
  "next_loop s loc yearLimit (added, t) =
     (if yearLimit < time_Year loc t then zero_time
      else case next_pass s loc (added, t) of
        Wrap st \<Rightarrow> next_loop s loc yearLimit st
      | Fall (a, t') \<Rightarrow> t')"
  by pat_completeness auto
termination
proof (relation "measures [\<lambda>(s, loc, yearLimit, st). abnormal st,
    \<lambda>(s, loc, yearLimit, added, t). nat (year_start (yearLimit + 1) * 86400 - abs_sec loc t)]")
  fix s :: SpecSchedule and loc :: Location and yearLimit :: int and added :: bool and t :: Time and st
  assume y: "\<not> yearLimit < time_Year loc t" and "next_pass s loc (added, t) = Wrap st"
  moreover obtain a t' where st: "st = (a, t')" by (cases st)
  ultimately have later: "norm_time t' \<and> (norm_time t \<longrightarrow> abs_sec loc t < abs_sec loc t')"
    using next_pass_later by blast
  have "abs_day loc t < year_start (yearLimit + 1)"
    using absDate_year(2)[OF date_fields[of loc t]] year_start_mono[of "time_Year loc t + 1" "yearLimit + 1"] y by simp
  then have "abs_sec loc t < year_start (yearLimit + 1) * 86400"
    using abs_day_bounds(2)[of loc t] by (simp add: distrib_right)
  then show "((s, loc, yearLimit, st), (s, loc, yearLimit, added, t)) \<in> measures [\<lambda>(s, loc, yearLimit, st). abnormal st,
      \<lambda>(s, loc, yearLimit, added, t). nat (year_start (yearLimit + 1) * 86400 - abs_sec loc t)]"
    using later st by (cases "norm_time t") auto
qed simp

declare next_loop.simps [simp del]

text \<open>The location of a time from the API is the local one.\<close>

definition schedule_loc :: "Location \<Rightarrow> SpecSchedule \<Rightarrow> Location" where
  "schedule_loc local s = (case ss_Location s of None \<Rightarrow> local | Some l \<Rightarrow> l)"

definition SpecSchedule_Next :: "Location \<Rightarrow> SpecSchedule \<Rightarrow> Time \<Rightarrow> Time" where
  "SpecSchedule_Next local s t0 =
     (let loc = schedule_loc local s;
          t = time_Add t0 (1 * Second - nsec t0 * Nanosecond);
          yearLimit = time_Year loc t + 5
      in next_loop s loc yearLimit (False, t))"

end
