(* ===== verification/Cron_Next.thy ===== *)
theory Cron_Next
  imports Cron_Spec
begin

text \<open>
  The search for the next time of a schedule is right: it finds the first second after the given time
  at which the schedule fires, or none exists up to the end of the fifth year.
\<close>

subsection \<open>Units of time\<close>

text \<open>No second from the first on and before the second has a property.\<close>

definition gap :: "(int \<Rightarrow> bool) \<Rightarrow> int \<Rightarrow> int \<Rightarrow> bool" where
  "gap P x y \<longleftrightarrow> (\<forall>z. x \<le> z \<and> z < y \<longrightarrow> \<not> P z)"

lemma gap_join: "gap P x y \<Longrightarrow> gap P y w \<Longrightarrow> gap P x w"
  unfolding gap_def by (meson linorder_not_le)

lemma gap_mono: "gap P x y \<Longrightarrow> (\<And>z. Q z \<Longrightarrow> P z) \<Longrightarrow> gap Q x y"
  by (auto simp: gap_def)

lemma gap_sub: "gap P x y \<Longrightarrow> x \<le> x' \<Longrightarrow> y' \<le> y \<Longrightarrow> gap P x' y'"
  by (auto simp: gap_def)

lemma gap_empty [simp]: "gap P x x"
  by (auto simp: gap_def)

lemma gap_Suc: "gap P x y \<Longrightarrow> \<not> P y \<Longrightarrow> gap P x (y + 1)"
  by (auto simp: gap_def) (metis order_le_less)

text \<open>The next start of a unit after a second.\<close>

definition next_start :: "(int \<Rightarrow> bool) \<Rightarrow> int \<Rightarrow> int \<Rightarrow> bool" where
  "next_start start x y \<longleftrightarrow> x < y \<and> start y \<and> gap start (x + 1) y"

text \<open>
  A loop whose check changes only where its unit starts, and whose step leads from the start of a unit,
  or from anywhere in it the first time, to the start of the next one.
\<close>

locale scan_unit = scan_loop +
  fixes start :: "int \<Rightarrow> bool" and outer :: "int \<Rightarrow> bool"
  assumes check_time: "check t = check (time_at loc (abs_sec loc t))"
    and check_const: "\<not> start (x + 1) \<Longrightarrow> check (time_at loc (x + 1)) = check (time_at loc x)"
    and outer_start: "outer x \<Longrightarrow> start x"
    and step_next: "nsec t = 0 \<Longrightarrow> added \<longrightarrow> start (abs_sec loc t) \<Longrightarrow>
        nsec (step added t) = 0 \<and> next_start start (abs_sec loc t) (abs_sec loc (step added t))"
    and wrapped_iff: "start (abs_sec loc t) \<Longrightarrow> wrapped t \<longleftrightarrow> outer (abs_sec loc t)"
begin

definition ok :: "int \<Rightarrow> bool" where
  "ok x = check (time_at loc x)"

lemma ok_const: "x \<le> y \<Longrightarrow> gap start (x + 1) (y + 1) \<Longrightarrow> ok y = ok x"
proof (induction y rule: int_ge_induct)
  case (step i)
  then have "ok (i + 1) = ok i" using check_const[of i] by (simp add: ok_def gap_def)
  then show ?case using step by (simp add: gap_def)
qed simp

lemma ok_carried: "x < y \<Longrightarrow> ok x \<Longrightarrow> gap start (x + 1) y \<Longrightarrow> start y \<or> ok y"
  using ok_const[of x y] gap_Suc[of start "x + 1" y] by (cases "start y") auto

text \<open>What a loop promises: everything it passes over fails its check.\<close>

definition found :: "scan \<Rightarrow> flow \<Rightarrow> bool" where
  "found st r \<longleftrightarrow>
     (case r of
        Fall (a, t') \<Rightarrow> nsec t' = 0 \<and> ok (abs_sec loc t') \<and> abs_sec loc (snd st) \<le> abs_sec loc t' \<and>
          gap ok (abs_sec loc (snd st)) (abs_sec loc t') \<and> gap outer (abs_sec loc (snd st) + 1) (abs_sec loc t' + 1) \<and>
          ((a, t') = st \<or> a \<and> start (abs_sec loc t'))
      | Wrap (a, t') \<Rightarrow> nsec t' = 0 \<and> a \<and> abs_sec loc (snd st) < abs_sec loc t' \<and> outer (abs_sec loc t') \<and>
          gap ok (abs_sec loc (snd st)) (abs_sec loc t') \<and> gap outer (abs_sec loc (snd st) + 1) (abs_sec loc t'))"

lemma found_step:
  assumes "found (True, t') r" "abs_sec loc t < abs_sec loc t'" "start (abs_sec loc t')"
    "gap ok (abs_sec loc t) (abs_sec loc t')" "gap outer (abs_sec loc t + 1) (abs_sec loc t' + 1)"
  shows "found (added, t) r"
  using assms gap_join[OF assms(4)] gap_join[OF assms(5)] by (auto simp: found_def split: flow.splits)

lemma loop_finds:
  "nsec (snd st) = 0 \<Longrightarrow> fst st \<longrightarrow> start (abs_sec loc (snd st)) \<or> ok (abs_sec loc (snd st)) \<Longrightarrow> found st (loop st)"
proof (induction st rule: loop_induct)
  case (1 added t)
  have ok: "check t = ok (abs_sec loc t)" using check_time by (simp add: ok_def)
  show ?case
  proof (cases "check t")
    case True
    then show ?thesis using 1 ok by (subst loop_eq) (simp add: found_def)
  next
    case False
    define t' where "t' = step added t"
    have n: "nsec t' = 0" "next_start start (abs_sec loc t) (abs_sec loc t')"
      using step_next[of t added] 1 False ok by (auto simp: t'_def)
    have lt: "abs_sec loc t < abs_sec loc t'" "start (abs_sec loc t')" "gap start (abs_sec loc t + 1) (abs_sec loc t')"
      using n by (auto simp: next_start_def)
    have none: "gap ok (abs_sec loc t) (abs_sec loc t')"
      unfolding gap_def[of ok]
    proof (intro allI impI)
      fix z assume "abs_sec loc t \<le> z \<and> z < abs_sec loc t'"
      then show "\<not> ok z" using ok_const[of "abs_sec loc t" z] gap_sub[OF lt(3), of "abs_sec loc t + 1" "z + 1"] False ok by simp
    qed
    have no_outer: "gap outer (abs_sec loc t + 1) (abs_sec loc t')" by (rule gap_mono[OF lt(3)]) (rule outer_start)
    show ?thesis
    proof (cases "wrapped t'")
      case True
      have "loop (added, t) = Wrap (True, t')" by (subst loop_eq) (use True False in \<open>simp add: t'_def\<close>)
      then show ?thesis using n lt none no_outer True wrapped_iff[of t'] by (simp add: found_def)
    next
      case go: False
      have eq: "loop (added, t) = loop (True, t')" by (subst loop_eq) (use go False in \<open>simp add: t'_def\<close>)
      have "gap outer (abs_sec loc t + 1) (abs_sec loc t' + 1)"
        using gap_Suc[OF no_outer] go wrapped_iff[of t'] lt by simp
      moreover have "found (True, t') (loop (True, t'))" 
        using 1(1)[OF False go[unfolded t'_def]] n(1) lt(2) unfolding t'_def by simp
      ultimately show ?thesis unfolding eq using lt none found_step[of t'] by blast
    qed
  qed
qed

end

text \<open>
  What a pass through the loops promises: it stops at the first second that passes all checks, within the
  year, or it jumps back to a place that is aligned for another pass, and has missed nothing.
\<close>

definition passed :: "Location \<Rightarrow> (int \<Rightarrow> bool) \<Rightarrow> (int \<Rightarrow> bool) \<Rightarrow> (int \<Rightarrow> bool) \<Rightarrow> scan \<Rightarrow> flow \<Rightarrow> bool" where
  "passed loc years fires al st r \<longleftrightarrow>
     (let x = abs_sec loc (snd st) in
      case r of
        Wrap st' \<Rightarrow> nsec (snd st') = 0 \<and> al (abs_sec loc (snd st')) \<and> gap fires x (abs_sec loc (snd st'))
      | Fall st' \<Rightarrow> nsec (snd st') = 0 \<and> fires (abs_sec loc (snd st')) \<and> x \<le> abs_sec loc (snd st') \<and>
          gap fires x (abs_sec loc (snd st')) \<and> gap years (x + 1) (abs_sec loc (snd st') + 1))"

lemma passed_later:
  assumes "passed loc years fires al st' r" "gap fires (abs_sec loc (snd st)) (abs_sec loc (snd st'))"
    "abs_sec loc (snd st) \<le> abs_sec loc (snd st')" "gap years (abs_sec loc (snd st) + 1) (abs_sec loc (snd st') + 1)"
  shows "passed loc years fires al st r"
  using assms(1,3) gap_join[OF assms(2)] gap_join[OF assms(4)] by (auto simp: passed_def Let_def split: flow.splits)

text \<open>
  A unit inside of larger ones: the checks of the larger ones hold until one of them starts, where they
  hold or have to be made again.
\<close>

locale nested_unit = scan_unit +
  fixes larger :: "int \<Rightarrow> bool" and larger_aligned :: "int \<Rightarrow> bool"
  assumes larger_const: "x \<le> y \<Longrightarrow> gap outer (x + 1) (y + 1) \<Longrightarrow> larger x \<Longrightarrow> larger y"
    and larger_carried: "x < y \<Longrightarrow> gap outer (x + 1) y \<Longrightarrow> larger x \<Longrightarrow> larger_aligned y"
begin

definition inner :: "int \<Rightarrow> bool" where
  "inner x \<longleftrightarrow> larger x \<and> ok x"

definition inner_aligned :: "int \<Rightarrow> bool" where
  "inner_aligned x \<longleftrightarrow> larger_aligned x \<and> (start x \<or> ok x)"

lemma inner_const: "x \<le> y \<Longrightarrow> gap start (x + 1) (y + 1) \<Longrightarrow> inner x \<Longrightarrow> inner y"
  using ok_const[of x y] larger_const[of x y] gap_mono[of start "x + 1" "y + 1" outer] outer_start by (auto simp: inner_def)

lemma inner_carried: "x < y \<Longrightarrow> gap start (x + 1) y \<Longrightarrow> inner x \<Longrightarrow> inner_aligned y"
  using ok_carried[of x y] larger_carried[of x y] gap_mono[of start "x + 1" y outer] outer_start
  by (auto simp: inner_def inner_aligned_def)

lemma stage:
  assumes rest: "\<And>a t'. nsec t' = 0 \<Longrightarrow> inner (abs_sec loc t') \<Longrightarrow> a \<longrightarrow> smaller (abs_sec loc t') \<Longrightarrow>
      passed loc years fires al (a, t') (rest (a, t'))"
    and smaller: "\<And>x. start x \<Longrightarrow> smaller x" and fires: "\<And>x. fires x \<Longrightarrow> ok x"
    and al: "\<And>x. larger_aligned x \<Longrightarrow> outer x \<Longrightarrow> al x" and years: "\<And>x. years x \<Longrightarrow> outer x"
    and t: "nsec t = 0" "larger (abs_sec loc t)" "added \<longrightarrow> (start (abs_sec loc t) \<or> ok (abs_sec loc t)) \<and> smaller (abs_sec loc t)"
  shows "passed loc years fires al (added, t) (case loop (added, t) of Wrap st' \<Rightarrow> Wrap st' | Fall st' \<Rightarrow> rest st')"
proof -
  have f: "found (added, t) (loop (added, t))" using loop_finds[of "(added, t)"] t by simp
  show ?thesis
  proof (cases "loop (added, t)")
    case (Wrap st')
    obtain a t' where "st' = (a, t')" by (cases st')
    then have w: "nsec t' = 0" "abs_sec loc t < abs_sec loc t'" "outer (abs_sec loc t')"
      "gap ok (abs_sec loc t) (abs_sec loc t')" "gap outer (abs_sec loc t + 1) (abs_sec loc t')"
      using f Wrap by (auto simp: found_def)
    then show ?thesis
      using Wrap \<open>st' = (a, t')\<close> al larger_carried[OF w(2,5) t(2)] gap_mono[OF w(4) fires] by (simp add: passed_def)
  next
    case (Fall st')
    obtain a t' where "st' = (a, t')" by (cases st')
    then have w: "nsec t' = 0" "ok (abs_sec loc t')" "abs_sec loc t \<le> abs_sec loc t'" "gap ok (abs_sec loc t) (abs_sec loc t')"
      "gap outer (abs_sec loc t + 1) (abs_sec loc t' + 1)" "(a, t') = (added, t) \<or> a \<and> start (abs_sec loc t')"
      using f Fall by (auto simp: found_def)
    have "passed loc years fires al (a, t') (rest (a, t'))"
      using rest[OF w(1)] w(2,6) larger_const[OF w(3,5) t(2)] smaller t(3) by (auto simp: inner_def)
    then show ?thesis
      using Fall \<open>st' = (a, t')\<close> w(3) gap_mono[OF w(4) fires] gap_mono[OF w(5) years]
      by (simp add: passed_later[where st' = "(a, t')"])
  qed
qed

end

subsection \<open>Months, days, hours, minutes and seconds\<close>

definition minute_starts :: "int \<Rightarrow> bool" where
  "minute_starts x \<longleftrightarrow> x mod 60 = 0"

definition hour_starts :: "int \<Rightarrow> bool" where
  "hour_starts x \<longleftrightarrow> x mod 3600 = 0"

definition day_starts :: "int \<Rightarrow> bool" where
  "day_starts x \<longleftrightarrow> x mod 86400 = 0"

definition month_starts :: "int \<Rightarrow> bool" where
  "month_starts x \<longleftrightarrow> day_starts x \<and> snd (snd (absDate (x div 86400))) = 1"

definition year_starts :: "int \<Rightarrow> bool" where
  "year_starts x \<longleftrightarrow> month_starts x \<and> fst (snd (absDate (x div 86400))) = 1"

lemma starts_nested:
  "year_starts x \<Longrightarrow> month_starts x" "month_starts x \<Longrightarrow> day_starts x" "day_starts x \<Longrightarrow> hour_starts x"
  "hour_starts x \<Longrightarrow> minute_starts x"
  using mod_mod_cancel[of 3600 86400 x] mod_mod_cancel[of 60 3600 x]
  by (simp_all add: year_starts_def month_starts_def day_starts_def hour_starts_def minute_starts_def)

lemma div_same:
  fixes x n :: int
  assumes "0 < n" "(x + 1) mod n \<noteq> 0"
  shows "(x + 1) div n = x div n"
proof -
  have "x mod n \<noteq> n - 1" using mod_next[OF assms(1), of x] assms(2) by auto
  then have "x mod n + 1 < n" using pos_mod_bound[OF assms(1), of x] by linarith
  then show ?thesis using assms(1) by (intro int_div_pos_eq[where r = "x mod n + 1"]) simp_all
qed

lemma next_multiple:
  fixes n :: int
  assumes "0 < n"
  shows "next_start (\<lambda>z. z mod n = 0) x ((x div n + 1) * n)"
proof -
  have "x < (x div n + 1) * n"
    using pos_mod_bound[OF assms, of x] div_mult_mod_eq[of x n] unfolding distrib_right by linarith
  moreover have "z mod n \<noteq> 0" if "x + 1 \<le> z" "z < (x div n + 1) * n" for z
  proof
    assume "z mod n = 0"
    then obtain k where k: "z = k * n" by (metis mod_0_imp_dvd dvd_def mult.commute)
    have "k < x div n + 1" using that(2) assms k by simp
    then have "k * n \<le> x div n * n" using assms by simp
    also have "\<dots> \<le> x" using pos_mod_sign[OF assms, of x] div_mult_mod_eq[of x n] by linarith
    finally show False using that(1) k by simp
  qed
  ultimately show ?thesis by (auto simp: next_start_def gap_def)
qed

lemma month_const:
  assumes "\<not> month_starts (x + 1)"
  shows "fst (absDate ((x + 1) div 86400)) = fst (absDate (x div 86400)) \<and>
    fst (snd (absDate ((x + 1) div 86400))) = fst (snd (absDate (x div 86400)))"
proof (cases "day_starts (x + 1)")
  case True
  then have "(x + 1) div 86400 = x div 86400 + 1"
    using mod_next[of 86400 x] by (auto simp: day_starts_def split: if_splits)
  then show ?thesis
    using absDate_next_day[of "x div 86400"] assms True by (cases "absDate (x div 86400)") (auto simp: month_starts_def split: if_splits)
next
  case False
  then show ?thesis using div_same[of 86400 x] by (simp add: day_starts_def)
qed

lemma next_month_start:
  assumes "absDate (x div 86400) = (y, m, d)"
  shows "next_start month_starts x ((date_day y m 1 + month_days y m) * 86400)"
proof -
  have v: "valid_date y m d" and D: "x div 86400 = date_day y m d" using absDate_day[OF assms] by auto
  define e where "e = date_day y m 1 + month_days y m"
  have day: "date_day y m k = date_day y m 1 + (k - 1)" for k using date_day_plus[of y m 1 "k - 1"] by simp
  have v1: "valid_date y m 1" using v by (simp add: valid_date_def)
  have "x < (x div 86400 + 1) * 86400" using next_multiple[of 86400 x] by (simp add: next_start_def)
  also have "\<dots> \<le> e * 86400" using v D day[of d] by (simp add: e_def valid_date_def)
  finally have lt: "x < e * 86400" .
  have "snd (snd (absDate e)) = 1"
    using absDate_next_month[OF v1] date_day_next_month[OF v1] month_days_bounds(1)[of y "m + 1"] by (auto simp: e_def split: if_splits)
  then have starts: "month_starts (e * 86400)" by (simp add: month_starts_def day_starts_def)
  have "\<not> month_starts z" if "x + 1 \<le> z" "z < e * 86400" for z
  proof
    assume z: "month_starts z"
    define n where "n = z div 86400"
    have zn: "z = n * 86400" using z div_mult_mod_eq[of z 86400] by (simp add: month_starts_def day_starts_def n_def)
    have "n < e" using that zn by simp
    moreover have "x div 86400 < n" using that zn by (simp add: div_less_iff_less_mult)
    ultimately have "valid_date y m (n - date_day y m 1 + 1)" "n \<noteq> date_day y m 1"
      using v D day[of d] by (auto simp: e_def valid_date_def)
    moreover have "date_day y m (n - date_day y m 1 + 1) = n" using day[of "n - date_day y m 1 + 1"] by simp
    ultimately show False using absDate_of_date[of y m "n - date_day y m 1 + 1"] z by (simp add: month_starts_def n_def)
  qed
  then show ?thesis using lt starts by (simp add: next_start_def gap_def e_def)
qed

text \<open>The steps keep whole seconds.\<close>

lemma norm_whole: "nsec t = 0 \<Longrightarrow> norm_time t"
  by (simp add: norm_time_def)

lemma nsec_Add_0: "nsec t = 0 \<Longrightarrow> nsec (time_Add t (k * 1000000000)) = 0"
  using nsec_Add_seconds[OF norm_whole] by simp

lemma steps_whole:
  assumes "nsec t = 0"
  shows "nsec (month_step loc added t) = 0" "nsec (day_step loc added t) = 0" "nsec (hour_step loc added t) = 0"
    "nsec (minute_step added t) = 0" "nsec (second_step added t) = 0"
proof -
  have n: "norm_time t" using norm_whole assms .
  have add: "nsec (time_Add u (k * Hour)) = 0" "nsec (time_Add u (k * Minute)) = 0" "nsec (time_Add u (k * Second)) = 0" if "nsec u = 0" for u k
    using nsec_Add_0[OF that, of "k * 3600"] nsec_Add_0[OF that, of "k * 60"] nsec_Add_0[OF that, of k]
    by (simp_all add: units_def mult.assoc)
  show "nsec (month_step loc added t) = 0" using assms by (simp add: month_step_def AddDate_def)
  show "nsec (day_step loc added t) = 0"
    using assms AddDate_days[of t loc 1] AddDate_days[OF reset_day(2)[of loc t], of loc 1] n reset_day(3)[of loc t] add(1)[of _ "- _"] add(1)
    by (simp add: day_step_def Let_def)
  show "nsec (hour_step loc added t) = 0" using assms add(1)[of _ 1] by (simp add: hour_step_def)
  show "nsec (minute_step added t) = 0"
    using assms add(2)[of _ 1] Truncate_seconds(2)[OF n, of 60] by (simp add: minute_step_def units_def)
  show "nsec (second_step added t) = 0"
    using assms add(3)[of _ 1] Truncate_seconds(2)[OF n, of 1] by (simp add: second_step_def units_def)
qed

lemma before_year_end:
  assumes "time_Year loc t \<le> limit"
  shows "abs_sec loc t < year_start (limit + 1) * 86400"
proof -
  have "abs_day loc t < year_start (limit + 1)"
    using absDate_year(2)[OF date_fields[of loc t]] year_start_mono[of "time_Year loc t + 1" "limit + 1"] assms by simp
  then show ?thesis using abs_day_bounds(2)[of loc t] by (simp add: distrib_right)
qed

text \<open>A location whose clocks show the same minutes and seconds as UTC's.\<close>

locale whole_minutes =
  fixes s :: SpecSchedule and loc :: Location
  assumes whole_minutes: "loc mod 60 = 0"

sublocale whole_minutes \<subseteq> months: nested_unit loc "\<lambda>t. has_bit (ss_Month s) (time_Month loc t)" "month_step loc"
  "\<lambda>t. time_Month loc t = 1" "month_loop s loc" month_starts year_starts "\<lambda>_. True" "\<lambda>_. True"
proof unfold_locales
  fix t :: Time and added :: bool
  assume t: "nsec t = 0" "added \<longrightarrow> month_starts (abs_sec loc t)"
  let ?y = "time_Year loc t" and ?m = "time_Month loc t"
  have "abs_sec loc (month_step loc added t) = (date_day ?y ?m 1 + month_days ?y ?m) * 86400"
  proof (cases added)
    case True
    then have "time_Day loc t = 1" "abs_sec loc t = abs_day loc t * 86400"
      using t(2) div_mult_mod_eq[of "abs_sec loc t" 86400] by (simp_all add: month_starts_def day_starts_def time_Day_def abs_day_def)
    then show ?thesis
      using True AddDate_month[OF norm_whole[OF t(1)], of loc] abs_day_date[of loc t] by (simp add: month_step_def algebra_simps)
  next
    case False
    then show ?thesis
      using AddDate_month[of "time_Date ?y ?m 1 0 0 0 0 loc" loc] month_reset_fields[of loc t]
      by (simp add: month_step_def algebra_simps)
  qed
  then show "nsec (month_step loc added t) = 0 \<and> next_start month_starts (abs_sec loc t) (abs_sec loc (month_step loc added t))"
    using next_month_start[of "abs_sec loc t" ?y ?m "time_Day loc t"] date_fields[of loc t] steps_whole(1)[OF t(1)]
    by (simp add: abs_day_def)
next
  fix x assume "\<not> month_starts (x + 1)"
  then show "has_bit (ss_Month s) (time_Month loc (time_at loc (x + 1))) = has_bit (ss_Month s) (time_Month loc (time_at loc x))"
    using month_const[of x] by (simp add: time_Month_def abs_day_def)
qed (simp_all add: time_Month_def abs_day_def year_starts_def)

sublocale whole_minutes \<subseteq> days: nested_unit loc "dayMatches s loc" "day_step loc"
  "\<lambda>t. time_Day loc t = 1" "day_loop s loc" day_starts month_starts months.inner months.inner_aligned
proof unfold_locales
  fix t :: Time and added :: bool
  assume t: "nsec t = 0" "added \<longrightarrow> day_starts (abs_sec loc t)"
  have "time_Hour loc t = 0" "abs_day loc t * 86400 = abs_sec loc t" if added
    using that t(2) div_mult_mod_eq[of "abs_sec loc t" 86400] by (simp_all add: day_starts_def time_Hour_def abs_day_def)
  then have "abs_sec loc (day_step loc added t) = (abs_sec loc t div 86400 + 1) * 86400"
    using day_step_cases(1)[OF norm_whole[OF t(1)], of loc added] by (cases added) (simp_all add: abs_day_def)
  then show "nsec (day_step loc added t) = 0 \<and> next_start day_starts (abs_sec loc t) (abs_sec loc (day_step loc added t))"
    using next_multiple[of 86400 "abs_sec loc t"] steps_whole(2)[OF t(1)] by (simp add: day_starts_def[abs_def])
next
  fix x assume "\<not> day_starts (x + 1)"
  then show "dayMatches s loc (time_at loc (x + 1)) = dayMatches s loc (time_at loc x)"
    using div_same[of 86400 x] by (simp add: day_starts_def dayMatches_def time_Day_def time_Weekday_def abs_day_def)
qed (simp_all add: dayMatches_def time_Day_def time_Weekday_def abs_day_def month_starts_def, (rule months.inner_const months.inner_carried; assumption)+)

sublocale whole_minutes \<subseteq> hours: nested_unit loc "\<lambda>t. has_bit (ss_Hour s) (time_Hour loc t)" "hour_step loc"
  "\<lambda>t. time_Hour loc t = 0" "hour_loop s loc" hour_starts day_starts days.inner days.inner_aligned
proof unfold_locales
  fix t :: Time and added :: bool
  assume t: "nsec t = 0" "added \<longrightarrow> hour_starts (abs_sec loc t)"
  have "abs_sec loc t div 3600 * 3600 = abs_day loc t * 86400 + time_Hour loc t * 3600"
    using day_seconds[of loc t] time_of_day_bounds[of loc t] int_div_pos_eq[of "abs_sec loc t" 3600 "abs_day loc t * 24 + time_Hour loc t"
      "time_Minute loc t * 60 + time_Second loc t"] by simp
  then have "abs_sec loc (hour_step loc added t) = (abs_sec loc t div 3600 + 1) * 3600"
    using hour_step_sec[OF norm_whole[OF t(1)], of loc added] t(2) div_mult_mod_eq[of "abs_sec loc t" 3600]
    unfolding distrib_right by (auto simp: hour_starts_def)
  then show "nsec (hour_step loc added t) = 0 \<and> next_start hour_starts (abs_sec loc t) (abs_sec loc (hour_step loc added t))"
    using next_multiple[of 3600 "abs_sec loc t"] steps_whole(3)[OF t(1)] by (simp add: hour_starts_def[abs_def])
next
  fix x assume "\<not> hour_starts (x + 1)"
  then show "has_bit (ss_Hour s) (time_Hour loc (time_at loc (x + 1))) = has_bit (ss_Hour s) (time_Hour loc (time_at loc x))"
    using div_same[of 3600 x] by (simp add: hour_starts_def time_Hour_alt)
next
  fix t assume "hour_starts (abs_sec loc t)"
  then show "(time_Hour loc t = 0) = day_starts (abs_sec loc t)"
    using zmod_zmult2_eq[of 24 "abs_sec loc t" 3600] by (simp add: time_Hour_alt hour_starts_def day_starts_def)
qed (simp_all add: time_Hour_def starts_nested, (rule days.inner_const days.inner_carried; assumption)+)

sublocale whole_minutes \<subseteq> minutes: nested_unit loc "\<lambda>t. has_bit (ss_Minute s) (time_Minute loc t)" minute_step
  "\<lambda>t. time_Minute loc t = 0" "minute_loop s loc" minute_starts hour_starts hours.inner hours.inner_aligned
proof unfold_locales
  fix t :: Time and added :: bool
  assume t: "nsec t = 0" "added \<longrightarrow> minute_starts (abs_sec loc t)"
  have "(unix_sec t + 62135596800) mod 60 = abs_sec loc t mod 60"
    using whole_minutes mod_add_right_eq[of "unix_sec t + 62135596800" loc 60] by (simp add: abs_sec_def algebra_simps)
  then have "abs_sec loc (minute_step added t) = (abs_sec loc t div 60 + 1) * 60"
    using minute_step_sec[OF norm_whole[OF t(1)], of loc added] t(2) div_mult_mod_eq[of "abs_sec loc t" 60]
    unfolding distrib_right by (auto simp: minute_starts_def minus_mod_eq_div_mult)
  then show "nsec (minute_step added t) = 0 \<and> next_start minute_starts (abs_sec loc t) (abs_sec loc (minute_step added t))"
    using next_multiple[of 60 "abs_sec loc t"] steps_whole(4)[OF t(1)] by (simp add: minute_starts_def[abs_def])
next
  fix x assume "\<not> minute_starts (x + 1)"
  then show "has_bit (ss_Minute s) (time_Minute loc (time_at loc (x + 1))) = has_bit (ss_Minute s) (time_Minute loc (time_at loc x))"
    using div_same[of 60 x] by (simp add: minute_starts_def time_Minute_alt)
next
  fix t assume "minute_starts (abs_sec loc t)"
  then show "(time_Minute loc t = 0) = hour_starts (abs_sec loc t)"
    using zmod_zmult2_eq[of 60 "abs_sec loc t" 60] by (simp add: time_Minute_alt minute_starts_def hour_starts_def)
qed (simp_all add: time_Minute_def starts_nested, (rule hours.inner_const hours.inner_carried; assumption)+)

sublocale whole_minutes \<subseteq> seconds: nested_unit loc "\<lambda>t. has_bit (ss_Second s) (time_Second loc t)" second_step
  "\<lambda>t. time_Second loc t = 0" "second_loop s loc" "\<lambda>_. True" minute_starts minutes.inner minutes.inner_aligned
proof unfold_locales
  fix t :: Time and added :: bool
  assume "nsec t = 0" "added \<longrightarrow> True"
  then show "nsec (second_step added t) = 0 \<and> next_start (\<lambda>_. True) (abs_sec loc t) (abs_sec loc (second_step added t))"
    using second_step_sec[OF norm_whole, of t loc added] steps_whole(5)[of t added] by (simp add: next_start_def)
qed (simp_all add: time_Second_def minute_starts_def, (rule minutes.inner_const minutes.inner_carried; assumption)+)

subsection \<open>One pass\<close>

context whole_minutes
begin

definition fires_at :: "int \<Rightarrow> bool" where
  "fires_at = seconds.inner"

text \<open>Where a field does not match, the search is at the start of its unit.\<close>

definition aligned :: "int \<Rightarrow> bool" where
  "aligned = minutes.inner_aligned"

lemmas unit_defs =
  months.inner_def days.inner_def hours.inner_def minutes.inner_def seconds.inner_def
  months.inner_aligned_def days.inner_aligned_def hours.inner_aligned_def minutes.inner_aligned_def

text \<open>The loops from the last one outwards; \<open>al2\<close> to \<open>al4\<close> are the parts of the alignment that a loop leaves to later ones.\<close>

definition al4 :: "int \<Rightarrow> bool" where "al4 x \<longleftrightarrow> minute_starts x \<or> minutes.ok x"
definition al3 :: "int \<Rightarrow> bool" where "al3 x \<longleftrightarrow> (hour_starts x \<or> hours.ok x) \<and> al4 x"
definition al2 :: "int \<Rightarrow> bool" where "al2 x \<longleftrightarrow> (day_starts x \<or> days.ok x) \<and> al3 x"

lemma aligned_eq: "aligned x \<longleftrightarrow> (month_starts x \<or> months.ok x) \<and> al2 x"
  by (simp add: aligned_def unit_defs al2_def al3_def al4_def)

lemma outer_aligned: "minutes.inner_aligned x \<Longrightarrow> aligned x" "hours.inner_aligned x \<Longrightarrow> hour_starts x \<Longrightarrow> aligned x"
  "days.inner_aligned x \<Longrightarrow> day_starts x \<Longrightarrow> aligned x" "months.inner_aligned x \<Longrightarrow> month_starts x \<Longrightarrow> aligned x"
  by (simp_all add: aligned_def unit_defs starts_nested)

lemma starts_aligned: "month_starts x \<Longrightarrow> al2 x" "day_starts x \<Longrightarrow> al3 x" "hour_starts x \<Longrightarrow> al4 x"
  by (simp_all add: al2_def al3_def al4_def starts_nested)

lemma fires_at_ok: "fires_at x \<Longrightarrow> months.ok x" "fires_at x \<Longrightarrow> days.ok x" "fires_at x \<Longrightarrow> hours.ok x"
  "fires_at x \<Longrightarrow> minutes.ok x" "fires_at x \<Longrightarrow> seconds.ok x"
  by (simp_all add: fires_at_def unit_defs)

lemma second_passed:
  assumes "nsec t = 0" "minutes.inner (abs_sec loc t)"
  shows "passed loc year_starts fires_at aligned (added, t) (second_loop s loc (added, t))"
proof -
  have "passed loc year_starts fires_at aligned (added, t) (case second_loop s loc (added, t) of Wrap st' \<Rightarrow> Wrap st' | Fall st' \<Rightarrow> Fall st')"
    by (rule seconds.stage[where smaller = "\<lambda>_. True"])
       (use assms in \<open>auto simp: passed_def fires_at_def[symmetric] outer_aligned fires_at_ok starts_nested\<close>)
  then show ?thesis by (simp split: flow.splits)
qed

definition minute_pass :: "scan \<Rightarrow> flow" where
  "minute_pass st = (case minute_loop s loc st of Wrap st' \<Rightarrow> Wrap st' | Fall st' \<Rightarrow> second_loop s loc st')"

definition hour_pass :: "scan \<Rightarrow> flow" where
  "hour_pass st = (case hour_loop s loc st of Wrap st' \<Rightarrow> Wrap st' | Fall st' \<Rightarrow> minute_pass st')"

definition day_pass :: "scan \<Rightarrow> flow" where
  "day_pass st = (case day_loop s loc st of Wrap st' \<Rightarrow> Wrap st' | Fall st' \<Rightarrow> hour_pass st')"

lemma next_pass_eq: "next_pass s loc st = (case month_loop s loc st of Wrap st' \<Rightarrow> Wrap st' | Fall st' \<Rightarrow> day_pass st')"
  by (simp add: next_pass_def day_pass_def hour_pass_def minute_pass_def split: flow.splits)

lemma minute_passed:
  assumes "nsec t = 0" "hours.inner (abs_sec loc t)" "added \<longrightarrow> al4 (abs_sec loc t)"
  shows "passed loc year_starts fires_at aligned (added, t) (minute_pass (added, t))"
  unfolding minute_pass_def
  by (rule minutes.stage[where smaller = "\<lambda>_. True"])
     (use assms in \<open>auto simp: second_passed fires_at_ok starts_nested al4_def outer_aligned\<close>)

lemma hour_passed:
  assumes "nsec t = 0" "days.inner (abs_sec loc t)" "added \<longrightarrow> al3 (abs_sec loc t)"
  shows "passed loc year_starts fires_at aligned (added, t) (hour_pass (added, t))"
  unfolding hour_pass_def
  by (rule hours.stage[where smaller = al4])
     (use assms in \<open>auto simp: minute_passed fires_at_ok starts_nested starts_aligned al3_def outer_aligned\<close>)

lemma day_passed:
  assumes "nsec t = 0" "months.inner (abs_sec loc t)" "added \<longrightarrow> al2 (abs_sec loc t)"
  shows "passed loc year_starts fires_at aligned (added, t) (day_pass (added, t))"
  unfolding day_pass_def
  by (rule days.stage[where smaller = al3])
     (use assms in \<open>auto simp: hour_passed fires_at_ok starts_nested starts_aligned al2_def outer_aligned\<close>)

lemma next_passed:
  assumes "nsec t = 0" "added \<longrightarrow> aligned (abs_sec loc t)"
  shows "passed loc year_starts fires_at aligned (added, t) (next_pass s loc (added, t))"
  unfolding next_pass_eq
  by (rule months.stage[where smaller = al2])
     (use assms in \<open>auto simp: day_passed fires_at_ok starts_nested starts_aligned aligned_eq\<close>)

end

subsection \<open>When a schedule fires\<close>

definition unix_time :: "int \<Rightarrow> Time" where
  "unix_time x = \<lparr>unix_sec = x, nsec = 0\<rparr>"

definition fires :: "SpecSchedule \<Rightarrow> Location \<Rightarrow> Time \<Rightarrow> bool" where
  "fires s loc t \<longleftrightarrow>
     bit (ss_Month s) (nat (time_Month loc t)) \<and>
     (if bit (ss_Dom s) 63 \<or> bit (ss_Dow s) 63
      then bit (ss_Dom s) (nat (time_Day loc t)) \<and> bit (ss_Dow s) (nat (time_Weekday loc t))
      else bit (ss_Dom s) (nat (time_Day loc t)) \<or> bit (ss_Dow s) (nat (time_Weekday loc t))) \<and>
     bit (ss_Hour s) (nat (time_Hour loc t)) \<and> bit (ss_Minute s) (nat (time_Minute loc t)) \<and>
     bit (ss_Second s) (nat (time_Second loc t))"

lemma has_bit_iff: "has_bit w x \<longleftrightarrow> bit w (nat x)"
  by (simp add: has_bit_def bit_iff_and_push_bit_not_eq_0 and.commute)

lemma star_bit_iff: "w AND starBit \<noteq> 0 \<longleftrightarrow> bit w 63"
  unfolding starBit_def by (rule bit_iff_and_push_bit_not_eq_0[symmetric])

subsection \<open>The whole search\<close>

lemma year_mono:
  assumes "abs_sec loc t \<le> abs_sec loc t'"
  shows "time_Year loc t \<le> time_Year loc t'"
proof -
  have "abs_day loc t \<le> abs_day loc t'" using assms zdiv_mono1[of _ _ 86400] by (simp add: abs_day_def)
  then show ?thesis
    using absDate_year[OF date_fields[of loc t]] absDate_year[OF date_fields[of loc t']]
      year_start_strict[of "time_Year loc t" "time_Year loc t'"] by linarith
qed

lemma year_const:
  assumes "x \<le> y" "gap year_starts (x + 1) (y + 1)"
  shows "fst (absDate (y div 86400)) = fst (absDate (x div 86400))"
  using assms
proof (induction y rule: int_ge_induct)
  case (step i)
  have "\<not> year_starts (i + 1)" using step by (simp add: gap_def)
  then have "fst (absDate ((i + 1) div 86400)) = fst (absDate (i div 86400))"
  proof (cases "day_starts (i + 1)")
    case True
    then have "(i + 1) div 86400 = i div 86400 + 1"
      using mod_next[of 86400 i] by (auto simp: day_starts_def split: if_splits)
    then show ?thesis
      using absDate_next_day[of "i div 86400"] \<open>\<not> year_starts (i + 1)\<close> True
      by (cases "absDate (i div 86400)") (auto simp: year_starts_def month_starts_def split: if_splits)
  next
    case False
    then show ?thesis using div_same[of 86400 i] by (simp add: day_starts_def)
  qed
  then show ?case using step by (simp add: gap_def)
qed simp

lemma time_Year_eq: "time_Year loc t = fst (absDate (abs_sec loc t div 86400))"
  by (simp add: time_Year_def abs_day_def)

context whole_minutes
begin

lemma fires_at_iff: "fires_at x \<longleftrightarrow> fires s loc (time_at loc x)"
  unfolding fires_at_def unit_defs months.ok_def days.ok_def hours.ok_def minutes.ok_def seconds.ok_def
  by (simp add: fires_def dayMatches_def has_bit_iff star_bit_iff Let_def)

definition first_from :: "int \<Rightarrow> int \<Rightarrow> Time \<Rightarrow> bool" where
  "first_from limit x r \<longleftrightarrow>
     r = zero_time \<and> (\<forall>z. x \<le> z \<and> time_Year loc (time_at loc z) \<le> limit \<longrightarrow> \<not> fires_at z) \<or>
     nsec r = 0 \<and> x \<le> abs_sec loc r \<and> time_Year loc r \<le> limit \<and> fires_at (abs_sec loc r) \<and> gap fires_at x (abs_sec loc r)"

lemma first_from_later:
  assumes "first_from limit y r" "gap fires_at x y" "x \<le> y"
  shows "first_from limit x r"
proof -
  have gap: "\<not> fires_at z" if "x \<le> z" "\<not> y \<le> z" for z using assms(2) that by (simp add: gap_def)
  consider "r = zero_time" "\<forall>z. y \<le> z \<and> time_Year loc (time_at loc z) \<le> limit \<longrightarrow> \<not> fires_at z"
    | "nsec r = 0" "y \<le> abs_sec loc r" "time_Year loc r \<le> limit" "fires_at (abs_sec loc r)" "gap fires_at y (abs_sec loc r)"
    using assms(1) by (auto simp: first_from_def)
  then show ?thesis
  proof cases
    case 1
    then show ?thesis using gap by (auto simp: first_from_def)
  next
    case 2
    then show ?thesis using gap_join[OF assms(2) 2(5)] assms(3) by (simp add: first_from_def)
  qed
qed

lemma next_loop_first:
  "nsec t = 0 \<Longrightarrow> added \<longrightarrow> aligned (abs_sec loc t) \<Longrightarrow> first_from limit (abs_sec loc t) (next_loop s loc limit (added, t))"
proof (induction "nat (year_start (limit + 1) * 86400 - abs_sec loc t)" arbitrary: added t rule: less_induct)
  case less
  show ?case
  proof (cases "limit < time_Year loc t")
    case True
    have "\<not> time_Year loc (time_at loc z) \<le> limit" if "abs_sec loc t \<le> z" for z
      using year_mono[of loc t "time_at loc z"] that True by simp
    then show ?thesis using True by (subst next_loop.simps) (auto simp: first_from_def)
  next
    case False
    note pass = next_passed[OF less(2,3)]
    show ?thesis
    proof (cases "next_pass s loc (added, t)")
      case (Wrap st)
      obtain a t' where st: "st = (a, t')" by (cases st)
      have t': "nsec t' = 0" "aligned (abs_sec loc t')" "gap fires_at (abs_sec loc t) (abs_sec loc t')"
        using pass Wrap st by (simp_all add: passed_def Let_def)
      have lt: "abs_sec loc t < abs_sec loc t'" using next_pass_later[of s loc added t a t'] Wrap st norm_whole[OF less(2)] by simp
      have "abs_sec loc t < year_start (limit + 1) * 86400" using before_year_end[of loc t limit] False by simp
      then have "first_from limit (abs_sec loc t') (next_loop s loc limit (a, t'))"
        using less(1)[of t' a] t' lt by simp
      then show ?thesis using first_from_later[OF _ t'(3)] lt Wrap st False by (subst next_loop.simps) simp
    next
      case (Fall st)
      obtain a t' where st: "st = (a, t')" by (cases st)
      have t': "nsec t' = 0" "fires_at (abs_sec loc t')" "abs_sec loc t \<le> abs_sec loc t'" "gap fires_at (abs_sec loc t) (abs_sec loc t')"
        "gap year_starts (abs_sec loc t + 1) (abs_sec loc t' + 1)"
        using pass Fall st by (simp_all add: passed_def Let_def)
      have "time_Year loc t' = time_Year loc t" using year_const[OF t'(3,5)] by (simp add: time_Year_eq)
      then show ?thesis using Fall st False t' by (subst next_loop.simps) (simp add: first_from_def)
    qed
  qed
qed

lemma unix_seconds:
  "time_at loc (x + loc + 62135596800) = unix_time x" "abs_sec loc (unix_time x) = x + loc + 62135596800"
  by (simp_all add: time_at_def unix_time_def abs_sec_def)

lemma first_from_unix:
  assumes "first_from limit (abs_sec loc (unix_time x)) r"
  shows "if \<exists>z \<ge> x. time_Year loc (unix_time z) \<le> limit \<and> fires s loc (unix_time z)
    then nsec r = 0 \<and> x \<le> unix_sec r \<and> time_Year loc r \<le> limit \<and> fires s loc r \<and>
      (\<forall>z. x \<le> z \<and> z < unix_sec r \<longrightarrow> \<not> fires s loc (unix_time z))
    else r = zero_time"
proof -
  have f: "fires_at (z + loc + 62135596800) = fires s loc (unix_time z)" for z by (simp add: fires_at_iff unix_seconds)
  consider "r = zero_time" "\<forall>z. abs_sec loc (unix_time x) \<le> z \<and> time_Year loc (time_at loc z) \<le> limit \<longrightarrow> \<not> fires_at z"
    | "nsec r = 0" "abs_sec loc (unix_time x) \<le> abs_sec loc r" "time_Year loc r \<le> limit" "fires_at (abs_sec loc r)"
      "gap fires_at (abs_sec loc (unix_time x)) (abs_sec loc r)"
    using assms by (auto simp: first_from_def)
  then show ?thesis
  proof cases
    case 1
    have "\<not> fires s loc (unix_time z)" if "x \<le> z" "time_Year loc (unix_time z) \<le> limit" for z
      using 1(2)[rule_format, of "z + loc + 62135596800"] that by (simp add: f unix_seconds)
    then show ?thesis using 1(1) by auto
  next
    case 2
    have r: "unix_time (unix_sec r) = r" using 2(1) by (cases r) (simp add: unix_time_def)
    have sec: "abs_sec loc r = unix_sec r + loc + 62135596800" by (simp add: abs_sec_def)
    have "\<not> fires s loc (unix_time z)" if "x \<le> z" "z < unix_sec r" for z
      using 2(5) that f[of z] by (auto simp: gap_def unix_seconds sec)
    moreover have "fires s loc r" "x \<le> unix_sec r" using 2(2,4) f[of "unix_sec r"] r by (simp_all add: sec unix_seconds)
    moreover have "\<exists>z \<ge> x. time_Year loc (unix_time z) \<le> limit \<and> fires s loc (unix_time z)"
      by (rule exI[of _ "unix_sec r"]) (use calculation 2(3) r in simp)
    ultimately show ?thesis using 2(1,3) by simp
  qed
qed

end

lemma Next_starts: "time_Add t (1 * Second - nsec t * Nanosecond) = unix_time (unix_sec t + 1)"
  by (simp add: time_Add_def units_def unix_time_def)

interpretation utc: whole_minutes s 0 for s
  by unfold_locales simp

text \<open>
  For a schedule in a zone a whole number of minutes from UTC, \<open>Next\<close> returns, and what it returns is
  the first second after the given time at which the schedule fires, if there is one before the end of
  the fifth year, and the zero time otherwise.
\<close>

lemma first_firing:
  fixes local :: Location and s :: SpecSchedule and t :: Time
  assumes "schedule_loc local s mod 60 = 0"
  defines "loc \<equiv> schedule_loc local s"
  defines "limit \<equiv> time_Year loc (unix_time (unix_sec t + 1)) + 5"
  defines "r \<equiv> SpecSchedule_Next local s t"
  shows "if \<exists>x > unix_sec t. time_Year loc (unix_time x) \<le> limit \<and> fires s loc (unix_time x)
    then nsec r = 0 \<and> unix_sec t < unix_sec r \<and> time_Year loc r \<le> limit \<and> fires s loc r \<and>
      (\<forall>x. unix_sec t < x \<and> x < unix_sec r \<longrightarrow> \<not> fires s loc (unix_time x))
    else r = zero_time"
proof -
  have wm: "whole_minutes loc" using assms(1) by (simp add: whole_minutes_def loc_def)
  have "whole_minutes.first_from s loc limit (abs_sec loc (unix_time (unix_sec t + 1))) r"
    using whole_minutes.next_loop_first[OF wm, of "unix_time (unix_sec t + 1)" False s limit]
    unfolding r_def SpecSchedule_Next_def Let_def Next_starts loc_def[symmetric] limit_def by (simp add: unix_time_def)
  from whole_minutes.first_from_unix[OF wm this, unfolded add1_zle_eq] show ?thesis .
qed

end
