(* ===== verification/Cron_Parser.thy ===== *)
theory Cron_Parser
  imports Cron_Next Go_Strings
begin

text \<open>
  \<open>robfig/cron/v3/parser.go\<close>: from the text of a schedule to its bit sets, and the schedules as the cron
  job store uses them. Errors are their messages, without the texts of the errors of Go's own packages.
  The time zone database, \<open>time.LoadLocation\<close>, is an argument.
\<close>

subsection \<open>Fields of a text\<close>

text \<open>\<open>strings.FieldsFunc\<close> for one separator, and \<open>strings.Fields\<close>.\<close>

definition FieldsFunc :: "char \<Rightarrow> string \<Rightarrow> string list" where
  "FieldsFunc c s = filter (\<lambda>x. x \<noteq> []) (Split c s)"

function fields_from :: "string \<Rightarrow> string \<Rightarrow> string list" where
  "fields_from cur [] = [cur]"
| "fields_from cur (c # s) =
     (case find (\<lambda>r. r \<noteq> [] \<and> prefix r (c # s)) space_runes of
        None \<Rightarrow> fields_from (cur @ [c]) s
      | Some r \<Rightarrow> cur # fields_from [] (drop (length r) (c # s)))"
  by pat_completeness auto
termination
proof (relation "measure (\<lambda>(cur, s). length s)")
  fix cur s r :: string and c :: char
  assume "find (\<lambda>r. r \<noteq> [] \<and> prefix r (c # s)) space_runes = Some r"
  then have "r \<noteq> []" by (auto simp: find_Some_iff)
  then show "(([], drop (length r) (c # s)), cur, c # s) \<in> measure (\<lambda>(cur, s). length s)" by (cases r) auto
qed simp_all

declare fields_from.simps(2) [simp del]

definition Fields :: "string \<Rightarrow> string list" where
  "Fields s = filter (\<lambda>x. x \<noteq> []) (fields_from [] s)"

text \<open>The position of a character, as \<open>strings.Index\<close> finds it: \<open>None\<close> is -1.\<close>

fun Index :: "char \<Rightarrow> string \<Rightarrow> nat option" where
  "Index c [] = None"
| "Index c (x # s) = (if x = c then Some 0 else map_option Suc (Index c s))"

text \<open>
  \<open>strings.ToLower\<close> as far as a name can match: besides the ASCII letters, the two code points whose
  lower case is an ASCII letter (the Kelvin sign and the dotted capital I).
\<close>

fun lower_name :: "string \<Rightarrow> string" where
  "lower_name [] = []"
| "lower_name (c # s) =
     (if prefix [CHR 0xC4, CHR 0xB0] (c # s) then CHR ''i'' # lower_name (drop 1 s)
      else if prefix [CHR 0xE2, CHR 0x84, CHR 0xAA] (c # s) then CHR ''k'' # lower_name (drop 2 s)
      else lower_char c # lower_name s)"

subsection \<open>Ranges\<close>

record bounds =
  bounds_min :: int
  bounds_max :: int
  bounds_names :: "(string \<times> int) list"

definition second_bounds :: bounds where "second_bounds = \<lparr>bounds_min = 0, bounds_max = 59, bounds_names = []\<rparr>"
definition minute_bounds :: bounds where "minute_bounds = \<lparr>bounds_min = 0, bounds_max = 59, bounds_names = []\<rparr>"
definition hour_bounds :: bounds where "hour_bounds = \<lparr>bounds_min = 0, bounds_max = 23, bounds_names = []\<rparr>"
definition dom_bounds :: bounds where "dom_bounds = \<lparr>bounds_min = 1, bounds_max = 31, bounds_names = []\<rparr>"

definition month_bounds :: bounds where
  "month_bounds = \<lparr>bounds_min = 1, bounds_max = 12, bounds_names =
     [(''jan'', 1), (''feb'', 2), (''mar'', 3), (''apr'', 4), (''may'', 5), (''jun'', 6), (''jul'', 7), (''aug'', 8),
      (''sep'', 9), (''oct'', 10), (''nov'', 11), (''dec'', 12)]\<rparr>"

definition dow_bounds :: bounds where
  "dow_bounds = \<lparr>bounds_min = 0, bounds_max = 6, bounds_names =
     [(''sun'', 0), (''mon'', 1), (''tue'', 2), (''wed'', 3), (''thu'', 4), (''fri'', 5), (''sat'', 6)]\<rparr>"

definition mustParseInt :: "string \<Rightarrow> string + int" where
  "mustParseInt expr =
     (case Atoi expr of
        None \<Rightarrow> Inl (''failed to parse int from '' @ expr)
      | Some num \<Rightarrow>
          if num < 0 then Inl (''negative number ('' @ Itoa num @ '') not allowed: '' @ expr) else Inr num)"

definition parseIntOrName :: "string \<Rightarrow> (string \<times> int) list \<Rightarrow> string + int" where
  "parseIntOrName expr names =
     (case map_of names (lower_name expr) of Some namedInt \<Rightarrow> Inr namedInt | None \<Rightarrow> mustParseInt expr)"

text \<open>The loop of \<open>getBits\<close>; the step is at least 1 wherever it is called.\<close>

function bits_loop :: "int \<Rightarrow> int \<Rightarrow> int \<Rightarrow> 64 word \<Rightarrow> 64 word" where
  "bits_loop i hi step bits =
     (if i \<le> hi \<and> 0 < step then bits_loop (i + step) hi step (bits OR push_bit (nat i) 1) else bits)"
  by pat_completeness auto
termination
  by (relation "measure (\<lambda>(i, hi, step, bits). nat (hi + 1 - i))") auto

declare bits_loop.simps [simp del]

definition getBits :: "int \<Rightarrow> int \<Rightarrow> int \<Rightarrow> 64 word" where
  "getBits lo hi step =
     (if step = 1 then NOT (push_bit (nat (hi + 1)) (- 1)) AND push_bit (nat lo) (- 1)
      else bits_loop lo hi step 0)"

definition all_bits :: "bounds \<Rightarrow> 64 word" where
  "all_bits r = getBits (bounds_min r) (bounds_max r) 1 OR starBit"

text \<open>The two ends of a range, and its star bit.\<close>

definition range_ends :: "string \<Rightarrow> bounds \<Rightarrow> string list \<Rightarrow> string + int \<times> int \<times> 64 word" where
  "range_ends expr r lowAndHigh =
     (if hd lowAndHigh = ''*'' \<or> hd lowAndHigh = ''?'' then Inr (bounds_min r, bounds_max r, starBit)
      else case parseIntOrName (hd lowAndHigh) (bounds_names r) of
        Inl e \<Rightarrow> Inl e
      | Inr lo \<Rightarrow>
          (case lowAndHigh of
             [_] \<Rightarrow> Inr (lo, lo, 0)
           | [_, high] \<Rightarrow>
               (case parseIntOrName high (bounds_names r) of Inl e \<Rightarrow> Inl e | Inr hi \<Rightarrow> Inr (lo, hi, 0))
           | _ \<Rightarrow> Inl (''too many hyphens: '' @ expr)))"

definition range_step :: "string \<Rightarrow> bounds \<Rightarrow> string list \<Rightarrow> bool \<Rightarrow> int \<times> 64 word \<Rightarrow> string + int \<times> int \<times> 64 word" where
  "range_step expr r rangeAndStep singleDigit = (\<lambda>(hi, extra).
     case rangeAndStep of
       [_] \<Rightarrow> Inr (hi, 1, extra)
     | [_, st] \<Rightarrow>
         (case mustParseInt st of
            Inl e \<Rightarrow> Inl e
          | Inr step \<Rightarrow> Inr (if singleDigit then bounds_max r else hi, step, if 1 < step then 0 else extra))
     | _ \<Rightarrow> Inl (''too many slashes: '' @ expr))"

definition getRange :: "string \<Rightarrow> bounds \<Rightarrow> string + 64 word" where
  "getRange expr r =
     (let rangeAndStep = Split (CHR ''/'') expr;
          lowAndHigh = Split (CHR ''-'') (hd rangeAndStep);
          singleDigit = (length lowAndHigh = 1)
      in case range_ends expr r lowAndHigh of
           Inl e \<Rightarrow> Inl e
         | Inr (lo, hi0, extra0) \<Rightarrow>
             (case range_step expr r rangeAndStep singleDigit (hi0, extra0) of
                Inl e \<Rightarrow> Inl e
              | Inr (hi, step, extra) \<Rightarrow>
                  if lo < bounds_min r
                  then Inl (''beginning of range ('' @ Itoa lo @ '') below minimum ('' @ Itoa (bounds_min r) @ ''): '' @ expr)
                  else if bounds_max r < hi
                  then Inl (''end of range ('' @ Itoa hi @ '') above maximum ('' @ Itoa (bounds_max r) @ ''): '' @ expr)
                  else if hi < lo
                  then Inl (''beginning of range ('' @ Itoa lo @ '') beyond end of range ('' @ Itoa hi @ ''): '' @ expr)
                  else if step = 0
                  then Inl (''step of range should be a positive number: '' @ expr)
                  else Inr (getBits lo hi step OR extra)))"

fun field_ranges :: "string list \<Rightarrow> bounds \<Rightarrow> 64 word \<Rightarrow> string + 64 word" where
  "field_ranges [] r bits = Inr bits"
| "field_ranges (expr # es) r bits =
     (case getRange expr r of Inl e \<Rightarrow> Inl e | Inr b \<Rightarrow> field_ranges es r (bits OR b))"

definition getField :: "string \<Rightarrow> bounds \<Rightarrow> string + 64 word" where
  "getField field r = field_ranges (FieldsFunc (CHR '','') field) r 0"

subsection \<open>Parse\<close>

datatype ParseOption =
  Opt_Second | SecondOptional | Opt_Minute | Opt_Hour | Opt_Dom | Opt_Month | Opt_Dow | DowOptional | Descriptor

type_synonym Parser = "ParseOption list"

definition places :: "ParseOption list" where
  "places = [Opt_Second, Opt_Minute, Opt_Hour, Opt_Dom, Opt_Month, Opt_Dow]"

definition defaults :: "string list" where
  "defaults = [''0'', ''0'', ''0'', ''*'', ''*'', ''*'']"

definition NewParser :: "ParseOption list \<Rightarrow> Parser go" where
  "NewParser options =
     (if DowOptional \<in> set options \<and> SecondOptional \<in> set options
      then Inl (Panic_msg ''multiple optionals may not be configured'') else Inr options)"

text \<open>The fields at their places, with the defaults at the others.\<close>

fun expand_fields :: "ParseOption list \<Rightarrow> ParseOption list \<Rightarrow> string list \<Rightarrow> string list \<Rightarrow> string list" where
  "expand_fields options (p # ps) (d # ds) fds =
     (if p \<in> set options then hd fds # expand_fields options ps ds (tl fds)
      else d # expand_fields options ps ds fds)"
| "expand_fields options _ _ fds = []"

definition normalizeFields :: "string list \<Rightarrow> ParseOption list \<Rightarrow> string + string list" where
  "normalizeFields fds options0 =
     (let second = SecondOptional \<in> set options0; dow = DowOptional \<in> set options0;
          options = options0 @ (if second then [Opt_Second] else []) @ (if dow then [Opt_Dow] else []);
          optionals = (if second then 1 else 0) + (if dow then 1 else 0 :: nat);
          max = length (filter (\<lambda>p. p \<in> set options) places);
          min = max - optionals;
          count = length fds;
          found = '', found '' @ Itoa (int count) @ '': ['' @ Join fds '' '' @ '']''
      in if 1 < optionals then Inl ''multiple optionals may not be configured''
         else if count < min \<or> max < count
         then Inl (if min = max then ''expected exactly '' @ Itoa (int min) @ '' fields'' @ found
                   else ''expected '' @ Itoa (int min) @ '' to '' @ Itoa (int max) @ '' fields'' @ found)
         else Inr (expand_fields options places defaults
                (if min < max \<and> count = min then if dow then fds @ [defaults ! 5] else defaults ! 0 # fds
                 else fds)))"

datatype Schedule = Spec SpecSchedule | ConstantDelay int

definition Every :: "int \<Rightarrow> Schedule" where
  "Every duration = (let d = (if duration < Second then Second else duration) in ConstantDelay (d - d mod Second))"

definition Next :: "Location \<Rightarrow> Schedule \<Rightarrow> Time \<Rightarrow> Time" where
  "Next local sched t =
     (case sched of
        Spec s \<Rightarrow> SpecSchedule_Next local s t
      | ConstantDelay d \<Rightarrow> time_Add t (d - nsec t * Nanosecond))"

definition first_bit :: "bounds \<Rightarrow> 64 word" where
  "first_bit r = push_bit (nat (bounds_min r)) 1"

definition parseDescriptor :: "string \<Rightarrow> Location option \<Rightarrow> string + Schedule" where
  "parseDescriptor descriptor loc =
     (let spec = (\<lambda>hour day month weekday. Inr (Spec \<lparr>ss_Second = first_bit second_bounds, ss_Minute = first_bit minute_bounds,
            ss_Hour = hour, ss_Dom = day, ss_Month = month, ss_Dow = weekday, ss_Location = loc\<rparr>))
      in if descriptor = ''@yearly'' \<or> descriptor = ''@annually''
         then spec (first_bit hour_bounds) (first_bit dom_bounds) (first_bit month_bounds) (all_bits dow_bounds)
         else if descriptor = ''@monthly''
         then spec (first_bit hour_bounds) (first_bit dom_bounds) (all_bits month_bounds) (all_bits dow_bounds)
         else if descriptor = ''@weekly''
         then spec (first_bit hour_bounds) (all_bits dom_bounds) (all_bits month_bounds) (first_bit dow_bounds)
         else if descriptor = ''@daily'' \<or> descriptor = ''@midnight''
         then spec (first_bit hour_bounds) (all_bits dom_bounds) (all_bits month_bounds) (all_bits dow_bounds)
         else if descriptor = ''@hourly''
         then spec (all_bits hour_bounds) (all_bits dom_bounds) (all_bits month_bounds) (all_bits dow_bounds)
         else if HasPrefix descriptor ''@every ''
         then (case ParseDuration (drop 7 descriptor) of
                 None \<Rightarrow> Inl (''failed to parse duration '' @ descriptor)
               | Some duration \<Rightarrow> Inr (Every duration))
         else Inl (''unrecognized descriptor: '' @ descriptor))"

text \<open>The bits of the fields in their order, up to the first error.\<close>

fun getFields :: "(string \<times> bounds) list \<Rightarrow> string + 64 word list" where
  "getFields [] = Inr []"
| "getFields ((field, r) # fs) =
     (case getField field r of
        Inl e \<Rightarrow> Inl e
      | Inr bits \<Rightarrow> (case getFields fs of Inl e \<Rightarrow> Inl e | Inr bs \<Rightarrow> Inr (bits # bs)))"

definition parse_fields :: "Parser \<Rightarrow> string \<Rightarrow> Location option \<Rightarrow> string + Schedule" where
  "parse_fields options spec loc =
     (case normalizeFields (Fields spec) options of
        Inl e \<Rightarrow> Inl e
      | Inr fds \<Rightarrow>
          (case getFields (zip fds [second_bounds, minute_bounds, hour_bounds, dom_bounds, month_bounds, dow_bounds]) of
             Inl e \<Rightarrow> Inl e
           | Inr bs \<Rightarrow> Inr (Spec \<lparr>ss_Second = bs ! 0, ss_Minute = bs ! 1, ss_Hour = bs ! 2, ss_Dom = bs ! 3, ss_Month = bs ! 4,
                                   ss_Dow = bs ! 5, ss_Location = loc\<rparr>)))"

definition parse_spec :: "Parser \<Rightarrow> string \<Rightarrow> Location option \<Rightarrow> string + Schedule" where
  "parse_spec options spec loc =
     (if HasPrefix spec ''@''
      then if Descriptor \<notin> set options then Inl (''parser does not accept descriptors: '' @ spec)
           else parseDescriptor spec loc
      else parse_fields options spec loc)"

text \<open>
  \<open>Parse\<close>: the name of a zone ends at the first blank; when there is none the slice expression panics.
  The zone database gives \<open>None\<close> for the local zone.
\<close>

definition cron_Parse :: "(string \<Rightarrow> string + Location option) \<Rightarrow> Parser \<Rightarrow> string \<Rightarrow> (string + Schedule) go" where
  "cron_Parse LoadLocation options spec =
     (if length spec = 0 then Inr (Inl ''empty spec string'')
      else if HasPrefix spec ''TZ='' \<or> HasPrefix spec ''CRON_TZ=''
      then case (Index (CHR '' '') spec, Index (CHR ''='') spec) of
             (Some i, Some eq) \<Rightarrow>
               (let zone = drop (eq + 1) (take i spec) in
                if i < eq + 1 then Inl Index_out_of_range
                else case LoadLocation zone of
                  Inl e \<Rightarrow> Inr (Inl (''provided bad location '' @ zone @ '': '' @ e))
                | Inr loc \<Rightarrow> Inr (parse_spec options (TrimSpace (drop i spec)) loc))
           | _ \<Rightarrow> Inl Index_out_of_range
      else Inr (parse_spec options spec None))"

definition standardParser :: Parser where
  "standardParser = [Opt_Minute, Opt_Hour, Opt_Dom, Opt_Month, Opt_Dow, Descriptor]"

definition ParseStandard :: "(string \<Rightarrow> string + Location option) \<Rightarrow> string \<Rightarrow> (string + Schedule) go" where
  "ParseStandard LoadLocation standardSpec = cron_Parse LoadLocation standardParser standardSpec"

end
