(* ===== verification/Crontab.thy ===== *)
theory Crontab
  imports Cron_Parser Store_Batch
begin

text \<open>
  What a crontab line means, and that the cron job store shows the next time it fires: the grammar of the
  fields with its printer, the sets of times it denotes, and the parser and the search against them.
\<close>

subsection \<open>Bits of a range\<close>

lemma step_multiples:
  fixes i n step :: int
  assumes "0 < step"
  shows "i \<le> n \<and> (n - i) mod step = 0 \<longleftrightarrow> n = i \<or> i + step \<le> n \<and> (n - (i + step)) mod step = 0"
proof -
  have "(n - (i + step)) mod step = (n - i) mod step"
    using minus_mod_self2[of "n - i" step] by (simp add: algebra_simps)
  moreover have "\<not> step dvd n - i" if "i < n" "n < i + step"
    using zdvd_not_zless[of "n - i" step] that by simp
  then have "n = i" if "i \<le> n" "n < i + step" "step dvd n - i" using that by (cases "i < n") auto
  ultimately show ?thesis using assms by (cases "n < i + step") (auto simp: mod_eq_0_iff_dvd)
qed

lemma bit_bits_loop:
  assumes "0 < step" "hi < 64"
  shows "0 \<le> i \<Longrightarrow> bit (bits_loop i hi step w) n \<longleftrightarrow> bit w n \<or> i \<le> int n \<and> int n \<le> hi \<and> (int n - i) mod step = 0"
  using assms
proof (induction i hi step w rule: bits_loop.induct)
  case (1 i hi step w)
  show ?case
  proof (cases "i \<le> hi")
    case True
    then have "bit (bits_loop i hi step w) n \<longleftrightarrow>
      bit (w OR push_bit (nat i) 1) n \<or> i + step \<le> int n \<and> int n \<le> hi \<and> (int n - (i + step)) mod step = 0"
      using 1 by (subst bits_loop.simps) simp
    moreover have "bit (w OR push_bit (nat i) 1) n \<longleftrightarrow> bit w n \<or> int n = i"
      using True 1 by (auto simp: bit_simps)
    ultimately show ?thesis using step_multiples[of step i "int n"] 1(3) True by auto
  next
    case False
    then show ?thesis by (subst bits_loop.simps) auto
  qed
qed

lemma bit_getBits:
  assumes "0 < step" "hi < 64" "0 \<le> lo"
  shows "bit (getBits lo hi step) n \<longleftrightarrow> lo \<le> int n \<and> int n \<le> hi \<and> (int n - lo) mod step = 0"
proof (cases "step = 1")
  case True
  then show ?thesis using assms by (auto simp: getBits_def bit_simps)
next
  case False
  then show ?thesis using bit_bits_loop[OF assms(1,2,3), of 0 n] by (simp add: getBits_def)
qed

subsection \<open>The grammar of a crontab line\<close>

text \<open>A range is all values, one value or the values from one to another, with or without a step.\<close>

datatype range_base = Star | Num int | Between int int

type_synonym range_expr = "range_base \<times> int option"

fun print_base :: "range_base \<Rightarrow> string" where
  "print_base Star = ''*''"
| "print_base (Num a) = Itoa a"
| "print_base (Between a b) = Itoa a @ CHR ''-'' # Itoa b"

fun print_range :: "range_expr \<Rightarrow> string" where
  "print_range (base, None) = print_base base"
| "print_range (base, Some k) = print_base base @ CHR ''/'' # Itoa k"

definition print_field :: "range_expr list \<Rightarrow> string" where
  "print_field es = Join (map print_range es) '',''"

fun range_lo :: "bounds \<Rightarrow> range_base \<Rightarrow> int" where
  "range_lo r Star = bounds_min r"
| "range_lo r (Num a) = a"
| "range_lo r (Between a b) = a"

fun range_hi :: "bounds \<Rightarrow> range_expr \<Rightarrow> int" where
  "range_hi r (Star, st) = bounds_max r"
| "range_hi r (Num a, st) = (if st = None then a else bounds_max r)"
| "range_hi r (Between a b, st) = b"

definition range_values :: "bounds \<Rightarrow> range_expr \<Rightarrow> int set" where
  "range_values r e =
     {n. range_lo r (fst e) \<le> n \<and> n \<le> range_hi r e \<and> (n - range_lo r (fst e)) mod (case snd e of None \<Rightarrow> 1 | Some k \<Rightarrow> k) = 0}"

definition range_ok :: "bounds \<Rightarrow> range_expr \<Rightarrow> bool" where
  "range_ok r e \<longleftrightarrow>
     bounds_min r \<le> range_lo r (fst e) \<and> range_lo r (fst e) \<le> range_hi r e \<and> range_hi r e \<le> bounds_max r \<and>
     (case snd e of None \<Rightarrow> True | Some k \<Rightarrow> 0 < k \<and> k < 2 ^ 63)"

text \<open>A field is unrestricted when one of its ranges is a star whose step is 1.\<close>

fun range_star :: "range_expr \<Rightarrow> bool" where
  "range_star (base, st) \<longleftrightarrow> base = Star \<and> (st = None \<or> st = Some 1)"

definition field_ok :: "bounds \<Rightarrow> range_expr list \<Rightarrow> bool" where
  "field_ok r es \<longleftrightarrow> es \<noteq> [] \<and> list_all (range_ok r) es"

definition field_values :: "bounds \<Rightarrow> range_expr list \<Rightarrow> int set" where
  "field_values r es = (\<Union>e \<in> set es. range_values r e)"

text \<open>The bounds of the fields: small numbers, and names that are not numbers.\<close>

definition bounds_ok :: "bounds \<Rightarrow> bool" where
  "bounds_ok r \<longleftrightarrow> 0 \<le> bounds_min r \<and> bounds_min r \<le> bounds_max r \<and> bounds_max r < 63 \<and>
     list_all (\<lambda>(name, v). name \<noteq> [] \<and> \<not> is_digit (hd name)) (bounds_names r)"

lemma field_bounds_ok:
  "bounds_ok second_bounds" "bounds_ok minute_bounds" "bounds_ok hour_bounds" "bounds_ok dom_bounds" "bounds_ok month_bounds" "bounds_ok dow_bounds"
  by (simp_all add: bounds_ok_def second_bounds_def minute_bounds_def hour_bounds_def dom_bounds_def month_bounds_def dow_bounds_def is_digit_def)

subsection \<open>Reading a printed range\<close>

lemma Itoa_digits: "0 \<le> n \<Longrightarrow> list_all is_digit (Itoa n) \<and> Itoa n \<noteq> []"
  using dec_digits_are_digits[of n] by (simp add: Itoa_def)

lemma digits_no_sep: "list_all is_digit s \<Longrightarrow> \<not> is_digit c \<Longrightarrow> c \<notin> set s"
  by (auto simp: list_all_iff)

lemma not_digits [simp]: "\<not> is_digit (CHR ''/'')" "\<not> is_digit (CHR '','')" "\<not> is_digit (CHR ''*'')" "\<not> is_digit (CHR '' '')" "\<not> is_digit (CHR ''?'')"
  by (simp_all add: is_digit_def)

lemma lower_name_digits: "list_all is_digit s \<Longrightarrow> lower_name s = s"
proof (induction s rule: lower_name.induct)
  case (2 c s)
  then have "lower_char c = c" "c \<noteq> CHR 0xC4" "c \<noteq> CHR 0xE2" by (auto simp: is_digit_def lower_char_def)
  then show ?case using 2 by simp
qed simp

lemma parse_Itoa:
  assumes "bounds_ok r" "0 \<le> n" "n < 2 ^ 63"
  shows "parseIntOrName (Itoa n) (bounds_names r) = Inr n" "mustParseInt (Itoa n) = Inr n"
proof -
  have d: "list_all is_digit (Itoa n)" "Itoa n \<noteq> []" using Itoa_digits[OF assms(2)] by auto
  show must: "mustParseInt (Itoa n) = Inr n" using Atoi_Itoa[of n] assms by (simp add: mustParseInt_def)
  have "is_digit (hd (Itoa n))" using d by (cases "Itoa n") auto
  then have "map_of (bounds_names r) (Itoa n) = None"
    using assms(1) by (auto simp: map_of_eq_None_iff bounds_ok_def list_all_iff)
  then show "parseIntOrName (Itoa n) (bounds_names r) = Inr n"
    using must lower_name_digits[OF d(1)] by (simp add: parseIntOrName_def)
qed

lemma range_numbers:
  assumes "bounds_ok r" "range_ok r e"
  shows "0 \<le> range_lo r (fst e)" "range_lo r (fst e) < 63" "0 \<le> range_hi r e" "range_hi r e < 63"
  using assms by (auto simp: bounds_ok_def range_ok_def)

lemma print_base_no_slash:
  assumes "bounds_ok r" "range_ok r (base, st)"
  shows "CHR ''/'' \<notin> set (print_base base)"
  using range_numbers[OF assms] digits_no_sep[OF Itoa_digits[THEN conjunct1]] by (cases base) auto

lemma split_range:
  assumes "bounds_ok r" "range_ok r (base, st)"
  shows "Split (CHR ''/'') (print_range (base, st)) = print_base base # (case st of None \<Rightarrow> [] | Some k \<Rightarrow> [Itoa k])"
proof -
  have "CHR ''/'' \<notin> set (Itoa k)" if "st = Some k" for k
    using assms(2) that digits_no_sep[OF Itoa_digits[THEN conjunct1], of k "CHR ''/''"] by (simp add: range_ok_def)
  then show ?thesis
    using print_base_no_slash[OF assms] by (cases st) (simp_all add: Split_no_occurrence Split_append)
qed

lemma split_base:
  assumes "bounds_ok r" "range_ok r (base, st)"
  shows "Split (CHR ''-'') (print_base base) = (case base of Star \<Rightarrow> [''*''] | Num a \<Rightarrow> [Itoa a] | Between a b \<Rightarrow> [Itoa a, Itoa b])"
  using range_numbers[OF assms] digits_no_sep[OF Itoa_digits[THEN conjunct1], of _ "CHR ''-''"]
  by (cases base) (simp_all add: Split_no_occurrence Split_append)

lemma Itoa_not_star:
  assumes "0 \<le> n"
  shows "Itoa n \<noteq> ''*''" "Itoa n \<noteq> ''?''"
  using Itoa_digits[OF assms] by auto

lemma ends_of_print:
  assumes "bounds_ok r" "range_ok r (base, st)"
  shows "range_ends expr r (Split (CHR ''-'') (print_base base)) =
    Inr (range_lo r base, range_hi r (base, None), if base = Star then starBit else 0)"
  using range_numbers[OF assms] split_base[OF assms] Itoa_not_star parse_Itoa(1)[OF assms(1)]
  by (cases base) (auto simp: range_ends_def)

lemma bit_starBit [simp]: "bit starBit n \<longleftrightarrow> n = 63"
  unfolding starBit_def bit_push_bit_iff by (auto simp: bit_1_iff)

lemma getRange_print:
  assumes "bounds_ok r" "range_ok r e"
  shows "\<exists>w. getRange (print_range e) r = Inr w \<and> (\<forall>n. bit w n \<longleftrightarrow> int n \<in> range_values r e \<or> n = 63 \<and> range_star e)"
proof -
  obtain base st where e: "e = (base, st)" by (cases e)
  note ok = assms[unfolded e]
  define k where "k = (case st of None \<Rightarrow> 1 | Some k \<Rightarrow> k)"
  have k: "0 < k" "\<And>j. st = Some j \<Longrightarrow> mustParseInt (Itoa j) = Inr j"
    using ok(2) parse_Itoa(2)[OF ok(1)] by (auto simp: k_def range_ok_def split: option.splits)
  have single: "length (Split (CHR ''-'') (print_base base)) = 1 \<longleftrightarrow> (\<nexists>a b. base = Between a b)"
    using split_base[OF ok] by (cases base) auto
  define extra where "extra = (if base = Star \<and> \<not> 1 < k then starBit else 0)"
  have step: "range_step expr r (Split (CHR ''/'') (print_range (base, st))) (length (Split (CHR ''-'') (print_base base)) = 1)
      (range_hi r (base, None), if base = Star then starBit else 0) = Inr (range_hi r (base, st), k, extra)" for expr
    unfolding split_range[OF ok] single using k by (cases st; cases base) (auto simp: range_step_def k_def extra_def)
  have "getRange (print_range e) r = Inr (getBits (range_lo r base) (range_hi r (base, st)) k OR extra)"
    using ok(2) k(1) step ends_of_print[OF ok]
    unfolding getRange_def e Let_def split_range[OF ok] list.sel by (simp add: range_ok_def split_range[OF ok])
  moreover have "bit (getBits (range_lo r base) (range_hi r (base, st)) k OR extra) n \<longleftrightarrow> int n \<in> range_values r e \<or> n = 63 \<and> range_star e" for n
    using bit_getBits[OF k(1), of "range_hi r (base, st)" "range_lo r base" n] range_numbers[OF ok] k(1)
    by (cases st) (auto simp: range_values_def e bit_or_iff extra_def k_def)
  ultimately show ?thesis by blast
qed

lemma field_ranges_print:
  assumes "bounds_ok r" "list_all (range_ok r) es"
  shows "\<exists>w. field_ranges (map print_range es) r w0 = Inr w \<and>
    (\<forall>n. bit w n \<longleftrightarrow> bit w0 n \<or> int n \<in> field_values r es \<or> n = 63 \<and> list_ex range_star es)"
  using assms(2)
proof (induction es arbitrary: w0)
  case (Cons e es)
  obtain w1 where w1: "getRange (print_range e) r = Inr w1" "\<And>n. bit w1 n \<longleftrightarrow> int n \<in> range_values r e \<or> n = 63 \<and> range_star e"
    using getRange_print[OF assms(1), of e] Cons.prems by auto
  obtain w where "field_ranges (map print_range es) r (w0 OR w1) = Inr w"
    "\<And>n. bit w n \<longleftrightarrow> bit (w0 OR w1) n \<or> int n \<in> field_values r es \<or> n = 63 \<and> list_ex range_star es"
    using Cons.IH[of "w0 OR w1"] Cons.prems by auto
  then show ?case using w1 by (auto simp: bit_or_iff field_values_def)
qed (simp add: field_values_def)

subsection \<open>Reading a printed line\<close>

text \<open>The characters of a printed range: none separates fields.\<close>

definition range_char :: "char \<Rightarrow> bool" where
  "range_char c \<longleftrightarrow> is_digit c \<or> c = CHR ''*'' \<or> c = CHR ''-'' \<or> c = CHR ''/''"

lemma print_range_chars:
  assumes "bounds_ok r" "range_ok r e"
  shows "list_all range_char (print_range e) \<and> print_range e \<noteq> []"
proof -
  obtain base st where e: "e = (base, st)" by (cases e)
  note n = range_numbers[OF assms, unfolded e]
  have d: "list_all range_char (Itoa k) \<and> Itoa k \<noteq> []" if "0 \<le> k" for k
    using Itoa_digits[OF that] by (auto simp: list_all_iff range_char_def)
  then have "list_all range_char (print_base base) \<and> print_base base \<noteq> []"
    using n by (cases base) (auto simp: range_char_def)
  moreover have "\<And>k. st = Some k \<Longrightarrow> 0 \<le> k" using assms(2) e by (auto simp: range_ok_def)
  ultimately show ?thesis using d e by (cases st) (auto simp: range_char_def)
qed

lemma range_char_no_comma: "list_all range_char s \<Longrightarrow> CHR '','' \<notin> set s"
  by (auto simp: list_all_iff range_char_def)

text \<open>The bits of a field: its values, and the star bit.\<close>

definition field_bits :: "64 word \<Rightarrow> bounds \<Rightarrow> range_expr list \<Rightarrow> bool" where
  "field_bits w r es \<longleftrightarrow> (\<forall>n. bit w n \<longleftrightarrow> int n \<in> field_values r es \<or> n = 63 \<and> list_ex range_star es)"

lemma getField_print:
  assumes "bounds_ok r" "field_ok r es"
  shows "\<exists>w. getField (print_field es) r = Inr w \<and> field_bits w r es"
proof -
  have es: "es \<noteq> []" "list_all (range_ok r) es" using assms(2) by (auto simp: field_ok_def)
  have c: "list_all range_char (print_range e)" "print_range e \<noteq> []" if "e \<in> set es" for e
    using print_range_chars[OF assms(1), of e] es(2) that by (auto simp: list_all_iff)
  have "Split (CHR '','') (print_field es) = map print_range es"
    unfolding print_field_def using es(1) c(1) range_char_no_comma by (intro Split_Join) auto
  then have "FieldsFunc (CHR '','') (print_field es) = map print_range es"
    using c(2) by (simp add: FieldsFunc_def filter_id_conv)
  then show ?thesis using field_ranges_print[OF assms(1) es(2), of 0] by (simp add: getField_def field_bits_def)
qed

text \<open>A text without blanks is one field; a blank ends it.\<close>

definition field_char :: "char \<Rightarrow> bool" where
  "field_char c \<longleftrightarrow> range_char c \<or> c = CHR '',''"

lemma field_char_not_space:
  assumes "field_char c"
  shows "find (\<lambda>r. r \<noteq> [] \<and> prefix r (c # s)) space_runes = None"
proof -
  have "list_all (\<lambda>r. \<not> (33 \<le> (of_char (hd r) :: nat) \<and> (of_char (hd r) :: nat) \<le> 126)) space_runes" by code_simp
  moreover have "33 \<le> (of_char c :: nat) \<and> (of_char c :: nat) \<le> 126"
    using assms by (auto simp: field_char_def range_char_def is_digit_def)
  ultimately have "hd r \<noteq> c" if "r \<in> set space_runes" for r using that by (auto simp: list_all_iff)
  moreover have "hd r = c" if "r \<noteq> []" "prefix r (c # s)" for r using that by (cases r) auto
  ultimately show ?thesis by (auto simp: find_None_iff)
qed

lemma fields_from_text: "list_all field_char f \<Longrightarrow> fields_from cur (f @ s) = fields_from (cur @ f) s"
proof (induction f arbitrary: cur)
  case (Cons c f)
  then show ?case using field_char_not_space[of c "f @ s"] by (simp add: fields_from.simps(2))
qed simp

lemma fields_from_blank: "fields_from cur (CHR '' '' # s) = cur # fields_from [] s"
  by (subst fields_from.simps) (simp add: space_runes_def)

lemma fields_from_Join:
  "fs \<noteq> [] \<Longrightarrow> list_all (list_all field_char) fs \<Longrightarrow> fields_from [] (Join fs '' '') = fs"
proof (induction fs rule: induct_list012)
  case (2 x)
  then show ?case using fields_from_text[of x "[]" "[]"] by simp
next
  case (3 x y ys)
  then show ?case using fields_from_text[of x "[]" "'' '' @ Join (y # ys) '' ''"] by (simp add: fields_from_blank)
qed simp

lemma print_field_chars:
  assumes "bounds_ok r" "field_ok r es"
  shows "list_all field_char (print_field es) \<and> print_field es \<noteq> [] \<and> range_char (hd (print_field es))"
proof -
  have join: "list_all field_char (Join xs '','') \<and> Join xs '','' \<noteq> [] \<and> range_char (hd (Join xs '',''))"
    if "xs \<noteq> []" "list_all (\<lambda>x. list_all range_char x \<and> x \<noteq> []) xs" for xs
    using that
  proof (induction xs rule: induct_list012)
    case (2 x)
    then show ?case by (cases x) (auto simp: field_char_def list_all_iff)
  next
    case (3 x y ys)
    then show ?case by (cases x) (auto simp: field_char_def list_all_iff)
  qed simp
  show ?thesis
    unfolding print_field_def by (rule join) (use print_range_chars[OF assms(1)] assms(2) in \<open>auto simp: field_ok_def list_all_iff\<close>)
qed

text \<open>A line: minute, hour, day of the month, month and day of the week.\<close>

record crontab =
  ct_minute :: "range_expr list"
  ct_hour :: "range_expr list"
  ct_dom :: "range_expr list"
  ct_month :: "range_expr list"
  ct_dow :: "range_expr list"

definition crontab_ok :: "crontab \<Rightarrow> bool" where
  "crontab_ok c \<longleftrightarrow> field_ok minute_bounds (ct_minute c) \<and> field_ok hour_bounds (ct_hour c) \<and> field_ok dom_bounds (ct_dom c) \<and>
     field_ok month_bounds (ct_month c) \<and> field_ok dow_bounds (ct_dow c)"

definition print_crontab :: "crontab \<Rightarrow> string" where
  "print_crontab c =
     Join [print_field (ct_minute c), print_field (ct_hour c), print_field (ct_dom c), print_field (ct_month c), print_field (ct_dow c)] '' ''"

text \<open>
  The times a line stands for: the start of a minute in the sets of the fields. A day has to be in both
  of its fields when one of them is unrestricted, and otherwise in one of them.
\<close>

definition crontab_matches :: "crontab \<Rightarrow> Location \<Rightarrow> Time \<Rightarrow> bool" where
  "crontab_matches c loc t \<longleftrightarrow>
     time_Second loc t = 0 \<and> time_Minute loc t \<in> field_values minute_bounds (ct_minute c) \<and>
     time_Hour loc t \<in> field_values hour_bounds (ct_hour c) \<and> time_Month loc t \<in> field_values month_bounds (ct_month c) \<and>
     (let by_date = time_Day loc t \<in> field_values dom_bounds (ct_dom c); by_weekday = time_Weekday loc t \<in> field_values dow_bounds (ct_dow c)
      in if list_ex range_star (ct_dom c) \<or> list_ex range_star (ct_dow c) then by_date \<and> by_weekday else by_date \<or> by_weekday)"

lemma standardParser_normalize:
  "normalizeFields [f1, f2, f3, f4, f5] standardParser = Inr [''0'', f1, f2, f3, f4, f5]"
  by (simp add: normalizeFields_def standardParser_def places_def defaults_def)

lemma field_values_bound:
  assumes "bounds_ok r" "field_ok r es" "n \<in> field_values r es"
  shows "n < 63"
  using assms range_numbers(4)[OF assms(1)] by (fastforce simp: field_values_def field_ok_def range_values_def list_all_iff)

lemma field_bits_small: "field_bits w r es \<Longrightarrow> 0 \<le> x \<Longrightarrow> x < 63 \<Longrightarrow> bit w (nat x) \<longleftrightarrow> x \<in> field_values r es"
  by (auto simp: field_bits_def)

lemma field_bits_star:
  assumes "field_bits w r es" "bounds_ok r" "field_ok r es"
  shows "bit w 63 \<longleftrightarrow> list_ex range_star es"
  using assms field_values_bound[OF assms(2,3), of 63] by (auto simp: field_bits_def)

lemma zero_field: "\<exists>w. getField ''0'' second_bounds = Inr w \<and> (\<forall>n. bit w n \<longleftrightarrow> n = 0)"
proof -
  have "field_ok second_bounds [(Num 0, None)]" by (simp add: field_ok_def range_ok_def second_bounds_def)
  moreover have "print_field [(Num 0, None)] = ''0''" by code_simp
  moreover have "int n \<in> field_values second_bounds [(Num 0, None)] \<longleftrightarrow> n = 0" for n by (simp add: field_values_def range_values_def)
  ultimately show ?thesis using getField_print[OF field_bounds_ok(1), of "[(Num 0, None)]"] by (simp add: field_bits_def)
qed

lemma ParseStandard_print:
  assumes "crontab_ok c"
  shows "\<exists>s. ParseStandard L (print_crontab c) = Inr (Inr (Spec s)) \<and> ss_Location s = None \<and>
    (\<forall>loc t. fires s loc t \<longleftrightarrow> crontab_matches c loc t)"
proof -
  note ok = assms[unfolded crontab_ok_def]
  let ?fs = "[print_field (ct_minute c), print_field (ct_hour c), print_field (ct_dom c), print_field (ct_month c), print_field (ct_dow c)]"
  obtain m where m: "getField (print_field (ct_minute c)) minute_bounds = Inr m" "field_bits m minute_bounds (ct_minute c)"
    using ok getField_print[OF field_bounds_ok(2)] by blast
  obtain h where h: "getField (print_field (ct_hour c)) hour_bounds = Inr h" "field_bits h hour_bounds (ct_hour c)"
    using ok getField_print[OF field_bounds_ok(3)] by blast
  obtain d where d: "getField (print_field (ct_dom c)) dom_bounds = Inr d" "field_bits d dom_bounds (ct_dom c)"
    using ok getField_print[OF field_bounds_ok(4)] by blast
  obtain mo where mo: "getField (print_field (ct_month c)) month_bounds = Inr mo" "field_bits mo month_bounds (ct_month c)"
    using ok getField_print[OF field_bounds_ok(5)] by blast
  obtain w where w: "getField (print_field (ct_dow c)) dow_bounds = Inr w" "field_bits w dow_bounds (ct_dow c)"
    using ok getField_print[OF field_bounds_ok(6)] by blast
  obtain sec where sec: "getField ''0'' second_bounds = Inr sec" "\<And>n. bit sec n \<longleftrightarrow> n = 0"
    using zero_field by blast
  have chars: "list_all (list_all field_char) ?fs" "range_char (hd (print_field (ct_minute c)))" "print_field (ct_minute c) \<noteq> []"
    "\<forall>f \<in> set ?fs. f \<noteq> []"
    using ok print_field_chars field_bounds_ok by auto
  have fields: "Fields (print_crontab c) = ?fs"
    using chars(4) fields_from_Join[OF _ chars(1)] by (simp add: Fields_def print_crontab_def)
  have first: "print_crontab c \<noteq> []" "range_char (hd (print_crontab c))"
    using chars(2,3) by (auto simp: print_crontab_def)
  define s where "s = \<lparr>ss_Second = sec, ss_Minute = m, ss_Hour = h, ss_Dom = d, ss_Month = mo, ss_Dow = w, ss_Location = None\<rparr>"
  have "\<not> HasPrefix (print_crontab c) ''TZ=''" "\<not> HasPrefix (print_crontab c) ''CRON_TZ=''" "\<not> HasPrefix (print_crontab c) ''@''"
    using first by (cases "print_crontab c"; auto simp: HasPrefix_def range_char_def is_digit_def)+
  then have "ParseStandard L (print_crontab c) = Inr (Inr (Spec s))"
    using first(1) m h d mo w sec fields standardParser_normalize
    by (simp add: ParseStandard_def cron_Parse_def parse_spec_def parse_fields_def s_def)
  moreover have "fires s loc t \<longleftrightarrow> crontab_matches c loc t" for loc t
    using field_bits_small[OF m(2)] field_bits_small[OF h(2)] field_bits_small[OF d(2)] field_bits_small[OF mo(2)] field_bits_small[OF w(2)]
      field_bits_star[OF d(2) field_bounds_ok(4)] field_bits_star[OF w(2) field_bounds_ok(6)] ok sec(2)
      time_of_day_bounds[of loc t] time_Month_bounds[of loc t] time_Day_bounds[of loc t] time_Weekday_bounds[of loc t]
    by (auto simp: fires_def crontab_matches_def s_def Let_def)
  ultimately show ?thesis by (auto simp: s_def)
qed

subsection \<open>The parser of the cron job store\<close>

definition standard_schedules :: "(string \<Rightarrow> string + Location option) \<Rightarrow> Location \<Rightarrow> schedule_parser" where
  "standard_schedules LoadLocation local spec =
     go_bind (ParseStandard LoadLocation spec) (\<lambda>r. Inr (map_sum id (Next local) r))"

text \<open>The time from which the next one counts.\<close>

definition schedule_base :: "CronJob \<Rightarrow> Time" where
  "schedule_base j =
     (case LastScheduleTime (cj_Status j) of
        Some t \<Rightarrow> if IsZero t then CreationTimestamp (cj_ObjectMeta j) else t
      | None \<Rightarrow> CreationTimestamp (cj_ObjectMeta j))"

lemma next_schedule_time_of_base:
  assumes "ParseStandard L (Schedule (cj_Spec j)) = Inr (Inr sched)" "Suspend (cj_Spec j) = Some False" "\<not> IsZero (schedule_base j)"
  shows "kube_cronjob_next_schedule_time (standard_schedules L local) j = Inr (family [timestamp_metric (Next local sched (schedule_base j))])"
  using assms
  by (auto simp: kube_cronjob_next_schedule_time_def getNextScheduledTime_def next_after_def standard_schedules_def schedule_base_def
      split: option.splits bool.splits if_splits)

subsection \<open>Properties\<close>

text \<open>
  C17. The next schedule time of a cron job is right: for a job that is not suspended, whose schedule is
  a crontab line, and in a zone a whole number of minutes from UTC, the store shows one metric, the first
  second after the last scheduled time (or the creation, when it was never scheduled) that the line stands
  for, if there is one before the end of the fifth year, and the zero time otherwise.
\<close>

theorem next_schedule_time_is_next:
  fixes local :: Location and j :: CronJob
  assumes "crontab_ok c" "Schedule (cj_Spec j) = print_crontab c" "Suspend (cj_Spec j) = Some False"
    "\<not> IsZero (schedule_base j)" "local mod 60 = 0"
  defines "t \<equiv> unix_sec (schedule_base j)"
  defines "limit \<equiv> time_Year local (unix_time (t + 1)) + 5"
  shows "\<exists>r. kube_cronjob_next_schedule_time (standard_schedules L local) j = Inr (family [timestamp_metric r]) \<and>
    (if \<exists>x > t. time_Year local (unix_time x) \<le> limit \<and> crontab_matches c local (unix_time x)
     then nsec r = 0 \<and> t < unix_sec r \<and> time_Year local r \<le> limit \<and> crontab_matches c local r \<and>
       (\<forall>x. t < x \<and> x < unix_sec r \<longrightarrow> \<not> crontab_matches c local (unix_time x))
     else r = zero_time)"
proof -
  obtain s where s: "ParseStandard L (print_crontab c) = Inr (Inr (Spec s))" "ss_Location s = None"
    "\<And>loc t. fires s loc t \<longleftrightarrow> crontab_matches c loc t"
    using ParseStandard_print[OF assms(1), of L] by blast
  have loc: "schedule_loc local s = local" using s(2) by (simp add: schedule_loc_def)
  have shown: "kube_cronjob_next_schedule_time (standard_schedules L local) j =
      Inr (family [timestamp_metric (SpecSchedule_Next local s (schedule_base j))])"
    using next_schedule_time_of_base[of L j "Spec s" local] s(1) assms(2,3,4) by (simp add: Next_def)
  show ?thesis
    unfolding t_def limit_def s(3)[symmetric]
    by (intro exI conjI, rule shown) (rule first_firing[of local s "schedule_base j", unfolded loc, OF assms(5)])
qed

definition demo_crontab :: crontab where
  "demo_crontab = \<lparr>ct_minute = [(Star, Some 5)], ct_hour = [(Star, None)], ct_dom = [(Star, None)], ct_month = [(Star, None)], ct_dow = [(Star, None)]\<rparr>"

definition demo_cronjob :: "string \<Rightarrow> CronJob" where
  "demo_cronjob schedule =
     \<lparr>cj_ObjectMeta = empty_meta\<lparr>Name := ''backup'', Namespace := ''ops'', CreationTimestamp := unix_time 1000000000\<rparr>,
      cj_Spec = \<lparr>Schedule = schedule, StartingDeadlineSeconds = None, ConcurrencyPolicy = ''Allow'', Suspend = Some False\<rparr>,
      cj_Status = \<lparr>cj_Active = [], LastScheduleTime = None\<rparr>\<rparr>"

lemma demo_schedule_base: "schedule_base (demo_cronjob schedule) = unix_time 1000000000"
  by (simp add: schedule_base_def demo_cronjob_def)

text \<open>Every five minutes, from 01:46:40 on: at 01:50:00.\<close>

lemma demo_matches: "crontab_matches demo_crontab 0 (unix_time 1000000200)"
proof -
  have "time_Second 0 (unix_time 1000000200) = 0" "time_Minute 0 (unix_time 1000000200) = 50" "time_Hour 0 (unix_time 1000000200) = 1"
    "time_Day 0 (unix_time 1000000200) = 9" "time_Month 0 (unix_time 1000000200) = 9" "time_Weekday 0 (unix_time 1000000200) = 0"
    by code_simp+
  then show ?thesis
    by (simp add: crontab_matches_def demo_crontab_def field_values_def range_values_def minute_bounds_def hour_bounds_def dom_bounds_def
        month_bounds_def dow_bounds_def)
qed

theorem next_schedule_time_is_next_witness:
  "\<exists>r. kube_cronjob_next_schedule_time (standard_schedules (\<lambda>z. Inl []) 0) (demo_cronjob (print_crontab demo_crontab)) =
      Inr (family [timestamp_metric r]) \<and> 1000000000 < unix_sec r \<and> unix_sec r \<le> 1000000200 \<and> crontab_matches demo_crontab 0 r"
proof -
  let ?j = "demo_cronjob (print_crontab demo_crontab)"
  have j: "crontab_ok demo_crontab" "Schedule (cj_Spec ?j) = print_crontab demo_crontab" "Suspend (cj_Spec ?j) = Some False"
    "\<not> IsZero (schedule_base ?j)" "(0 :: int) mod 60 = 0"
    by (simp_all add: demo_schedule_base, code_simp, simp_all add: demo_cronjob_def, code_simp)
  have y: "time_Year 0 (unix_time 1000000200) = 2001" "time_Year 0 (unix_time 1000000001) = 2001" by code_simp+
  then have ex: "\<exists>x > 1000000000. time_Year 0 (unix_time x) \<le> time_Year 0 (unix_time 1000000001) + 5 \<and> crontab_matches demo_crontab 0 (unix_time x)"
    using demo_matches by (intro exI[of _ 1000000200]) simp
  obtain r where r: "kube_cronjob_next_schedule_time (standard_schedules (\<lambda>z. Inl []) 0) ?j = Inr (family [timestamp_metric r])"
    "1000000000 < unix_sec r" "crontab_matches demo_crontab 0 r"
    "\<forall>x. 1000000000 < x \<and> x < unix_sec r \<longrightarrow> \<not> crontab_matches demo_crontab 0 (unix_time x)"
    using next_schedule_time_is_next[OF j, of "\<lambda>z. Inl []"] ex by (auto simp: demo_schedule_base unix_time_def)
  have "\<not> 1000000200 < unix_sec r" using r(4) demo_matches by auto
  then show ?thesis using r by auto
qed

text \<open>
  A line that stands for no day is accepted all the same. The store then shows the zero time, year 1, as
  the next one.
\<close>

definition february_30 :: crontab where
  "february_30 = \<lparr>ct_minute = [(Num 0, None)], ct_hour = [(Num 0, None)], ct_dom = [(Num 30, None)], ct_month = [(Num 2, None)], ct_dow = [(Star, None)]\<rparr>"

lemma february_30_never: "\<not> crontab_matches february_30 loc t"
  using time_valid_date[of loc t]
  by (auto simp: crontab_matches_def february_30_def field_values_def range_values_def valid_date_def month_days_def split: if_splits)

lemma february_30_shows_year_1:
  assumes "local mod 60 = 0"
  shows "kube_cronjob_next_schedule_time (standard_schedules L local) (demo_cronjob (print_crontab february_30)) = Inr (family [timestamp_metric zero_time])"
proof -
  obtain s where s: "ParseStandard L (print_crontab february_30) = Inr (Inr (Spec s))" "ss_Location s = None"
    "\<And>loc t. \<not> fires s loc t"
    using ParseStandard_print[of february_30 L] february_30_never
    by (auto simp: february_30_def crontab_ok_def field_ok_def range_ok_def minute_bounds_def hour_bounds_def dom_bounds_def month_bounds_def dow_bounds_def)
  have "SpecSchedule_Next local s t = zero_time" for t
    using first_firing[of local s t] s(2,3) assms by (simp add: schedule_loc_def)
  then show ?thesis
    using next_schedule_time_of_base[of L "demo_cronjob (print_crontab february_30)" "Spec s" local] s(1)
    by (simp add: demo_schedule_base Next_def) (simp add: demo_cronjob_def unix_time_def IsZero_def)
qed

text \<open>A zone that no blank ends makes the parser panic.\<close>

lemma unfinished_zone_panics: "ParseStandard L ''TZ=UTC'' = Inl Index_out_of_range"
  by (simp add: ParseStandard_def cron_Parse_def HasPrefix_def)

end
