(* ===== verification/Pager.thy ===== *)
theory Pager
  imports Reflector
begin

text \<open>
  Lists in pages: client-go's \<open>ListPager\<close> (vendored, \<open>tools/pager/pager.go\<close>), which both
  \<open>cache.ListWatch\<close> and the reflector put around a list call. The lists of the other theories have
  no continue token. The lemmas here justify that: what \<open>ListWatch.List\<close> returns has
  collected all pages, so the lister watchers around it see complete lists, and the pager of
  the reflector calls them exactly once.
\<close>

subsection \<open>The pager\<close>

text \<open>The paging fields of \<open>metav1.ListOptions\<close> beside the others, and a list with its continue token.\<close>

record PageRequest =
  pr_Options :: ListOptions
  Limit :: int
  Continue :: string

record Page =
  page_List :: ObjectList
  page_Continue :: string

type_synonym 'w page_fn = "PageRequest \<Rightarrow> 'w \<Rightarrow> (err + Page) \<times> 'w"

abbreviation with_rv :: "string \<Rightarrow> PageRequest \<Rightarrow> PageRequest" where
  "with_rv rv req \<equiv> req\<lparr>pr_Options := (pr_Options req)\<lparr>opt_ResourceVersion := rv\<rparr>\<rparr>"

text \<open>
  The list under construction after one more page: it takes the resource version of the first page.
\<close>

definition add_page :: "ObjectList option \<Rightarrow> ObjectList \<Rightarrow> ObjectList" where
  "add_page list page =
     (let l = (case list of
                 None \<Rightarrow> \<lparr>list_ResourceVersion = list_ResourceVersion page, Items = []\<rparr>
               | Some l \<Rightarrow> l)
      in l\<lparr>Items := Items l @ Items page\<rparr>)"

text \<open>
  The loop of \<open>ListPager.List\<close>. \<open>expired\<close> is \<open>errors.IsResourceExpired\<close>; the context of both
  callers is never cancelled. A server that always answers with a continue token keeps the loop
  running: then there is no result.
\<close>

partial_function (option) pager_loop ::
  "(err \<Rightarrow> bool) \<Rightarrow> 'w page_fn \<Rightarrow> string \<Rightarrow> PageRequest \<Rightarrow> ObjectList option \<Rightarrow> 'w \<Rightarrow> ((err + Page) \<times> 'w) option" where
  "pager_loop expired PageFn requestedResourceVersion options list w =
     (case PageFn options w of
        (Inl e, w') \<Rightarrow>
          if \<not> expired e \<or> Continue options = [] then Some (Inl e, w')
          else Some (PageFn (with_rv requestedResourceVersion (options\<lparr>Limit := 0, Continue := []\<rparr>)) w')
      | (Inr m, w') \<Rightarrow>
          if page_Continue m = [] \<and> list = None then Some (Inr m, w')
          else if page_Continue m = [] then
            Some (Inr \<lparr>page_List = add_page list (page_List m), page_Continue = []\<rparr>, w')
          else pager_loop expired PageFn requestedResourceVersion
                 (with_rv [] (options\<lparr>Continue := page_Continue m\<rparr>)) (Some (add_page list (page_List m))) w')"

definition defaultPageSize :: int where
  "defaultPageSize = 500"

definition default_limit :: "PageRequest \<Rightarrow> PageRequest" where
  "default_limit options = (if Limit options = 0 then options\<lparr>Limit := defaultPageSize\<rparr> else options)"

definition pager_List :: "(err \<Rightarrow> bool) \<Rightarrow> 'w page_fn \<Rightarrow> PageRequest \<Rightarrow> 'w \<Rightarrow> ((err + Page) \<times> 'w) option" where
  "pager_List expired PageFn options w =
     pager_loop expired PageFn (opt_ResourceVersion (pr_Options options)) (default_limit options) None w"

text \<open>\<open>ListWatch.List\<close>: no lister watcher of the program sets \<open>DisableChunking\<close>.\<close>

definition ListWatch_List :: "(err \<Rightarrow> bool) \<Rightarrow> 'w page_fn \<Rightarrow> PageRequest \<Rightarrow> 'w \<Rightarrow> ((err + Page) \<times> 'w) option" where
  "ListWatch_List expired ListFunc options w = pager_List expired ListFunc options w"

text \<open>A list function of the other theories as a page function: its lists have no continue token.\<close>

definition complete_lists :: "(ListOptions \<Rightarrow> 'w \<Rightarrow> (err + ObjectList) \<times> 'w) \<Rightarrow> 'w page_fn" where
  "complete_lists f req w =
     (case f (pr_Options req) w of
        (Inl e, w') \<Rightarrow> (Inl e, w')
      | (Inr l, w') \<Rightarrow> (Inr \<lparr>page_List = l, page_Continue = []\<rparr>, w'))"

text \<open>The request of the reflector, \<open>ListOptions{ResourceVersion: "0"}\<close>.\<close>

definition reflector_request :: PageRequest where
  "reflector_request =
     \<lparr>pr_Options = \<lparr>opt_ResourceVersion = ''0'', FieldSelector = []\<rparr>, Limit = 0, Continue = []\<rparr>"

subsection \<open>A list in one call\<close>

lemma default_limit_Continue [simp]: "Continue (default_limit req) = Continue req"
  by (simp add: default_limit_def)

lemma default_limit_Options [simp]: "pr_Options (default_limit req) = pr_Options req"
  by (simp add: default_limit_def)

lemma default_limit_nonzero: "Limit (default_limit req) \<noteq> 0"
  by (simp add: default_limit_def defaultPageSize_def)

text \<open>A first answer that is an error or has no continue token is the result, whatever the page size.\<close>

lemma pager_List_one_call:
  assumes "Continue req = []" "\<And>m w'. fn (default_limit req) w = (Inr m, w') \<Longrightarrow> page_Continue m = []"
  shows "pager_List expired fn req w = Some (fn (default_limit req) w)"
  using assms by (auto simp: pager_List_def pager_loop.simps split: prod.split sum.split)

text \<open>
  The pager of the reflector, around a lister watcher of complete lists, calls it once
  with the options the model of \<open>ListAndWatch\<close> uses.
\<close>

lemma reflector_lists_once:
  "pager_List expired (complete_lists (lw_List lw)) reflector_request w =
     Some (case lw_List lw \<lparr>opt_ResourceVersion = ''0'', FieldSelector = []\<rparr> w of
             (Inl e, w') \<Rightarrow> (Inl e, w')
           | (Inr l, w') \<Rightarrow> (Inr \<lparr>page_List = l, page_Continue = []\<rparr>, w'))"
proof -
  have "pager_List expired (complete_lists (lw_List lw)) reflector_request w =
      Some (complete_lists (lw_List lw) (default_limit reflector_request) w)"
    by (rule pager_List_one_call)
      (auto simp: reflector_request_def complete_lists_def split: prod.splits sum.splits)
  then show ?thesis by (simp add: complete_lists_def reflector_request_def)
qed

subsection \<open>Results are complete\<close>

text \<open>
  A request without a limit is answered in full. Then no result of the pager has a continue token,
  the full list it falls back to included: paging it again changes nothing.
\<close>

definition full_without_limit :: "'w page_fn \<Rightarrow> bool" where
  "full_without_limit fn \<longleftrightarrow>
     (\<forall>req w m. Limit req = 0 \<and> Continue req = [] \<longrightarrow> fst (fn req w) = Inr m \<longrightarrow> page_Continue m = [])"

lemma full_without_limitD:
  "full_without_limit fn \<Longrightarrow> Limit req = 0 \<Longrightarrow> Continue req = [] \<Longrightarrow> fst (fn req w) = Inr m \<Longrightarrow> page_Continue m = []"
  by (simp add: full_without_limit_def)

lemma pager_loop_complete:
  assumes "pager_loop expired fn rv req list w = Some r"
  shows "full_without_limit fn \<longrightarrow> (\<forall>m. fst r = Inr m \<longrightarrow> page_Continue m = [])"
proof (rule pager_loop.raw_induct[OF _ assms])
  fix loop expired rv req list w r
  fix fn :: "'w page_fn"
  let ?P = "\<lambda>fn r. full_without_limit fn \<longrightarrow> (\<forall>m. fst r = Inr m \<longrightarrow> page_Continue m = [])"
  assume IH: "\<And>expired fn rv req list w r. loop expired fn rv req list w = Some r \<Longrightarrow> ?P fn r"
    and step: "(case fn req w of
        (Inl e, w') \<Rightarrow>
          if \<not> expired e \<or> Continue req = [] then Some (Inl e, w')
          else Some (fn (with_rv rv (req\<lparr>Limit := 0, Continue := []\<rparr>)) w')
      | (Inr m, w') \<Rightarrow>
          if page_Continue m = [] \<and> list = None then Some (Inr m, w')
          else if page_Continue m = [] then
            Some (Inr \<lparr>page_List = add_page list (page_List m), page_Continue = []\<rparr>, w')
          else loop expired fn rv (with_rv [] (req\<lparr>Continue := page_Continue m\<rparr>))
                 (Some (add_page list (page_List m))) w') = Some r"
  obtain a w' where a: "fn req w = (a, w')" by fastforce
  show "?P fn r"
  proof (cases a)
    case (Inl e)
    then have "r = (Inl e, w') \<or> r = fn (with_rv rv (req\<lparr>Limit := 0, Continue := []\<rparr>)) w'"
      using step a by (simp split: if_splits)
    then show ?thesis
      using full_without_limitD[of fn "with_rv rv (req\<lparr>Limit := 0, Continue := []\<rparr>)" w'] by auto
  next
    case (Inr m)
    then have "page_Continue m = [] \<and> r = (Inr m, w') \<or>
        r = (Inr \<lparr>page_List = add_page list (page_List m), page_Continue = []\<rparr>, w') \<or>
        loop expired fn rv (with_rv [] (req\<lparr>Continue := page_Continue m\<rparr>)) (Some (add_page list (page_List m))) w' = Some r"
      using step a by (simp split: if_splits)
    then show ?thesis by (elim disjE) (simp_all add: IH[rule_format])
  qed
qed

lemma ListWatch_List_complete:
  assumes "ListWatch_List expired fn req w = Some (Inr m, w')" "full_without_limit fn"
  shows "page_Continue m = []"
  using pager_loop_complete[OF assms(1)[unfolded ListWatch_List_def pager_List_def]] assms(2) by simp

text \<open>
  So \<open>ListWatch.List\<close>, where it returns, is for the reflector's pager the only call: wrapping it
  again gives the same list.
\<close>

lemma nested_pagers:
  assumes "full_without_limit fn" "\<And>req w. ListWatch_List expired fn req w = Some (list_fn req w)" "Continue req = []"
  shows "pager_List expired list_fn req w = ListWatch_List expired fn (default_limit req) w"
  using pager_List_one_call[of req list_fn w expired] ListWatch_List_complete[OF _ assms(1)] assms(2,3) by metis

subsection \<open>Nothing is lost between pages\<close>

text \<open>
  A server that holds the objects \<open>objs\<close> at the resource version \<open>rv\<close> and serves them in chunks of
  the requested limit, with \<open>tok n\<close> the token that continues at offset \<open>n\<close>. It refuses a resource
  version beside a continue token, so the law is only assumed of requests without one.
\<close>

definition serves_chunks :: "'w page_fn \<Rightarrow> kobject list \<Rightarrow> string \<Rightarrow> (nat \<Rightarrow> string) \<Rightarrow> 'w \<Rightarrow> bool" where
  "serves_chunks fn objs rv tok w \<longleftrightarrow>
     (\<forall>n > 0. tok n \<noteq> []) \<and>
     (\<forall>n req. 0 < Limit req \<and> Continue req = (if n = 0 then [] else tok n) \<and>
        (n = 0 \<or> opt_ResourceVersion (pr_Options req) = []) \<longrightarrow>
        fn req w =
          (Inr \<lparr>page_List = \<lparr>list_ResourceVersion = rv, Items = take (nat (Limit req)) (drop n objs)\<rparr>,
                page_Continue = (if n + nat (Limit req) < length objs then tok (n + nat (Limit req)) else [])\<rparr>, w))"

lemma pager_loop_rest:
  assumes "serves_chunks fn objs rv tok w" "0 < Limit req" "0 < n" "Continue req = tok n"
    "opt_ResourceVersion (pr_Options req) = []"
  shows "pager_loop expired fn rrv req (Some l) w =
     Some (Inr \<lparr>page_List = l\<lparr>Items := Items l @ drop n objs\<rparr>, page_Continue = []\<rparr>, w)"
  using assms
proof (induction "length objs - n" arbitrary: n req l rule: less_induct)
  case less
  let ?k = "nat (Limit req)"
  have k: "0 < ?k" using less.prems(2) by simp
  have fn: "fn req w =
      (Inr \<lparr>page_List = \<lparr>list_ResourceVersion = rv, Items = take ?k (drop n objs)\<rparr>,
            page_Continue = (if n + ?k < length objs then tok (n + ?k) else [])\<rparr>, w)"
    using less.prems unfolding serves_chunks_def by (metis neq0_conv)
  show ?case
  proof (cases "n + ?k < length objs")
    case True
    have tok: "tok (n + ?k) \<noteq> []" using less.prems(1,3) by (simp add: serves_chunks_def)
    let ?req = "with_rv [] (req\<lparr>Continue := tok (n + ?k)\<rparr>)"
    have "length objs - (n + ?k) < length objs - n" using True k by linarith
    then have "pager_loop expired fn rrv ?req (Some (l\<lparr>Items := Items l @ take ?k (drop n objs)\<rparr>)) w =
        Some (Inr \<lparr>page_List = l\<lparr>Items := (Items l @ take ?k (drop n objs)) @ drop (n + ?k) objs\<rparr>, page_Continue = []\<rparr>, w)"
      using less.hyps[of "n + ?k" ?req "l\<lparr>Items := Items l @ take ?k (drop n objs)\<rparr>"] less.prems(1-3) by simp
    moreover have "take ?k (drop n objs) @ drop (n + ?k) objs = drop n objs"
      by (metis add.commute append_take_drop_id drop_drop)
    ultimately show ?thesis using True tok by (simp add: pager_loop.simps[of _ _ _ req] fn add_page_def)
  next
    case False
    then have "take ?k (drop n objs) = drop n objs" by simp
    then show ?thesis using False by (simp add: pager_loop.simps[of _ _ _ req] fn add_page_def)
  qed
qed

text \<open>
  The pager returns, with the resource version of the server, all objects in order: for every page
  size and every number of objects, no page is skipped and none is read twice.
\<close>

lemma pager_lists_everything:
  assumes "serves_chunks fn objs rv tok w" "0 \<le> Limit req" "Continue req = []"
  shows "pager_List expired fn req w =
    Some (Inr \<lparr>page_List = \<lparr>list_ResourceVersion = rv, Items = objs\<rparr>, page_Continue = []\<rparr>, w)"
proof -
  let ?req = "default_limit req" and ?k = "nat (Limit (default_limit req))"
  have pos: "0 < Limit ?req" using assms(2) default_limit_nonzero[of req] by (auto simp: default_limit_def defaultPageSize_def)
  have fn: "fn ?req w =
      (Inr \<lparr>page_List = \<lparr>list_ResourceVersion = rv, Items = take ?k objs\<rparr>,
            page_Continue = (if ?k < length objs then tok ?k else [])\<rparr>, w)"
    using assms(1,3) pos unfolding serves_chunks_def
    by (metis add_0 default_limit_Continue drop0)
  show ?thesis
  proof (cases "?k < length objs")
    case True
    have "tok ?k \<noteq> []" using assms(1) pos by (simp add: serves_chunks_def)
    then show ?thesis
      using True pos pager_loop_rest[OF assms(1), of "with_rv [] (?req\<lparr>Continue := tok ?k\<rparr>)" ?k]
      by (simp add: pager_List_def pager_loop.simps[of _ _ _ ?req] fn add_page_def)
  next
    case False
    then show ?thesis by (simp add: pager_List_def pager_loop.simps[of _ _ _ ?req] fn)
  qed
qed

text \<open>
  A token that expires after the first page costs one more request, the full list at the resource version
  first asked for; an error of the first page is the result.
\<close>

lemma pager_expired_second_page:
  assumes "fn (default_limit req) w = (Inr m, w1)" "page_Continue m \<noteq> []"
    and "fn (with_rv [] ((default_limit req)\<lparr>Continue := page_Continue m\<rparr>)) w1 = (Inl e, w2)" "expired e"
  shows "pager_List expired fn req w = Some (fn (req\<lparr>Limit := 0, Continue := []\<rparr>) w2)"
proof -
  let ?next = "with_rv [] ((default_limit req)\<lparr>Continue := page_Continue m\<rparr>)"
  have full: "(default_limit req)\<lparr>Limit := 0, Continue := [], pr_Options := pr_Options req\<rparr> = req\<lparr>Limit := 0, Continue := []\<rparr>"
    by (simp add: default_limit_def)
  have "pager_loop expired fn (opt_ResourceVersion (pr_Options req)) ?next l w1 =
      Some (fn (req\<lparr>Limit := 0, Continue := []\<rparr>) w2)" for l
    using assms(2-4) by (subst pager_loop.simps) (simp add: full)
  then show ?thesis
    using assms(1,2) by (simp add: pager_List_def pager_loop.simps[of _ _ _ "default_limit req"])
qed

text \<open>Three objects in pages of two, from a server that serves chunks.\<close>

definition demo_token :: "nat \<Rightarrow> string" where
  "demo_token n = replicate n (CHR ''c'')"

definition demo_pages :: "kobject list \<Rightarrow> unit page_fn" where
  "demo_pages objs req w =
     (let n = length (Continue req) in
      (Inr \<lparr>page_List = \<lparr>list_ResourceVersion = ''7'', Items = take (nat (Limit req)) (drop n objs)\<rparr>,
            page_Continue = (if n + nat (Limit req) < length objs then demo_token (n + nat (Limit req)) else [])\<rparr>, w))"

lemma demo_pages_chunks: "serves_chunks (demo_pages objs) objs ''7'' demo_token ()"
  by (auto simp: serves_chunks_def demo_pages_def demo_token_def Let_def)

lemma three_objects_two_pages:
  "pager_List expired (demo_pages (map demo_obj [''a'', ''b'', ''c''])) (reflector_request\<lparr>Limit := 2\<rparr>) () =
     Some (Inr \<lparr>page_List = \<lparr>list_ResourceVersion = ''7'', Items = map demo_obj [''a'', ''b'', ''c'']\<rparr>, page_Continue = []\<rparr>, ())"
  by (rule pager_lists_everything[OF demo_pages_chunks]) (simp_all add: reflector_request_def)

end
