(* ===== verification/Test_Utils.thy ===== *)
theory Test_Utils
  imports Generator
begin

text \<open>
  \<open>internal/store/testutils.go\<close>, which is compiled into the program: how the tests of the stores compare
  the generated text with the text they want. Regular expressions are compiled by a parameter.
\<close>

subsection \<open>Aligning texts\<close>

definition removeUnusedWhitespace :: "string \<Rightarrow> string" where
  "removeUnusedWhitespace s = Join (filter (\<lambda>l. 0 < length l) (map TrimSpace (Split newline s))) [newline]"

definition sortByLine :: "string \<Rightarrow> string" where
  "sortByLine s = Join (sort (Split newline s)) [newline]"

text \<open>The labels of one line in order. A line without exactly one opening brace panics, and so does one without a closing brace.\<close>

definition sort_line :: "string \<Rightarrow> string go" where
  "sort_line line =
     (if HasPrefix line ''# '' then Inr line
      else let split = Split (CHR ''{'') line in
           if length split \<noteq> 2
           then Inl (Panic_msg (''failed to sort labels in '' @ [CHR 0x22] @ line @ [CHR 0x22]))
           else let name = split ! 0; split' = Split (CHR ''}'') (split ! 1) in
                if length split' < 2 then Inl Index_out_of_range
                else let value = split' ! 1; labels = Split (CHR '','') (split' ! 0)
                     in Inr (name @ ''{'' @ Join (sort labels) '','' @ ''}'' @ value))"

definition sortLabels :: "string \<Rightarrow> string go" where
  "sortLabels s = go_bind (go_mapM sort_line (Split newline s)) (\<lambda>ls. Inr (Join ls [newline]))"

definition align_output :: "string \<Rightarrow> string go" where
  "align_output s = go_bind (sortLabels (removeUnusedWhitespace s)) (\<lambda>s'. Inr (sortByLine s'))"

definition compareOutput :: "string \<Rightarrow> string \<Rightarrow> err option go" where
  "compareOutput expected actual =
     go_bind (align_output expected) (\<lambda>e. go_bind (align_output actual) (\<lambda>a. Inr
       (if e \<noteq> a
        then Some (Err ([newline] @ ''EXPECTED:'' @ [newline] @ ''--------------'' @ [newline] @ e @ [newline] @ ''ACTUAL:'' @ [newline] @
               ''--------------'' @ [newline] @ a))
        else None)))"

subsection \<open>Test cases\<close>

text \<open>\<open>MustCompile\<close> panics where \<open>Compile\<close> gives an error.\<close>

definition MustCompile :: "(string \<Rightarrow> err + (string \<Rightarrow> bool)) \<Rightarrow> string \<Rightarrow> (string \<Rightarrow> bool) go" where
  "MustCompile Compile e = (case Compile e of Inl (Err m) \<Rightarrow> Inl (Panic_msg m) | Inr r \<Rightarrow> Inr r)"

definition filterMetricNames ::
  "(string \<Rightarrow> err + (string \<Rightarrow> bool)) \<Rightarrow> string list \<Rightarrow> string list option \<Rightarrow> string list go" where
  "filterMetricNames Compile ms names =
     (case names of
        None \<Rightarrow> Inr ms
      | Some ns \<Rightarrow>
          go_bind (go_mapM (\<lambda>n. MustCompile Compile (''.*'' @ n @ ''.*$'')) ns)
            (\<lambda>regexps. Inr (filter (\<lambda>m. list_ex (\<lambda>r. r m) regexps) ms)))"

record 'o generateMetricsTestCase =
  tc_Obj :: 'o
  tc_MetricNames :: "string list option"
  tc_Want :: string
  tc_Headers :: "string list"
  tc_Func :: "'o \<Rightarrow> Family list go"

definition test_run :: "(string \<Rightarrow> err + (string \<Rightarrow> bool)) \<Rightarrow> 'o generateMetricsTestCase \<Rightarrow> err option go" where
  "test_run Compile testCase =
     go_bind (tc_Func testCase (tc_Obj testCase)) (\<lambda>metricFamilies.
     go_bind (go_mapM ByteSlice metricFamilies) (\<lambda>metricFamilyStrings.
     go_bind (filterMetricNames Compile (Split newline (Join metricFamilyStrings [])) (tc_MetricNames testCase)) (\<lambda>filteredMetrics.
     go_bind (filterMetricNames Compile (tc_Headers testCase) (tc_MetricNames testCase)) (\<lambda>filteredHeaders.
     go_bind (compareOutput (tc_Want testCase) (Join filteredHeaders [newline] @ [newline] @ Join filteredMetrics [newline])) (\<lambda>r. Inr
       (case r of
          Some (Err e) \<Rightarrow> Some (Err (''expected wanted output to equal output: '' @ e))
        | None \<Rightarrow> None))))))"

subsection \<open>Lines\<close>

datatype out_line = Head string | Sample string "string list" string

fun render_line :: "out_line \<Rightarrow> string" where
  "render_line (Head h) = ''# '' @ h"
| "render_line (Sample name labels value) = name @ CHR ''{'' # Join labels '','' @ CHR ''}'' # value"

definition render :: "out_line list \<Rightarrow> string" where
  "render ls = Join (map render_line ls) [newline]"

fun canon :: "out_line \<Rightarrow> out_line" where
  "canon (Head h) = Head h"
| "canon (Sample name labels value) = Sample name (sort labels) value"

fun sample_ok :: "out_line \<Rightarrow> bool" where
  "sample_ok (Head h) \<longleftrightarrow> True"
| "sample_ok (Sample name labels value) \<longleftrightarrow>
     CHR ''{'' \<notin> set name \<and> CHR ''{'' \<notin> set value \<and> CHR ''}'' \<notin> set value \<and> labels \<noteq> [] \<and>
     list_all (\<lambda>l. CHR ''{'' \<notin> set l \<and> CHR ''}'' \<notin> set l \<and> CHR '','' \<notin> set l) labels"

definition line_ok :: "out_line \<Rightarrow> bool" where
  "line_ok l \<longleftrightarrow> sample_ok l \<and> newline \<notin> set (render_line l) \<and> TrimSpace (render_line l) = render_line l \<and>
     (\<forall>n ls v. l = Sample n ls v \<longrightarrow> \<not> HasPrefix (render_line l) ''# '')"

lemma render_line_not_Nil [simp]: "render_line l \<noteq> []"
  by (cases l) auto

lemma set_Join: "set (Join xs sep) \<subseteq> (\<Union>x \<in> set xs. set x) \<union> set sep"
  by (induction xs sep rule: Join.induct) auto

lemma sample_parts:
  assumes "sample_ok (Sample n ls v)"
  shows "Split (CHR ''{'') (render_line (Sample n ls v)) = [n, Join ls '','' @ CHR ''}'' # v]"
    "Split (CHR ''}'') (Join ls '','' @ CHR ''}'' # v) = [Join ls '','', v]" "Split (CHR '','') (Join ls '','') = ls"
proof -
  have j: "CHR ''{'' \<notin> set (Join ls '','')" "CHR ''}'' \<notin> set (Join ls '','')"
    using assms set_Join[of ls "'',''"] by (auto simp: list_all_iff)
  show "Split (CHR ''{'') (render_line (Sample n ls v)) = [n, Join ls '','' @ CHR ''}'' # v]"
    "Split (CHR ''}'') (Join ls '','' @ CHR ''}'' # v) = [Join ls '','', v]"
    using assms j by (simp_all add: Split_append Split_no_occurrence)
  show "Split (CHR '','') (Join ls '','') = ls" using assms by (intro Split_Join) (auto simp: list_all_iff)
qed

lemma sort_line_render:
  assumes "line_ok l"
  shows "sort_line (render_line l) = Inr (render_line (canon l))"
proof (cases l)
  case (Head h)
  then show ?thesis by (simp add: sort_line_def HasPrefix_def)
next
  case (Sample n ls v)
  then have "sample_ok (Sample n ls v)" "\<not> HasPrefix (render_line l) ''# ''" using assms by (auto simp: line_ok_def)
  then show ?thesis using sample_parts[of n ls v] unfolding Sample by (simp add: sort_line_def Let_def)
qed

text \<open>A line can be read from its text.\<close>

lemma render_line_inj:
  assumes "sample_ok l" "sample_ok l'" "render_line l = render_line l'"
    "\<And>n ls v. l = Sample n ls v \<Longrightarrow> \<not> HasPrefix (render_line l) ''# ''" "\<And>n ls v. l' = Sample n ls v \<Longrightarrow> \<not> HasPrefix (render_line l') ''# ''"
  shows "l = l'"
proof (cases l)
  case (Head h)
  then have "HasPrefix (render_line l') ''# ''" unfolding assms(3)[symmetric] by (simp add: HasPrefix_def)
  then obtain h' where "l' = Head h'" using assms(5) by (cases l') auto
  then show ?thesis using Head assms(3) by simp
next
  case (Sample n ls v)
  then have "\<not> HasPrefix (render_line l') ''# ''" unfolding assms(3)[symmetric] using assms(4) by simp
  then obtain n' ls' v' where l': "l' = Sample n' ls' v'" by (cases l') (auto simp: HasPrefix_def)
  note p = sample_parts[OF assms(1)[unfolded Sample]] and p' = sample_parts[OF assms(2)[unfolded l']]
  have "[n, Join ls '','' @ CHR ''}'' # v] = [n', Join ls' '','' @ CHR ''}'' # v']"
    using trans[OF trans[OF p(1)[symmetric] arg_cong[where f = "Split (CHR ''{'')", OF assms(3)[unfolded Sample l']]] p'(1)] .
  then have 1: "n = n'" "Join ls '','' @ CHR ''}'' # v = Join ls' '','' @ CHR ''}'' # v'" by blast+
  have "[Join ls '','', v] = [Join ls' '','', v']" using trans[OF trans[OF p(2)[symmetric] arg_cong[where f = "Split (CHR ''}'')", OF 1(2)]] p'(2)] .
  then have 2: "Join ls '','' = Join ls' '',''" "v = v'" by auto
  have "ls = ls'" using trans[OF trans[OF p(3)[symmetric] arg_cong[where f = "Split (CHR '','')", OF 2(1)]] p'(3)] .
  then show ?thesis using 1(1) 2(2) Sample l' by simp
qed

lemma set_Join_sort: "set (Join (sort ls) sep) = set (Join ls sep)"
proof -
  have "set (Join zs sep) = (\<Union>z \<in> set zs. set z) \<union> (if 1 < length zs then set sep else {})" for zs
    by (induction zs sep rule: Join.induct) auto
  then show ?thesis by simp
qed

lemma sort_Nil_iff [simp]: "sort xs = [] \<longleftrightarrow> xs = []"
  by (metis length_0_conv length_sort)

lemma canon_ok: "sample_ok l \<Longrightarrow> sample_ok (canon l)"
  by (cases l) (auto simp: list_all_iff)

lemma canon_chars: "set (render_line (canon l)) = set (render_line l)"
  by (cases l) (simp_all add: set_Join_sort)

lemma canon_header:
  assumes "line_ok l" "canon l = Sample n ls v"
  shows "\<not> HasPrefix (render_line (canon l)) ''# ''"
proof -
  obtain ls' where l: "l = Sample n ls' v" using assms(2) by (cases l) auto
  then have "\<not> HasPrefix (render_line l) ''# ''" using assms(1) by (simp add: line_ok_def)
  moreover have "CHR ''{'' \<notin> set n" using assms(1) l by (simp add: line_ok_def)
  ultimately show ?thesis using l assms(2)
    by (cases n; cases "tl n") (auto simp: HasPrefix_def prefix_Cons)
qed

subsection \<open>Comparing texts\<close>

lemma lines_of_render:
  assumes "ls \<noteq> []" "list_all (\<lambda>l. newline \<notin> set (render_line l)) ls"
  shows "Split newline (render ls) = map render_line ls"
  unfolding render_def using assms by (intro Split_Join) (auto simp: list_all_iff)

lemma align_render:
  assumes "ls \<noteq> []" "list_all line_ok ls"
  shows "align_output (render ls) = Inr (Join (sort (map render_line (map canon ls))) [newline])"
proof -
  have ok: "line_ok l" "newline \<notin> set (render_line l)" "TrimSpace (render_line l) = render_line l" if "l \<in> set ls" for l
    using assms(2) that by (auto simp: list_all_iff line_ok_def)
  have split: "Split newline (render ls) = map render_line ls" using lines_of_render assms ok by (simp add: list_all_iff)
  have trim: "map TrimSpace (map render_line ls) = map render_line ls" using ok(3) by simp
  have "filter (\<lambda>l. 0 < length l) (map render_line ls) = map render_line ls" by (simp add: filter_id_conv)
  then have "removeUnusedWhitespace (render ls) = render ls"
    unfolding removeUnusedWhitespace_def split trim by (simp add: render_def)
  moreover have "go_mapM sort_line (map render_line ls) = Inr (map render_line (map canon ls))"
    using ok(1) sort_line_render by (simp add: go_mapM_Inr_iff list_all2_conv_all_nth)
  then have "sortLabels (render ls) = Inr (render (map canon ls))" unfolding sortLabels_def split by (simp add: render_def)
  moreover have "Split newline (render (map canon ls)) = map render_line (map canon ls)"
    using assms(1) ok(2) canon_chars by (intro lines_of_render) (auto simp: list_all_iff)
  ultimately show ?thesis by (simp add: align_output_def sortByLine_def)
qed

lemma Join_lines_inj:
  assumes "xs \<noteq> []" "ys \<noteq> []" "\<And>x. x \<in> set xs \<union> set ys \<Longrightarrow> newline \<notin> set x"
  shows "Join xs [newline] = Join ys [newline] \<longleftrightarrow> xs = ys"
proof
  assume "Join xs [newline] = Join ys [newline]"
  then have "Split newline (Join xs [newline]) = Split newline (Join ys [newline])" by simp
  then show "xs = ys" using Split_Join[of xs newline] Split_Join[of ys newline] assms by simp
qed simp

text \<open>Lines that have the same texts in order are the same lines.\<close>

lemma canon_inj:
  assumes "line_ok x" "line_ok y" "render_line (canon x) = render_line (canon y)"
  shows "canon x = canon y"
proof (rule render_line_inj[OF _ _ assms(3)])
  show "sample_ok (canon x)" "sample_ok (canon y)" using assms(1,2) by (simp_all add: line_ok_def canon_ok)
qed (use canon_header assms(1,2) in blast)+

lemma mset_render_canon:
  assumes "list_all line_ok as" "list_all line_ok bs"
  shows "mset (map render_line (map canon as)) = mset (map render_line (map canon bs)) \<longleftrightarrow> mset (map canon as) = mset (map canon bs)"
proof
  have inj: "inj_on render_line (set (map canon as) \<union> set (map canon bs))"
    using assms canon_inj by (auto intro!: inj_onI simp: list_all_iff)
  define g where "g = inv_into (set (map canon as) \<union> set (map canon bs)) render_line"
  have g: "map g (map render_line xs) = xs" if "set xs \<subseteq> set (map canon as) \<union> set (map canon bs)" for xs
    using that inv_into_f_f[OF inj] by (simp add: map_idI g_def subset_iff)
  assume "mset (map render_line (map canon as)) = mset (map render_line (map canon bs))"
  then have "mset (map g (map render_line (map canon as))) = mset (map g (map render_line (map canon bs)))"
    unfolding mset_map[of g] by simp
  moreover have "map g (map render_line (map canon as)) = map canon as" "map g (map render_line (map canon bs)) = map canon bs"
    by (rule g; simp)+
  ultimately show "mset (map canon as) = mset (map canon bs)" by metis
next
  assume "mset (map canon as) = mset (map canon bs)"
  then show "mset (map render_line (map canon as)) = mset (map render_line (map canon bs))" by (simp only: mset_map)
qed

text \<open>
  A test passes exactly when the wanted and the generated text have the same lines as often, in whatever
  order, up to the order of the labels of a line; blanks around lines do not count. No label may contain a
  comma or a brace.
\<close>

lemma sort_eq_iff: "sort xs = sort ys \<longleftrightarrow> mset xs = mset ys"
  using properties_for_sort[of "sort ys" xs] by (metis mset_sort sorted_sort)

lemma compareOutput_iff:
  assumes "as \<noteq> []" "bs \<noteq> []" "list_all line_ok as" "list_all line_ok bs"
  shows "compareOutput (render as) (render bs) = Inr None \<longleftrightarrow> mset (map canon as) = mset (map canon bs)"
proof -
  let ?a = "map render_line (map canon as)" and ?b = "map render_line (map canon bs)"
  have "Join (sort ?a) [newline] = Join (sort ?b) [newline] \<longleftrightarrow> sort ?a = sort ?b"
    using assms canon_chars by (intro Join_lines_inj) (auto simp: list_all_iff line_ok_def)
  also have "\<dots> \<longleftrightarrow> mset ?a = mset ?b" by (rule sort_eq_iff)
  also have "\<dots> \<longleftrightarrow> mset (map canon as) = mset (map canon bs)" by (rule mset_render_canon) (use assms in auto)
  finally show ?thesis
    using align_render[of as] align_render[of bs] assms by (simp add: compareOutput_def)
qed

text \<open>
  With a closing brace inside of a label the rest of the line is not compared: a wrong value passes.
\<close>

definition brace_line :: "string \<Rightarrow> string" where
  "brace_line value = ''m{l='' @ [CHR 0x22] @ ''}'' @ [CHR 0x22] @ ''} '' @ value"

lemma brace_hides_value: "compareOutput (brace_line ''1'') (brace_line ''2'') = Inr None"
  by code_simp

end
