(* ===== verification/Spec2Isabelle.thy ===== *)
theory Spec2Isabelle
  imports End_To_End Handler_Lock Store_Lock Program Public_Builder Reaper Crontab Pager Test_Utils
begin

text \<open>
  \<^bold>\<open>kube-state-metrics\<close> lists and watches the objects of a Kubernetes cluster and serves
  metrics about them in the Prometheus text format. This development models the program's own Go
  code and the small part of its libraries that its behaviour rests on, and proves what makes the
  parts and their combination correct.

  \<^bold>\<open>How the program works.\<close> \<open>main.go\<close> turns the flags (\<open>pkg/options\<close>) into a builder
  (\<open>internal/store/builder.go\<close>, behind \<open>pkg/builder\<close>) and an HTTP handler
  (\<open>pkg/metricshandler\<close>). For every enabled resource the builder filters the resource's family
  generators (\<open>internal/store/*.go\<close>, \<open>pkg/metric_generator\<close>) by the allow- and denylist
  (\<open>pkg/allowdenylist\<close>), makes a store (\<open>pkg/metrics_store\<close>) and starts a reflector on it.
  The reflector (client-go) lists and watches through a chain of lister watchers: the client, over
  one or several namespaces (\<open>pkg/listwatch\<close>), counted (\<open>pkg/watch\<close>), restricted to the
  process's shard (\<open>pkg/sharding\<close>). The store keeps the rendered text (\<open>pkg/metric\<close>) of every
  object, and a scrape writes the texts of all stores under the family headers. When the stateful set
  the process runs in changes, the handler rebuilds all stores for the new shard.

  \<^bold>\<open>Theories, from the bottom.\<close>
  \<^item> \<open>Prelude\<close>: outcomes of code that may panic (\<open>'a go\<close>), their sequencing, Go maps as
    association lists, shared lemmas. \<open>Go_Strings\<close>, \<open>Go_Float\<close>, \<open>Go_Strconv\<close>: the parts of
    Go's \<open>strings\<close>, \<open>strconv\<close> and float64 that the program uses, with rounding to 53 bits
    written out (there is no negative zero) and the shortest decimal that reads back.
  \<^item> \<open>Metric\<close> (\<open>pkg/metric\<close>), \<open>Exposition\<close> (a reader for the samples of the text format, the
    specification of the writer), \<open>Float_Text\<close> (the text of a float64 parses back), \<open>Generator\<close>
    (\<open>pkg/metric_generator\<close>). A generator is sound for an object (\<open>gen_sound\<close>) when it returns a
    \<open>valid_family\<close>: as many label values as names, label names of the allowed form, values in float64.
  \<^item> \<open>K8s_Meta\<close>, \<open>K8s_Core\<close>, \<open>K8s_Objects\<close>: the fields of the API objects that the program reads,
    with metadata, quantities, int-or-percent values; \<open>kobject\<close> is Go's \<open>interface{}\<close> over them.
  \<^item> \<open>Store_Utils\<close> (\<open>internal/store/utils.go\<close>, \<open>pkg/constant\<close>) and the stores: \<open>Store_Pod\<close>,
    \<open>Store_Node\<close>, \<open>Store_Workloads\<close> (daemonset, replicaset, replicationcontroller, statefulset,
    deployment), \<open>Store_Batch\<close> (job, cronjob), \<open>Store_Core\<close> (configmap, secret, service, endpoint,
    namespace, limitrange, resourcequota, persistentvolume, persistentvolumeclaim), \<open>Store_Misc\<close>
    (certificatesigningrequest, ingress, lease, the two webhook configurations, networkpolicy,
    poddisruptionbudget, storageclass, volumeattachment), \<open>Store_Autoscaling\<close> (horizontal and vertical
    pod autoscaler). Each of the 211 metric families is one definition with the family's name, each
    resource has its wrapper \<open>wrap...Func\<close> and its list \<open>...MetricFamilies\<close>. \<open>Test_Utils\<close> is
    \<open>testutils.go\<close>, the comparison of texts that the tests of the stores use.
  \<^item> \<open>Go_Time\<close> (Go's calendar, times and durations), \<open>Cron_Spec\<close> and \<open>Cron_Parser\<close> (the vendored
    \<open>robfig/cron\<close>: schedules, the search for their next time, and their parser), \<open>Cron_Next\<close> (the search
    is right), \<open>Crontab\<close> (what a crontab line means, and the next schedule time that the cron job store
    shows for it).
  \<^item> \<open>Metrics_Store\<close> (\<open>pkg/metrics_store\<close>), \<open>Lister_Watcher\<close> (client-go's interface),
    \<open>Sharding\<close>, \<open>Listwatch\<close>, \<open>Watch_Metrics\<close> (the packages of these names), \<open>Reflector\<close> (the
    vendored client-go reflector), \<open>Pager\<close> (its lists in pages: the model's single list call is
    what the two nested pagers of client-go amount to), \<open>Allowdenylist\<close>, \<open>Options\<close>.
  \<^item> \<open>Builder\<close> (\<open>internal/store/builder.go\<close> and the \<open>create...ListWatch\<close> functions),
    \<open>Public_Builder\<close> (\<open>pkg/builder\<close>), \<open>Scrape\<close> (a reader for whole scrapes), \<open>End_To_End\<close> (builder,
    sharding, reflector, store and text together), \<open>Metrics_Handler\<close> (\<open>pkg/metricshandler\<close>),
    \<open>Main_Wiring\<close> (the builder and the handler that \<open>main.go\<close> makes from the flags), \<open>Go_Http\<close> (Go's
    path cleaning and request multiplexer), \<open>Program\<close> (the rest of \<open>main.go\<close>: its outcomes, the API
    clients, the routes and pages of the servers; \<open>pkg/version\<close>).
  \<^item> Goroutines as step relations: \<open>Rw_Mutex\<close> (Go's read-write lock and its users), \<open>Store_Lock\<close> (the
    lock of a metrics store: reflectors against scrapes), \<open>Handler_Lock\<close> (the lock of the handler:
    reconfigurations against scrapes), \<open>Reaper\<close> (\<open>pkg/util/proc\<close>); the forwarding goroutines of a
    watch over several namespaces are in \<open>Listwatch\<close>.

  \<^bold>\<open>Interfaces.\<close> \<open>resource_families\<close>: what the builder relies on of a resource's generators,
  interpreted once per resource (29 times). \<open>cache_store\<close>: what the reflector relies on of a store,
  interpreted on the metrics store; the reflector is proved correct for every such store.
  \<open>store_invariant\<close>: what the reflector keeps of a store, interpreted on reachability.
  \<open>filtering_lister_watcher\<close>: the wrappers that hide objects, interpreted on the sharded and on the
  denylisting lister watcher. \<open>allow_deny_lister\<close>: what the family filter relies on.
  \<open>builder_interface\<close>: Go's \<open>BuilderInterface\<close>, interpreted on both builders. \<open>rw_protected\<close> and
  \<open>rw_progress\<close>: what the users of a read-write lock have to keep, interpreted on the store and on the
  handler. \<open>scan_loop\<close>, \<open>scan_unit\<close> and \<open>nested_unit\<close>: what the five loops of the search for the next
  time of a schedule share, interpreted on each of them; \<open>whole_minutes\<close>: the zones the search is right
  in, interpreted on UTC.

  \<^bold>\<open>Parameters.\<close> Code that is not part of the repository's own sources is an argument of the
  definitions: the API clients (\<open>'w client\<close>, with the state of the cluster in \<open>'w\<close>), the regular
  expression compiler, the time zone database, the order in which the goroutines of a multi watch
  interleave (\<open>merge\<close>; the goroutines themselves are the step relation \<open>mw_step\<close>), the order in which
  Go visits a map (\<open>map_order\<close>), the bytes a gzip writer emits when it is closed, the flag library's
  parsers, the constructors of the API clients, and the answers of the profiling and self-metrics handlers.

  \<^bold>\<open>Bounds.\<close> The loop of the jump hash is a partial function of which the theorems show that it
  returns for 1 to \<open>2 ^ 31 - 1\<close> shards, the range of its int32 result. The rounds of the
  reflector's endless watch loop are counted; the refinement theorem holds for every number of rounds.
  The loop of the pager is a partial function, shown to return all objects of a server that serves chunks.
  The search for the next time of a schedule is a total function; that each of its loops ends, and the
  jumps between them, is part of its definition.

  \<^bold>\<open>What is proved.\<close> From the API to the text, for 27 resources, a scrape shows exactly the objects of
  the process's shard (C1), and the shards together show the cluster (C8); driving a store through the
  reflector refines a store of the objects themselves (C2, C18, C19). The text of a scrape reads back
  (C3), prints every stored object once under the right header (C4, C22) and never panics (C5). Under
  the locks a scrape shows one state of each store and one generation of stores, sees only a prefix of
  a list that replaces the contents, and can always finish (C6, C7, C20, C21). The shards partition
  lists and watches and are stable (C9 to C12). No object of 25 resources makes a generator panic, and
  for the other four the exact condition is given (C13 to C16). The next time that a cron job's store
  shows is the first one its schedule stands for (C17). The builder builds one store per
  enabled resource for exactly the included families, whose names are all different (C23, C24), and
  its reflectors expect the right types with two exceptions (C25, C26). Watches over several namespaces
  neither lose nor reorder events nor deadlock (C27 to C29), denied namespaces are hidden (C30). The
  handler follows its stateful set and writes the stores in order (C31, C32). The program comes up
  exactly when its flags are fine, routes requests as documented and builds the default stores (C33 to
  C35). The lists mean what they say (C36), the encodings of labels, quantities and numbers are right
  (C37 to C39), and no zombie process stays (C40).

  \<^bold>\<open>What is not modelled.\<close> Logging, the TCP servers, how pflag splits the command line, the
  profiling handlers and the registry of the self metrics; the back-off timers and the
  clocks of the reflector (its resync timer never fires: the builder passes the period zero); time zones whose distance from UTC changes; the tests. The text of an error is modelled where the
  program builds it, without the parts that print Go values or the errors of libraries.
\<close>

section \<open>Properties that span components\<close>



end
